(* ===== verification/Errors.thy ===== *)
theory Errors
  imports Prelude
begin

text \<open>
  The status and registration enumerations, the domain errors with their codes, messages and
  details, the other errors the service distinguishes by \<open>instanceof\<close>, and the mapping of error
  codes to HTTP statuses. Sources: \<open>domain/enums\<close>, \<open>domain/errors\<close>,
  \<open>infrastructure/errors\<close>, \<open>shared/utils/domain-error-mapper.ts\<close> and the message constants the
  errors use.
\<close>

subsection \<open>Enumerations\<close>

datatype queue_status = WAITING | SEATED | SKIPPED | CANCELLED | NO_SHOW

datatype registration_type = ONLINE | WALK_IN

datatype cancel_reason = R_NO_SHOW | R_GUEST_CANCELLED | R_WALK_OUT | R_OTHER

text \<open>The string values of the enumerations.\<close>

fun status_string :: "queue_status \<Rightarrow> string" where
  "status_string WAITING = ''WAITING''"
| "status_string SEATED = ''SEATED''"
| "status_string SKIPPED = ''SKIPPED''"
| "status_string CANCELLED = ''CANCELLED''"
| "status_string NO_SHOW = ''NO_SHOW''"

fun cancel_reason_string :: "cancel_reason \<Rightarrow> string" where
  "cancel_reason_string R_NO_SHOW = ''NO_SHOW''"
| "cancel_reason_string R_GUEST_CANCELLED = ''GUEST_CANCELLED''"
| "cancel_reason_string R_WALK_OUT = ''WALK_OUT''"
| "cancel_reason_string R_OTHER = ''OTHER''"

lemma status_string_inj [simp]: "status_string s = status_string t \<longleftrightarrow> s = t"
  by (cases s; cases t) simp_all

subsection \<open>Domain errors\<close>

datatype domain_error =
    TableAvailableError int
  | RestaurantNotAcceptingQueueError
  | ActiveQueueEntryExistsError string
  | ActiveUserQueueEntryExistsError
  | QueueEntryNotFoundError uuid
  | UnauthorizedStaffAccessError
  | InvalidPartySizeError
  | RestaurantBlockedError uuid "string option"
  | QueueProSubscriptionRequiredError uuid "string option"
  | RestaurantNotFoundError uuid
  | UpstreamServiceUnavailableError string "nat option"
  | QueueEntryNotWaitingError uuid queue_status
  | InsufficientTableCapacityError int int
  | CannotRingWalkInCustomerError uuid
  | UnauthorizedError string

fun error_code :: "domain_error \<Rightarrow> string" where
  "error_code (TableAvailableError _) = ''TABLES_AVAILABLE''"
| "error_code RestaurantNotAcceptingQueueError = ''RESTAURANT_NOT_ACCEPTING_QUEUE''"
| "error_code (ActiveQueueEntryExistsError _) = ''ACTIVE_QUEUE_ENTRY_EXISTS''"
| "error_code ActiveUserQueueEntryExistsError = ''ACTIVE_QUEUE_ENTRY_EXISTS''"
| "error_code (QueueEntryNotFoundError _) = ''QUEUE_ENTRY_NOT_FOUND''"
| "error_code UnauthorizedStaffAccessError = ''FORBIDDEN''"
| "error_code InvalidPartySizeError = ''INVALID_PARTY_SIZE''"
| "error_code (RestaurantBlockedError _ _) = ''RESTAURANT_BLOCKED''"
| "error_code (QueueProSubscriptionRequiredError _ _) = ''SUBSCRIPTION_REQUIRED''"
| "error_code (RestaurantNotFoundError _) = ''RESTAURANT_NOT_FOUND''"
| "error_code (UpstreamServiceUnavailableError _ _) = ''UPSTREAM_SERVICE_UNAVAILABLE''"
| "error_code (QueueEntryNotWaitingError _ _) = ''QUEUE_ENTRY_NOT_WAITING''"
| "error_code (InsufficientTableCapacityError _ _) = ''INSUFFICIENT_TABLE_CAPACITY''"
| "error_code (CannotRingWalkInCustomerError _) = ''CANNOT_RING_WALK_IN_CUSTOMER''"
| "error_code (UnauthorizedError _) = ''UNAUTHORIZED''"

fun error_message :: "domain_error \<Rightarrow> string" where
  "error_message (TableAvailableError _) =
     ''Tables are currently available. Seat the guest directly without joining the queue.''"
| "error_message RestaurantNotAcceptingQueueError =
     ''Restaurant is currently closed or not accepting queue registrations.''"
| "error_message (ActiveQueueEntryExistsError phone) =
     ''A guest with this phone number is already waiting in this restaurant queue.''
       @ '' (Phone: '' @ phone @ '')''"
| "error_message ActiveUserQueueEntryExistsError =
     ''You already have an active queue ticket at a restaurant.''"
| "error_message (QueueEntryNotFoundError _) = ''Queue entry was not found.''"
| "error_message UnauthorizedStaffAccessError =
     ''Staff member does not have permission to manage this restaurant queue''"
| "error_message InvalidPartySizeError = ''Party size must be an integer between 1 and 20.''"
| "error_message (RestaurantBlockedError _ reason) =
     ''Restaurant is currently blocked by administration. Queue operations are disabled.''
       @ (if truthy reason then '' Reason: '' @ the reason else [])"
| "error_message (QueueProSubscriptionRequiredError _ plan) =
     ''Restaurant requires an active QUEUE_PRO subscription to access queue services.''
       @ '' (Current plan: '' @ nullish plan ''NONE'' @ '')''"
| "error_message (RestaurantNotFoundError _) = ''Restaurant was not found.''"
| "error_message (UpstreamServiceUnavailableError msg _) = msg"
| "error_message (QueueEntryNotWaitingError _ _) = ''Queue entry is not currently waiting''"
| "error_message (InsufficientTableCapacityError partySize seats) =
     ''Assigned table capacity is less than party size''
       @ '' (Required: '' @ show_int partySize @ '', Assigned: '' @ show_int seats @ '')''"
| "error_message (CannotRingWalkInCustomerError _) =
     ''Walk-in customer cannot be rung as they do not have a registered device''"
| "error_message (UnauthorizedError msg) = msg"

text \<open>The \<open>details\<close> object of an error: its keys with their values.\<close>

datatype detail = DNull | DNum int | DStr string

definition detail_opt :: "string option \<Rightarrow> detail" where
  "detail_opt s = (case s of None \<Rightarrow> DNull | Some x \<Rightarrow> DStr x)"

fun error_details :: "domain_error \<Rightarrow> (string \<times> detail) list option" where
  "error_details (TableAvailableError n) = Some [(''availableCount'', DNum n)]"
| "error_details (QueueEntryNotFoundError i) = Some [(''queueEntryId'', DStr i)]"
| "error_details (RestaurantBlockedError i reason) =
     Some [(''restaurantId'', DStr i), (''reason'', detail_opt reason)]"
| "error_details (QueueProSubscriptionRequiredError i plan) =
     Some [(''restaurantId'', DStr i), (''currentPlan'', detail_opt plan),
       (''requiredPlan'', DStr ''QUEUE_PRO'')]"
| "error_details (RestaurantNotFoundError i) = Some [(''restaurantId'', DStr i)]"
| "error_details (UpstreamServiceUnavailableError _ st) =
     (case st of None \<Rightarrow> None | Some n \<Rightarrow> Some [(''upstreamStatusCode'', DNum (int n))])"
| "error_details (QueueEntryNotWaitingError i st) =
     Some [(''queueEntryId'', DStr i), (''currentStatus'', DStr (status_string st))]"
| "error_details (InsufficientTableCapacityError p t) =
     Some [(''partySize'', DNum p), (''totalCapacity'', DNum t)]"
| "error_details (CannotRingWalkInCustomerError i) = Some [(''queueEntryId'', DStr i)]"
| "error_details _ = None"

subsection \<open>Every error the service tells apart\<close>

text \<open>
  What a rejected promise can carry. A Prisma known request error has a code and a message, an
  axios error the status and the \<open>message\<close> field of its response where there is one and its own
  message, a circuit breaker timeout its limit where the breaker recorded one.
\<close>

datatype js_error =
    DomainError domain_error
  | PersistenceError string "js_error option" string
  | TypeError string
  | ReferenceError string
  | RangeError string
  | PrismaKnownRequestError string string
  | PrismaInitializationError string
  | AxiosError "nat option" "string option" string
  | CircuitBreakerOpenError string
  | CircuitBreakerTimeoutError "int option" string
  | PlainError string
  | NonError

text \<open>The \<open>message\<close> property, for the values that are instances of \<open>Error\<close>.\<close>

fun js_message :: "js_error \<Rightarrow> string option" where
  "js_message (DomainError d) = Some (error_message d)"
| "js_message (PersistenceError m _ _) = Some m"
| "js_message (TypeError m) = Some m"
| "js_message (ReferenceError m) = Some m"
| "js_message (RangeError m) = Some m"
| "js_message (PrismaKnownRequestError _ m) = Some m"
| "js_message (PrismaInitializationError m) = Some m"
| "js_message (AxiosError _ _ m) = Some m"
| "js_message (CircuitBreakerOpenError m) = Some m"
| "js_message (CircuitBreakerTimeoutError _ m) = Some m"
| "js_message (PlainError m) = Some m"
| "js_message NonError = None"

definition is_domain_error :: "js_error \<Rightarrow> bool" where
  "is_domain_error e = (case e of DomainError _ \<Rightarrow> True | _ \<Rightarrow> False)"

subsection \<open>HTTP statuses\<close>

definition HTTP_BAD_REQUEST :: nat where "HTTP_BAD_REQUEST = 400"
definition HTTP_UNAUTHORIZED :: nat where "HTTP_UNAUTHORIZED = 401"
definition HTTP_FORBIDDEN :: nat where "HTTP_FORBIDDEN = 403"
definition HTTP_NOT_FOUND :: nat where "HTTP_NOT_FOUND = 404"
definition HTTP_CONFLICT :: nat where "HTTP_CONFLICT = 409"
definition HTTP_INTERNAL_SERVER_ERROR :: nat where "HTTP_INTERNAL_SERVER_ERROR = 500"
definition HTTP_SERVICE_UNAVAILABLE :: nat where "HTTP_SERVICE_UNAVAILABLE = 503"

lemmas http_defs = HTTP_BAD_REQUEST_def HTTP_UNAUTHORIZED_def HTTP_FORBIDDEN_def
  HTTP_NOT_FOUND_def HTTP_CONFLICT_def HTTP_INTERNAL_SERVER_ERROR_def HTTP_SERVICE_UNAVAILABLE_def

text \<open>
  The argument is the error's code and the \<open>upstreamStatusCode\<close> of its details; a missing or zero
  upstream status falls back to 503.
\<close>

definition mapDomainErrorToHttpStatus :: "string \<Rightarrow> nat option \<Rightarrow> nat" where
  "mapDomainErrorToHttpStatus code upstream =
     (if code \<in> {''TABLES_AVAILABLE'', ''RESTAURANT_NOT_ACCEPTING_QUEUE'',
                  ''ACTIVE_QUEUE_ENTRY_EXISTS'', ''QUEUE_ENTRY_NOT_WAITING''}
      then HTTP_CONFLICT
      else if code \<in> {''QUEUE_ENTRY_NOT_FOUND'', ''RESTAURANT_NOT_FOUND''} then HTTP_NOT_FOUND
      else if code = ''UNAUTHORIZED'' then HTTP_UNAUTHORIZED
      else if code \<in> {''FORBIDDEN'', ''RESTAURANT_BLOCKED'', ''SUBSCRIPTION_REQUIRED''}
      then HTTP_FORBIDDEN
      else if code \<in> {''INVALID_PARTY_SIZE'', ''INVALID_REGISTRATION_TYPE'',
                       ''INSUFFICIENT_TABLE_CAPACITY'', ''CANNOT_RING_WALK_IN_CUSTOMER''}
      then HTTP_BAD_REQUEST
      else if code = ''UPSTREAM_SERVICE_UNAVAILABLE''
      then (case upstream of Some n \<Rightarrow> if n = 0 then HTTP_SERVICE_UNAVAILABLE else n
            | None \<Rightarrow> HTTP_SERVICE_UNAVAILABLE)
      else HTTP_BAD_REQUEST)"

definition upstream_status :: "domain_error \<Rightarrow> nat option" where
  "upstream_status e = (case e of UpstreamServiceUnavailableError _ st \<Rightarrow> st | _ \<Rightarrow> None)"

definition http_status_of :: "domain_error \<Rightarrow> nat" where
  "http_status_of e = mapDomainErrorToHttpStatus (error_code e) (upstream_status e)"

lemma http_status_of_simps [simp]:
  "http_status_of (TableAvailableError c) = HTTP_CONFLICT"
  "http_status_of RestaurantNotAcceptingQueueError = HTTP_CONFLICT"
  "http_status_of (ActiveQueueEntryExistsError p) = HTTP_CONFLICT"
  "http_status_of ActiveUserQueueEntryExistsError = HTTP_CONFLICT"
  "http_status_of (QueueEntryNotWaitingError i s) = HTTP_CONFLICT"
  "http_status_of (QueueEntryNotFoundError i) = HTTP_NOT_FOUND"
  "http_status_of (RestaurantNotFoundError i) = HTTP_NOT_FOUND"
  "http_status_of (UnauthorizedError m) = HTTP_UNAUTHORIZED"
  "http_status_of UnauthorizedStaffAccessError = HTTP_FORBIDDEN"
  "http_status_of (RestaurantBlockedError i r) = HTTP_FORBIDDEN"
  "http_status_of (QueueProSubscriptionRequiredError i plan) = HTTP_FORBIDDEN"
  "http_status_of InvalidPartySizeError = HTTP_BAD_REQUEST"
  "http_status_of (InsufficientTableCapacityError n t) = HTTP_BAD_REQUEST"
  "http_status_of (CannotRingWalkInCustomerError i) = HTTP_BAD_REQUEST"
  by (simp_all add: http_status_of_def mapDomainErrorToHttpStatus_def upstream_status_def)

lemma http_status_of_upstream:
  "http_status_of (UpstreamServiceUnavailableError m st) =
     (case st of None \<Rightarrow> HTTP_SERVICE_UNAVAILABLE
      | Some n \<Rightarrow> if n = 0 then HTTP_SERVICE_UNAVAILABLE else n)"
  by (simp add: http_status_of_def mapDomainErrorToHttpStatus_def upstream_status_def)

end
