(* ===== verification/Responses.thy ===== *)
theory Responses
  imports Errors
begin

text \<open>
  The bodies of HTTP responses (\<open>shared/response/api-response.ts\<close>), the formatting of validation
  issues (\<open>validation.middleware.ts\<close>), the global error handler (\<open>error.middleware.ts\<close>) and the
  answer to an unknown path (\<open>not-found.middleware.ts\<close>). A response is its status and its body; the
  data of a successful one is a type parameter.
\<close>

subsection \<open>Validation issues\<close>

text \<open>An issue zod reports: the path of the field and the message.\<close>

datatype path_key = PKey string | PIdx nat

record issue =
  is_path :: "path_key list"
  is_message :: string

record formatted_issue =
  fi_field :: string
  fi_message :: string

fun key_text :: "path_key \<Rightarrow> string" where
  "key_text (PKey s) = s"
| "key_text (PIdx n) = show_nat n"

text \<open>\<open>join('.')\<close>\<close>

fun join_dots :: "string list \<Rightarrow> string" where
  "join_dots [] = []"
| "join_dots [s] = s"
| "join_dots (s # ss) = s @ ''.'' @ join_dots ss"

definition formatZodIssues :: "issue list \<Rightarrow> formatted_issue list" where
  "formatZodIssues issues =
     map (\<lambda>i. \<lparr> fi_field = join_dots (map key_text (is_path i)), fi_message = is_message i \<rparr>) issues"

subsection \<open>Bodies\<close>

definition HTTP_OK :: nat where "HTTP_OK = 200"
definition HTTP_CREATED :: nat where "HTTP_CREATED = 201"
definition HTTP_UNPROCESSABLE_ENTITY :: nat where "HTTP_UNPROCESSABLE_ENTITY = 422"

datatype details = Issues "formatted_issue list" | Details "(string \<times> detail) list"

record error_body =
  eb_message :: string
  eb_code :: string
  eb_error :: string
  eb_details :: "details option"
  eb_statusCode :: nat

datatype 'd body =
    OkBody string 'd nat
  | ErrorBody error_body
  | TimedErrorBody string string millis

record 'd http_response =
  hr_status :: nat
  hr_body :: "'d body"

definition sendSuccessResponse :: "'d \<Rightarrow> string \<Rightarrow> nat \<Rightarrow> 'd http_response" where
  "sendSuccessResponse d message statusCode = \<lparr> hr_status = statusCode, hr_body = OkBody message d statusCode \<rparr>"

text \<open>\<open>ApiResponse.error\<close> with no fourth argument, sent with its own status.\<close>

definition api_error :: "string \<Rightarrow> string \<Rightarrow> nat \<Rightarrow> 'd http_response" where
  "api_error message code statusCode =
     \<lparr> hr_status = statusCode,
       hr_body = ErrorBody \<lparr> eb_message = message, eb_code = code, eb_error = code, eb_details = None,
         eb_statusCode = statusCode \<rparr> \<rparr>"

definition has_space :: "string \<Rightarrow> bool" where
  "has_space s \<longleftrightarrow> CHR '' '' \<in> set s"

text \<open>
  The helper takes a code and a message in either order and tells them apart by their spaces. The
  result is the code and the message.
\<close>

definition code_and_message :: "string \<Rightarrow> string option \<Rightarrow> string \<times> string" where
  "code_and_message errorOrMessage messageOrCode =
     (let code = errorOrMessage; msg = or_else messageOrCode errorOrMessage
      in if has_space errorOrMessage \<and> truthy messageOrCode \<and> \<not> has_space (the messageOrCode)
         then (the messageOrCode, errorOrMessage)
         else if messageOrCode \<noteq> None \<and> has_space (the messageOrCode)
         then (errorOrMessage, the messageOrCode)
         else (code, msg))"

definition sendErrorResponse :: "string \<Rightarrow> string option \<Rightarrow> nat \<Rightarrow> details option \<Rightarrow> 'd http_response" where
  "sendErrorResponse errorOrMessage messageOrCode statusCode ds =
     (case code_and_message errorOrMessage messageOrCode of
        (code, msg) \<Rightarrow>
          \<lparr> hr_status = statusCode,
            hr_body = ErrorBody \<lparr> eb_message = msg, eb_code = code, eb_error = code, eb_details = ds,
              eb_statusCode = statusCode \<rparr> \<rparr>)"

subsection \<open>Validation middleware\<close>

definition VALIDATION_ERROR :: string where "VALIDATION_ERROR = ''VALIDATION_ERROR''"
definition INVALID_PARAMETERS :: string where "INVALID_PARAMETERS = ''INVALID_PARAMETERS''"
definition VALIDATION_FAILED :: string where "VALIDATION_FAILED = ''Validation failed''"
definition MSG_INVALID_PARAMETERS :: string where "MSG_INVALID_PARAMETERS = ''Invalid request parameters''"

text \<open>The middleware takes the result of the schema and answers or passes the parsed value on.\<close>

definition validateRequestBody :: "issue list + 'a \<Rightarrow> 'd http_response + 'a" where
  "validateRequestBody result =
     (case result of
        Inl issues \<Rightarrow> Inl (sendErrorResponse VALIDATION_ERROR (Some VALIDATION_FAILED) HTTP_UNPROCESSABLE_ENTITY
          (Some (Issues (formatZodIssues issues))))
      | Inr parsed \<Rightarrow> Inr parsed)"

definition validateRequestParams :: "issue list + 'a \<Rightarrow> 'd http_response + 'a" where
  "validateRequestParams result =
     (case result of
        Inl issues \<Rightarrow> Inl (sendErrorResponse INVALID_PARAMETERS (Some MSG_INVALID_PARAMETERS) HTTP_BAD_REQUEST
          (Some (Issues (formatZodIssues issues))))
      | Inr parsed \<Rightarrow> Inr parsed)"

definition validateRequestQuery :: "issue list + 'a \<Rightarrow> 'd http_response + 'a" where
  "validateRequestQuery result =
     (case result of
        Inl issues \<Rightarrow> Inl (sendErrorResponse INVALID_PARAMETERS (Some MSG_INVALID_PARAMETERS) HTTP_BAD_REQUEST
          (Some (Issues (formatZodIssues issues))))
      | Inr parsed \<Rightarrow> Inr parsed)"

subsection \<open>The error handler\<close>

definition DATABASE_ERROR :: string where "DATABASE_ERROR = ''DATABASE_ERROR''"
definition MSG_INTERNAL_SERVER_ERROR :: string where "MSG_INTERNAL_SERVER_ERROR = ''Internal Server Error''"
definition MSG_UNEXPECTED_ERROR :: string where "MSG_UNEXPECTED_ERROR = ''An unexpected error occurred''"
definition MSG_NOT_FOUND :: string where "MSG_NOT_FOUND = ''Not Found''"

lemmas response_texts = VALIDATION_ERROR_def INVALID_PARAMETERS_def VALIDATION_FAILED_def
  MSG_INVALID_PARAMETERS_def DATABASE_ERROR_def MSG_INTERNAL_SERVER_ERROR_def MSG_UNEXPECTED_ERROR_def
  MSG_NOT_FOUND_def

datatype thrown = ZodError "issue list" | Thrown js_error

definition error_answer :: "bool \<Rightarrow> nat \<Rightarrow> thrown \<Rightarrow> 'd http_response" where
  "error_answer production res_status err =
     (case err of
        ZodError issues \<Rightarrow>
          sendErrorResponse VALIDATION_ERROR (Some VALIDATION_FAILED) HTTP_BAD_REQUEST
            (Some (Issues (formatZodIssues issues)))
      | Thrown (DomainError d) \<Rightarrow>
          sendErrorResponse (error_code d) (Some (error_message d)) (http_status_of d)
            (map_option Details (error_details d))
      | Thrown (PersistenceError m cause c) \<Rightarrow>
          sendErrorResponse DATABASE_ERROR (Some (if production then MSG_INTERNAL_SERVER_ERROR else m))
            HTTP_INTERNAL_SERVER_ERROR None
      | Thrown e \<Rightarrow>
          sendErrorResponse MSG_INTERNAL_SERVER_ERROR (if production then Some MSG_UNEXPECTED_ERROR else js_message e)
            (if 400 \<le> res_status \<and> res_status < 600 then res_status else HTTP_INTERNAL_SERVER_ERROR) None)"

definition errorMiddleware :: "bool \<Rightarrow> bool \<Rightarrow> nat \<Rightarrow> thrown \<Rightarrow> 'd http_response option" where
  "errorMiddleware production headersSent res_status err =
     (if headersSent then None else Some (error_answer production res_status err))"

definition notFoundMiddleware :: "string \<Rightarrow> string \<Rightarrow> millis \<Rightarrow> 'd http_response" where
  "notFoundMiddleware req_method req_path now =
     \<lparr> hr_status = HTTP_NOT_FOUND,
       hr_body = TimedErrorBody MSG_NOT_FOUND (''Cannot '' @ req_method @ '' '' @ req_path) now \<rparr>"

subsection \<open>What the helpers do\<close>

lemma error_code_no_space [simp]: "\<not> has_space (error_code d)"
  by (cases d) (simp_all add: has_space_def)

lemma code_and_message_code [simp]:
  "\<not> has_space c \<Longrightarrow> code_and_message c (Some m) = (c, if m = [] then c else m)"
  by (auto simp: code_and_message_def Let_def has_space_def or_else_def truthy_def)

lemma domain_error_answer:
  "error_answer production st (Thrown (DomainError d)) =
     \<lparr> hr_status = http_status_of d,
       hr_body = ErrorBody \<lparr> eb_message = (if error_message d = [] then error_code d else error_message d),
         eb_code = error_code d, eb_error = error_code d, eb_details = map_option Details (error_details d),
         eb_statusCode = http_status_of d \<rparr> \<rparr>"
  by (simp add: error_answer_def sendErrorResponse_def)

text \<open>The status of an error answer is never one of success when no response status was set.\<close>

lemma error_answer_status:
  "hr_status (error_answer production 200 (Thrown e)) =
     (case e of DomainError d \<Rightarrow> http_status_of d | _ \<Rightarrow> HTTP_INTERNAL_SERVER_ERROR)"
  by (cases e) (simp_all add: error_answer_def sendErrorResponse_def case_prod_beta)

end
