(* ===== verification/Lifecycle.thy ===== *)
theory Lifecycle
  imports Entities
begin

text \<open>
  The lifecycle of a queue entry as a step relation over the entity's own methods, the
  well-formedness of an entry, and the facts the repository and use-case theories share.
\<close>

subsection \<open>Well-formed entries\<close>

text \<open>
  What the fields of an entry agree on: a position exactly while waiting, \<open>seatedAt\<close> exactly when
  seated, \<open>cancelledAt\<close> exactly when cancelled or a no-show, a ring time exactly after a ring, and
  no rings for a walk-in.
\<close>

definition entry_ok :: "queue_entry \<Rightarrow> bool" where
  "entry_ok e \<longleftrightarrow>
     (e_position e \<noteq> None) = (e_status e = WAITING) \<and>
     (e_seatedAt e \<noteq> None) = (e_status e = SEATED) \<and>
     (e_cancelledAt e \<noteq> None) = (e_status e \<in> {CANCELLED, NO_SHOW}) \<and>
     (e_lastRingedAt e \<noteq> None) = (0 < e_ringCount e) \<and>
     0 \<le> e_ringCount e \<and>
     (e_registrationType e = WALK_IN \<longrightarrow> e_ringCount e = 0)"

text \<open>The fields that identify an entry and never change after its creation.\<close>

definition same_identity :: "queue_entry \<Rightarrow> queue_entry \<Rightarrow> bool" where
  "same_identity e e' \<longleftrightarrow>
     e_id e' = e_id e \<and> e_restaurantId e' = e_restaurantId e \<and> e_userId e' = e_userId e \<and>
     e_guestName e' = e_guestName e \<and> e_phone e' = e_phone e \<and>
     e_queueNumber e' = e_queueNumber e \<and> e_partySize e' = e_partySize e \<and>
     e_specialNotes e' = e_specialNotes e \<and> e_registrationType e' = e_registrationType e \<and>
     e_estimatedWaitMinutesAtJoin e' = e_estimatedWaitMinutesAtJoin e \<and> e_fid e' = e_fid e \<and>
     e_joinedAt e' = e_joinedAt e \<and> e_createdAt e' = e_createdAt e"

lemma same_identity_refl [simp]: "same_identity e e"
  by (simp add: same_identity_def)

lemma same_identity_trans: "same_identity a b \<Longrightarrow> same_identity b c \<Longrightarrow> same_identity a c"
  by (simp add: same_identity_def)

lemma entry_create_ok [simp]: "entry_ok (entry_create fresh now p)"
  by (simp add: entry_ok_def entry_create_def)

lemma createWalkIn_ok [simp]: "entry_ok (createWalkIn fresh now p)"
  by (simp add: createWalkIn_def)

lemma createWalkIn_type [simp]: "e_registrationType (createWalkIn fresh now p) = WALK_IN"
  by (simp add: createWalkIn_def entry_create_def)

subsection \<open>The step relation\<close>

inductive life_step :: "queue_entry \<Rightarrow> queue_entry \<Rightarrow> bool" where
  life_seat: "seat t1 t2 e = Inr e' \<Longrightarrow> life_step e e'"
| life_skip: "skip t e = Inr e' \<Longrightarrow> life_step e e'"
| life_cancel: "st \<in> {CANCELLED, NO_SHOW} \<Longrightarrow> cancel st t1 t2 e = Inr e' \<Longrightarrow> life_step e e'"
| life_ring: "ring t1 t2 e = Inr e' \<Longrightarrow> life_step e e'"
| life_move: "life_step e (updatePosition t pos eta e)"

inductive life :: "queue_entry \<Rightarrow> queue_entry \<Rightarrow> bool" where
  life_refl: "life e e"
| life_trans: "life e f \<Longrightarrow> life_step f g \<Longrightarrow> life e g"

inductive_cases life_stepE: "life_step e e'"

text \<open>What each method does when it returns.\<close>

lemma seat_Inr:
  "seat t1 t2 e = Inr e' \<longleftrightarrow> e_status e = WAITING \<and>
     e' = e\<lparr> e_status := SEATED, e_seatedAt := Some t1, e_position := None, e_updatedAt := t2 \<rparr>"
  by (auto simp: seat_def)

lemma skip_Inr:
  "skip t e = Inr e' \<longleftrightarrow> e_status e = WAITING \<and>
     e' = e\<lparr> e_status := SKIPPED, e_position := None, e_updatedAt := t \<rparr>"
  by (auto simp: skip_def)

lemma cancel_Inr:
  "cancel st t1 t2 e = Inr e' \<longleftrightarrow> e_status e = WAITING \<and>
     e' = e\<lparr> e_status := st, e_cancelledAt := Some t1, e_position := None, e_updatedAt := t2 \<rparr>"
  by (auto simp: cancel_def)

lemma ring_Inr:
  "ring t1 t2 e = Inr e' \<longleftrightarrow> e_status e = WAITING \<and> e_registrationType e = ONLINE \<and>
     e' = e\<lparr> e_ringCount := e_ringCount e + 1, e_lastRingedAt := Some t1, e_updatedAt := t2 \<rparr>"
  by (cases "e_registrationType e") (auto simp: ring_def)

lemmas method_Inr = seat_Inr skip_Inr cancel_Inr ring_Inr

lemma updatePosition_eq:
  "updatePosition t p eta e =
     (if e_status e = WAITING
      then e\<lparr> e_position := Some p, e_estimatedWaitMinutes := nullish eta (e_estimatedWaitMinutes e),
              e_updatedAt := t \<rparr>
      else e)"
  by (cases eta) (simp_all add: updatePosition_def Let_def)

text \<open>Every step keeps an entry well-formed and its identity.\<close>

lemma life_step_ok: "life_step e e' \<Longrightarrow> entry_ok e \<Longrightarrow> entry_ok e'"
  by (erule life_step.cases)
    (auto simp: method_Inr entry_ok_def updatePosition_eq)

lemma life_step_identity: "life_step e e' \<Longrightarrow> same_identity e e'"
  by (erule life_step.cases)
    (auto simp: method_Inr same_identity_def updatePosition_eq)

text \<open>A step out of a status other than waiting changes nothing.\<close>

lemma life_step_terminal: "life_step e e' \<Longrightarrow> e_status e \<noteq> WAITING \<Longrightarrow> e' = e"
  by (erule life_step.cases) (auto simp: method_Inr updatePosition_eq)

lemma life_ok: "life e e' \<Longrightarrow> entry_ok e \<Longrightarrow> entry_ok e'"
  by (induction rule: life.induct) (auto intro: life_step_ok)

lemma life_identity: "life e e' \<Longrightarrow> same_identity e e'"
  by (induction rule: life.induct) (auto intro: life_step_identity same_identity_trans)

lemma life_terminal: "life e e' \<Longrightarrow> e_status e \<noteq> WAITING \<Longrightarrow> e' = e"
  by (induction rule: life.induct) (auto dest: life_step_terminal)

lemma life_append: "life f g \<Longrightarrow> life e f \<Longrightarrow> life e g"
  by (induction rule: life.induct) (auto intro: life.intros)

subsection \<open>Queue numbers\<close>

lemma generateQueueNumber_parts:
  "generateQueueNumber ty n =
     (if ty = ONLINE then CHR ''Q'' else CHR ''W'') # CHR ''-'' # padStart (show_int n) 3 (CHR ''0'')"
  by (simp add: generateQueueNumber_def queue_constants)

lemma generateQueueNumber_read:
  "0 \<le> n \<Longrightarrow> read_nat (drop 2 (generateQueueNumber ty n)) = nat n"
  by (simp add: generateQueueNumber_parts show_int_def)

lemma length_padStart: "n \<le> length (padStart s n c)"
  by (simp add: padStart_def)

subsection \<open>Waiting time\<close>

lemma wait_duration_waiting:
  "e_status e = WAITING \<Longrightarrow> calculateWaitDurationMinutes e t = max 0 ((t - e_joinedAt e) div 60000)"
  by (simp add: calculateWaitDurationMinutes_def queue_constants)

lemma wait_duration_terminal:
  "e_status e \<noteq> WAITING \<Longrightarrow> calculateWaitDurationMinutes e t = calculateWaitDurationMinutes e t'"
  by (simp add: calculateWaitDurationMinutes_def)

lemma wait_duration_mono:
  "t \<le> t' \<Longrightarrow> calculateWaitDurationMinutes e t \<le> calculateWaitDurationMinutes e t'"
  by (auto simp: calculateWaitDurationMinutes_def queue_constants Let_def intro!: max.mono zdiv_mono1)

end
