(* ===== verification/Effects.thy ===== *)
theory Effects
  imports Prelude
begin

text \<open>
  Asynchronous methods as effects: a function from a state to a result and the state it leaves,
  where the result is a rejection (\<open>Inl\<close>) or a value (\<open>Inr\<close>). The state is kept when a method
  rejects, as the writes a method made before it threw are. \<open>wp\<close> states what holds after an effect
  on both of its outcomes, \<open>stays\<close> that an effect relates the states before and after it; the
  locale \<open>effect_order\<close> carries the composition rules of \<open>stays\<close> for any preorder on states.
\<close>

type_synonym ('w, 'e, 'a) eff = "'w \<Rightarrow> ('e + 'a) \<times> 'w"

definition retE :: "'a \<Rightarrow> ('w, 'e, 'a) eff" where
  "retE x w = (Inr x, w)"

definition throwE :: "'e \<Rightarrow> ('w, 'e, 'a) eff" where
  "throwE e w = (Inl e, w)"

definition bindE :: "('w, 'e, 'a) eff \<Rightarrow> ('a \<Rightarrow> ('w, 'e, 'b) eff) \<Rightarrow> ('w, 'e, 'b) eff" where
  "bindE m f w = (case m w of (Inl e, w') \<Rightarrow> (Inl e, w') | (Inr x, w') \<Rightarrow> f x w')"

text \<open>\<open>try { m } catch (error) { h(error) }\<close>\<close>

definition catchE :: "('w, 'e, 'a) eff \<Rightarrow> ('e \<Rightarrow> ('w, 'e, 'a) eff) \<Rightarrow> ('w, 'e, 'a) eff" where
  "catchE m h w = (case m w of (Inl e, w') \<Rightarrow> h e w' | (Inr x, w') \<Rightarrow> (Inr x, w'))"

text \<open>A value that is either there or an error to throw.\<close>

definition liftE :: "('d \<Rightarrow> 'e) \<Rightarrow> 'd + 'a \<Rightarrow> ('w, 'e, 'a) eff" where
  "liftE c r = (case r of Inl d \<Rightarrow> throwE (c d) | Inr x \<Rightarrow> retE x)"

text \<open>A loop over a list, in order, collecting the results.\<close>

fun mapE :: "('x \<Rightarrow> ('w, 'e, 'a) eff) \<Rightarrow> 'x list \<Rightarrow> ('w, 'e, 'a list) eff" where
  "mapE f [] = retE []"
| "mapE f (x # xs) = bindE (f x) (\<lambda>y. bindE (mapE f xs) (\<lambda>ys. retE (y # ys)))"

subsection \<open>Laws of sequencing\<close>

lemma bindE_throwE: "bindE (throwE e) f = throwE e"
  by (simp add: fun_eq_iff bindE_def throwE_def)

lemma bindE_retE: "bindE (retE x) f = f x"
  by (simp add: fun_eq_iff bindE_def retE_def)

lemma bindE_if: "bindE (if b then m else n) f = (if b then bindE m f else bindE n f)"
  by simp

lemma bindE_assoc: "bindE (bindE m f) g = bindE m (\<lambda>x. bindE (f x) g)"
  by (simp add: fun_eq_iff bindE_def split: prod.split sum.split)

subsection \<open>Weakest preconditions\<close>

definition wp :: "('w, 'e, 'a) eff \<Rightarrow> ('a \<Rightarrow> 'w \<Rightarrow> bool) \<Rightarrow> ('e \<Rightarrow> 'w \<Rightarrow> bool) \<Rightarrow> 'w \<Rightarrow> bool" where
  "wp m Q E w = (case m w of (Inl e, w') \<Rightarrow> E e w' | (Inr x, w') \<Rightarrow> Q x w')"

lemma wp_retE [wp_simps]: "wp (retE x) Q E = Q x"
  by (simp add: wp_def retE_def fun_eq_iff)

lemma wp_throwE [wp_simps]: "wp (throwE e) Q E = E e"
  by (simp add: wp_def throwE_def fun_eq_iff)

lemma wp_bindE [wp_simps]: "wp (bindE m f) Q E = wp m (\<lambda>x. wp (f x) Q E) E"
  by (simp add: wp_def bindE_def fun_eq_iff split: prod.splits sum.splits)

lemma wp_catchE [wp_simps]: "wp (catchE m h) Q E = wp m Q (\<lambda>e. wp (h e) Q E)"
  by (simp add: wp_def catchE_def fun_eq_iff split: prod.splits sum.splits)

lemma wp_liftE [wp_simps]:
  "wp (liftE c r) Q E = (case r of Inl d \<Rightarrow> E (c d) | Inr x \<Rightarrow> Q x)"
  by (simp add: liftE_def wp_retE wp_throwE split: sum.splits)

lemma wp_if [wp_simps]: "wp (if b then m else n) Q E = (if b then wp m Q E else wp n Q E)"
  by simp

lemma wp_mono:
  "wp m Q E w \<Longrightarrow> (\<And>x w'. Q x w' \<Longrightarrow> Q' x w') \<Longrightarrow> (\<And>e w'. E e w' \<Longrightarrow> E' e w') \<Longrightarrow> wp m Q' E' w"
  by (simp add: wp_def split: prod.splits sum.splits)

lemma wp_conj:
  "wp m Q E w \<Longrightarrow> wp m Q' E' w \<Longrightarrow> wp m (\<lambda>x w'. Q x w' \<and> Q' x w') (\<lambda>e w'. E e w' \<and> E' e w') w"
  by (simp add: wp_def split: prod.splits sum.splits)

lemma wp_true [simp]: "wp m (\<lambda>_ _. True) (\<lambda>_ _. True) w"
  by (simp add: wp_def split: prod.splits sum.splits)

text \<open>A specification and a run give the result's property.\<close>

lemma wp_Inr: "wp m Q E w \<Longrightarrow> m w = (Inr x, w') \<Longrightarrow> Q x w'"
  by (simp add: wp_def)

lemma wp_Inl: "wp m Q E w \<Longrightarrow> m w = (Inl e, w') \<Longrightarrow> E e w'"
  by (simp add: wp_def)

lemma wp_snd: "wp m (\<lambda>_. P) (\<lambda>_. P) w \<longleftrightarrow> P (snd (m w))"
  by (simp add: wp_def split: prod.splits sum.splits)

lemma wp_fst_snd:
  "wp m Q E w \<longleftrightarrow> (case fst (m w) of Inl e \<Rightarrow> E e (snd (m w)) | Inr x \<Rightarrow> Q x (snd (m w)))"
  by (simp add: wp_def split: prod.splits sum.splits)

text \<open>Runs that return, step by step.\<close>

lemma bindE_Inr:
  "bindE m f w = (Inr y, w'') \<longleftrightarrow> (\<exists>x w'. m w = (Inr x, w') \<and> f x w' = (Inr y, w''))"
  by (auto simp: bindE_def split: prod.splits sum.splits)

lemma bindE_run: "m w = (Inr x, w') \<Longrightarrow> bindE m f w = f x w'"
  by (simp add: bindE_def)

lemma bindE_fail: "m w = (Inl e, w') \<Longrightarrow> bindE m f w = (Inl e, w')"
  by (simp add: bindE_def)

lemma liftE_Inr [simp]: "liftE c (Inr x) = retE x"
  by (simp add: liftE_def)

lemma liftE_Inl [simp]: "liftE c (Inl d) = throwE (c d)"
  by (simp add: liftE_def)

text \<open>A loop invariant rule for \<open>mapE\<close>: \<open>I\<close> relates the results so far, the items left and the state.\<close>

lemma wp_mapE:
  assumes step: "\<And>ys x xs w. I ys (x # xs) w \<Longrightarrow> wp (f x) (\<lambda>y. I (ys @ [y]) xs) E w"
    and start: "I zs xs0 w0"
    and finish: "\<And>ys w. I (zs @ ys) [] w \<Longrightarrow> Q ys w"
  shows "wp (mapE f xs0) Q E w0"
  using start finish
proof (induction xs0 arbitrary: zs Q w0)
  case Nil
  then show ?case using Nil.prems(2) [of "[]"] by (simp add: wp_simps)
next
  case (Cons x xs)
  have "wp (f x) (\<lambda>y. wp (mapE f xs) (\<lambda>ys. Q (y # ys)) E) E w0"
  proof (rule wp_mono [OF step [OF Cons.prems(1)]])
    fix y w'
    assume "I (zs @ [y]) xs w'"
    then show "wp (mapE f xs) (\<lambda>ys. Q (y # ys)) E w'"
      by (rule Cons.IH) (use Cons.prems(2) in simp)
  qed
  then show ?case by (simp add: wp_simps)
qed

subsection \<open>Effects that stay in a relation\<close>

definition stays :: "('w \<Rightarrow> 'w \<Rightarrow> bool) \<Rightarrow> ('w, 'e, 'a) eff \<Rightarrow> bool" where
  "stays R m \<longleftrightarrow> (\<forall>w. R w (snd (m w)))"

lemma staysD: "stays R m \<Longrightarrow> R w (snd (m w))"
  by (simp add: stays_def)

lemma stays_wp: "stays R m \<longleftrightarrow> (\<forall>w. wp m (\<lambda>_. R w) (\<lambda>_. R w) w)"
  by (simp add: stays_def wp_snd)

lemma stays_mono: "stays R m \<Longrightarrow> (\<And>u v. R u v \<Longrightarrow> S u v) \<Longrightarrow> stays S m"
  by (simp add: stays_def)

text \<open>From a relation on states to a specification: the rule for a call whose details do not matter.\<close>

lemma wp_stays:
  assumes "stays R m" and "\<And>x w'. R w w' \<Longrightarrow> Q x w'" and "\<And>e w'. R w w' \<Longrightarrow> E e w'"
  shows "wp m Q E w"
  using assms by (cases "m w"; cases "fst (m w)") (auto simp: wp_def stays_def dest: spec [of _ w])

locale effect_order =
  fixes R :: "'w \<Rightarrow> 'w \<Rightarrow> bool"
  assumes R_refl: "R w w"
    and R_trans: "R u v \<Longrightarrow> R v w \<Longrightarrow> R u w"
begin

lemma stays_retE [simp, intro]: "stays R (retE x)"
  by (simp add: stays_def retE_def R_refl)

lemma stays_throwE [simp, intro]: "stays R (throwE e)"
  by (simp add: stays_def throwE_def R_refl)

lemma stays_liftE [simp, intro]: "stays R (liftE c r)"
  by (cases r) simp_all

lemma stays_bindE [intro]:
  assumes "stays R m" and "\<And>x. stays R (f x)"
  shows "stays R (bindE m f)"
proof -
  have "R w (snd (bindE m f w))" for w
    using assms(1) [unfolded stays_def, rule_format, of w] assms(2) [unfolded stays_def]
    by (auto simp: bindE_def R_refl intro: R_trans split: prod.splits sum.splits)
  then show ?thesis by (simp add: stays_def)
qed

lemma stays_catchE [intro]:
  assumes "stays R m" and "\<And>e. stays R (h e)"
  shows "stays R (catchE m h)"
proof -
  have "R w (snd (catchE m h w))" for w
    using assms(1) [unfolded stays_def, rule_format, of w] assms(2) [unfolded stays_def]
    by (auto simp: catchE_def R_refl intro: R_trans split: prod.splits sum.splits)
  then show ?thesis by (simp add: stays_def)
qed

lemma stays_if [intro]: "stays R m \<Longrightarrow> stays R n \<Longrightarrow> stays R (if b then m else n)"
  by simp

lemma stays_case_option [intro]:
  "stays R m \<Longrightarrow> (\<And>x. stays R (f x)) \<Longrightarrow> stays R (case v of None \<Rightarrow> m | Some x \<Rightarrow> f x)"
  by (cases v) simp_all

lemma stays_mapE [intro]: "(\<And>x. stays R (f x)) \<Longrightarrow> stays R (mapE f xs)"
  by (induction xs) (simp_all add: stays_bindE)

lemmas stays_rules = stays_retE stays_throwE stays_liftE stays_bindE stays_catchE
  stays_if stays_case_option stays_mapE

end

text \<open>Keeping a predicate is a preorder, so every rule above is also an invariant rule.\<close>

interpretation keeps: effect_order "\<lambda>w w'. I w \<longrightarrow> I w'" for I :: "'w \<Rightarrow> bool"
  by unfold_locales auto

end
