(* ===== verification/World.thy ===== *)
theory World
  imports Lifecycle Effects
begin

text \<open>
  The state the service acts on and the environment it runs in.

  The state is the three tables of \<open>prisma/schema.prisma\<close>, the live-entry keys in Redis, and logs
  of what the service sent: WebSocket emissions, BullMQ jobs, RabbitMQ training events and the
  table requests made to the restaurant service. The environment is everything the code under
  \<open>src\<close> does not decide: the clock, random UUIDs, the local time zone, the answers of the HTTP
  services, the decisions of the circuit breaker and the failures of every external call. Each
  external interaction consumes one tick, and the environment is a function of the tick, so a
  statement over all environments covers every pattern of answers, failures and clock readings.
\<close>

subsection \<open>Tables\<close>

record entry_row =
  r_id :: uuid
  r_restaurantId :: uuid
  r_userId :: "uuid option"
  r_guestName :: string
  r_phone :: string
  r_queueNumber :: string
  r_partySize :: int
  r_specialNotes :: "string option"
  r_registrationType :: registration_type
  r_position :: "int option"
  r_estimatedWaitMinutes :: "int option"
  r_estimatedWaitMinutesAtJoin :: "int option"
  r_status :: queue_status
  r_ringCount :: int
  r_lastRingedAt :: "millis option"
  r_fid :: "string option"
  r_joinedAt :: millis
  r_seatedAt :: "millis option"
  r_cancelledAt :: "millis option"
  r_createdAt :: millis
  r_updatedAt :: millis

record history_row =
  h_queueEntryId :: uuid
  h_previousStatus :: "queue_status option"
  h_currentStatus :: queue_status
  h_changedBy :: "string option"
  h_reason :: "string option"
  h_notes :: "string option"
  h_changedAt :: millis

record database =
  entries :: "entry_row list"
  assigns :: "table_assignment list"
  history :: "history_row list"

subsection \<open>Messages\<close>

record live_entry =
  l_queueEntryId :: uuid
  l_restaurantId :: uuid
  l_position :: int
  l_currentEta :: int
  l_updatedAt :: millis

record created_entry =
  w_id :: uuid
  w_guestName :: string
  w_guestPhone :: string
  w_partySize :: int
  w_specialNotes :: "string option"
  w_registrationType :: registration_type
  w_position :: "int option"
  w_estimatedWaitMinutes :: "int option"
  w_status :: queue_status
  w_joinedAt :: millis

datatype ws_payload =
    P_created uuid created_entry
  | P_seated uuid uuid queue_status "uuid list" millis
  | P_skipped uuid uuid queue_status string "int option"
  | P_cancelled uuid uuid queue_status string "string option" millis
  | P_position uuid uuid int int
  | P_positions uuid "(uuid \<times> int \<times> int) list"
  | P_ticket_seated "uuid option" uuid "uuid list" queue_status "millis option"
  | P_called uuid uuid int "millis option" "string option" string

text \<open>The object sent with an emission: its own \<open>event\<close> field and the rest.\<close>

record ws_data =
  d_event :: string
  d_body :: ws_payload

record emission =
  em_rooms :: "string list"
  em_event :: string
  em_data :: ws_data

record push_payload =
  pp_fid :: string
  pp_title :: string
  pp_body :: string
  pp_deepLink :: "string option"
  pp_data :: "(string \<times> string) list"

record push_job =
  j_queue :: string
  j_name :: string
  j_data :: push_payload
  j_attempts :: nat
  j_backoffDelay :: nat

record training_event =
  te_queue_entry_id :: uuid
  te_restaurant_id :: uuid
  te_party_size :: int
  te_joined_at :: millis
  te_seated_at :: millis
  te_total_people_ahead_at_join :: int

record assign_item =
  at_tableId :: uuid
  at_count :: int

record release_item =
  rt_tableId :: uuid
  rt_occupancyToRelease :: int

datatype upstream_call =
    AssignTables uuid "assign_item list"
  | ReleaseTables uuid "release_item list"

subsection \<open>Answers of the HTTP services\<close>

record status_result =
  rs_restaurantId :: uuid
  rs_isBlocked :: bool
  rs_blockReason :: "string option"
  rs_isSubscriptionActive :: bool
  rs_subscriptionPlanCode :: "string option"

record availability_result =
  av_restaurantId :: uuid
  av_isOpen :: bool
  av_acceptsQueue :: bool
  av_isTableAvailable :: bool
  av_availableCount :: int

text \<open>The response envelope; each field may be missing.\<close>

record 'a envelope =
  env_success :: "bool option"
  env_data :: "'a option"
  env_message :: "string option"

text \<open>
  Why an HTTP request failed: an error of axios (the status and the \<open>message\<close> of the response body
  where there is a response, and its own message), or anything else.
\<close>

datatype http_failure = HttpError "nat option" "string option" string | Unexpected string

text \<open>A field of a JSON body as \<open>typeof\<close> and \<open>Number.isFinite\<close> see it.\<close>

datatype json_field = JFinite rat | JInfinite | JOther

text \<open>
  What the circuit breaker does with a call: let it run, refuse it, or give up waiting for it after
  the limit it reports.
\<close>

datatype gate = Pass | Open | TimedOut "int option"

record config =
  cfg_useMock :: bool
  cfg_timeoutMs :: int
  cfg_ticketDeepLinkBaseUrl :: "string option"

record env =
  clock :: "nat \<Rightarrow> millis"
  random_uuid :: "nat \<Rightarrow> uuid"
  local_midnight :: "millis \<Rightarrow> millis"
  db_fault :: "nat \<Rightarrow> js_error option"
  redis_fault :: "nat \<Rightarrow> js_error option"
  socket_up :: "nat \<Rightarrow> bool"
  socket_fault :: "nat \<Rightarrow> js_error option"
  bull_fault :: "nat \<Rightarrow> js_error option"
  mq_fault :: "nat \<Rightarrow> js_error option"
  gate_at :: "nat \<Rightarrow> gate"
  breaker_falls_back :: "nat \<Rightarrow> bool"
  http_status :: "nat \<Rightarrow> uuid \<Rightarrow> http_failure + status_result envelope option"
  http_availability :: "nat \<Rightarrow> uuid \<Rightarrow> int \<Rightarrow> http_failure + availability_result envelope option"
  http_assign :: "nat \<Rightarrow> uuid \<Rightarrow> assign_item list \<Rightarrow> http_failure + unit envelope option"
  http_release :: "nat \<Rightarrow> uuid \<Rightarrow> release_item list \<Rightarrow> http_failure + unit envelope option"
  http_eta :: "nat \<Rightarrow> uuid \<Rightarrow> int \<Rightarrow> int \<Rightarrow> http_failure + json_field option"
  cfg :: config

record world =
  db :: database
  redis :: "string \<rightharpoonup> live_entry \<times> nat"
  outbox :: "emission list"
  jobs :: "push_job list"
  mlqueue :: "training_event list"
  upstream :: "upstream_call list"
  tick :: nat
  ext :: env

type_synonym 'a io = "(world, js_error, 'a) eff"

definition empty_database :: database where
  "empty_database = \<lparr> entries = [], assigns = [], history = [] \<rparr>"

definition start_world :: "env \<Rightarrow> world" where
  "start_world en = \<lparr> db = empty_database, redis = Map.empty, outbox = [], jobs = [], mlqueue = [],
     upstream = [], tick = 0, ext = en \<rparr>"

subsection \<open>External interactions\<close>

text \<open>Read the environment at this tick.\<close>

definition ask :: "(env \<Rightarrow> nat \<Rightarrow> 'a) \<Rightarrow> 'a io" where
  "ask f w = (Inr (f (ext w) (tick w)), w\<lparr> tick := Suc (tick w) \<rparr>)"

definition new_date :: "millis io" where
  "new_date = ask clock"

definition random_id :: "uuid io" where
  "random_id = ask random_uuid"

text \<open>Read the configuration; no external call, so no tick.\<close>

definition ask_cfg :: "(config \<Rightarrow> 'a) \<Rightarrow> 'a io" where
  "ask_cfg f w = (Inr (f (cfg (ext w))), w)"

text \<open>An external call that may reject, then its effect on the state.\<close>

definition attempt :: "(env \<Rightarrow> nat \<Rightarrow> js_error option) \<Rightarrow> (world \<Rightarrow> world) \<Rightarrow> unit io" where
  "attempt fault f w =
     (case fault (ext w) (tick w) of
        Some e \<Rightarrow> (Inl e, w\<lparr> tick := Suc (tick w) \<rparr>)
      | None \<Rightarrow> (Inr (), f (w\<lparr> tick := Suc (tick w) \<rparr>)))"

text \<open>
  A database query or transaction: it may fail for a reason of the database's own, it may be
  rolled back by an error of its body, and otherwise it commits all its writes at once.
\<close>

definition db_run :: "(database \<Rightarrow> js_error + 'a \<times> database) \<Rightarrow> 'a io" where
  "db_run q w =
     (case db_fault (ext w) (tick w) of
        Some e \<Rightarrow> (Inl e, w\<lparr> tick := Suc (tick w) \<rparr>)
      | None \<Rightarrow>
          (case q (db w) of
             Inl e \<Rightarrow> (Inl e, w\<lparr> tick := Suc (tick w) \<rparr>)
           | Inr (x, d) \<Rightarrow> (Inr x, w\<lparr> db := d, tick := Suc (tick w) \<rparr>)))"

text \<open>A query that only reads.\<close>

definition db_read :: "(database \<Rightarrow> 'a) \<Rightarrow> 'a io" where
  "db_read q = db_run (\<lambda>d. Inr (q d, d))"

lemma wp_ask [wp_simps]:
  "wp (ask f) Q E = (\<lambda>w. Q (f (ext w) (tick w)) (w\<lparr> tick := Suc (tick w) \<rparr>))"
  by (simp add: wp_def ask_def fun_eq_iff)

lemma wp_ask_cfg [wp_simps]: "wp (ask_cfg f) Q E = (\<lambda>w. Q (f (cfg (ext w))) w)"
  by (simp add: wp_def ask_cfg_def fun_eq_iff)

lemma wp_attempt [wp_simps]:
  "wp (attempt fault f) Q E = (\<lambda>w.
     (case fault (ext w) (tick w) of
        Some e \<Rightarrow> E e (w\<lparr> tick := Suc (tick w) \<rparr>)
      | None \<Rightarrow> Q () (f (w\<lparr> tick := Suc (tick w) \<rparr>))))"
  by (simp add: wp_def attempt_def fun_eq_iff split: option.splits)

lemma wp_db_run [wp_simps]:
  "wp (db_run q) Q E = (\<lambda>w.
     (case db_fault (ext w) (tick w) of
        Some e \<Rightarrow> E e (w\<lparr> tick := Suc (tick w) \<rparr>)
      | None \<Rightarrow>
          (case q (db w) of
             Inl e \<Rightarrow> E e (w\<lparr> tick := Suc (tick w) \<rparr>)
           | Inr (x, d) \<Rightarrow> Q x (w\<lparr> db := d, tick := Suc (tick w) \<rparr>))))"
  by (simp add: wp_def db_run_def fun_eq_iff split: option.splits sum.splits prod.splits)

lemma db_run_Inr:
  "db_run q w = (Inr x, w') \<longleftrightarrow> db_fault (ext w) (tick w) = None \<and>
     (\<exists>d. q (db w) = Inr (x, d) \<and> w' = w\<lparr> db := d, tick := Suc (tick w) \<rparr>)"
  by (auto simp: db_run_def split: option.splits sum.splits)

text \<open>The rule used most: the database query commits, is rejected, or is rolled back.\<close>

lemma wp_db_runI:
  assumes "\<And>x d w'. q (db w) = Inr (x, d) \<Longrightarrow> db w' = d \<Longrightarrow> Q x w'"
    and "\<And>e w'. db w' = db w \<Longrightarrow> E e w'"
  shows "wp (db_run q) Q E w"
  using assms by (auto simp: wp_db_run split: option.splits sum.splits)

lemma wp_db_readI:
  assumes "\<And>w'. db w' = db w \<Longrightarrow> Q (q (db w)) w'"
    and "\<And>e w'. db w' = db w \<Longrightarrow> E e w'"
  shows "wp (db_read q) Q E w"
  unfolding db_read_def by (rule wp_db_runI) (use assms in auto)

subsection \<open>Effects that leave the database alone\<close>

definition same_db :: "world \<Rightarrow> world \<Rightarrow> bool" where
  "same_db w w' \<longleftrightarrow> db w' = db w"

interpretation same_db: effect_order same_db
  by unfold_locales (auto simp: same_db_def)

lemma ask_same_db [db_rules]: "stays same_db (ask f)"
  by (simp add: stays_def ask_def same_db_def)

lemma ask_cfg_same_db [db_rules]: "stays same_db (ask_cfg f)"
  by (simp add: stays_def ask_cfg_def same_db_def)

lemma new_date_same_db [db_rules]: "stays same_db new_date"
  by (simp add: new_date_def ask_same_db)

lemma random_id_same_db [db_rules]: "stays same_db random_id"
  by (simp add: random_id_def ask_same_db)

lemma attempt_same_db [db_rules]: "(\<And>w. db (f w) = db w) \<Longrightarrow> stays same_db (attempt fault f)"
  by (simp add: stays_def attempt_def same_db_def split: option.splits)

lemma db_read_same_db [db_rules]: "stays same_db (db_read q)"
  by (simp add: stays_def db_read_def db_run_def same_db_def split: option.splits)

text \<open>A call that leaves the database alone, in a specification that only looks at the database.\<close>

lemma wp_same_db:
  assumes "stays same_db m" and "\<And>x w'. db w' = db w \<Longrightarrow> Q x w'" and "\<And>e w'. db w' = db w \<Longrightarrow> E e w'"
  shows "wp m Q E w"
  using assms by (intro wp_stays [OF assms(1)]) (auto simp: same_db_def)

subsection \<open>The environment never changes, and time goes on\<close>

definition same_env :: "world \<Rightarrow> world \<Rightarrow> bool" where
  "same_env w w' \<longleftrightarrow> ext w' = ext w \<and> tick w \<le> tick w'"

interpretation same_env: effect_order same_env
  by unfold_locales (auto simp: same_env_def)

end
