(* ===== verification/BaseRepository.thy ===== *)
theory BaseRepository
  imports World
begin

text \<open>
  The generic repository of \<open>prisma-base.repository.ts\<close>: error translation, the CRUD operations
  and pagination over a table with a mapper. A repository is the record of what its constructor
  gets (the Prisma delegate as access to one table, the mapper, the class-level error map). The
  locale \<open>table_repository\<close> states what a repository needs of its table and mapper and proves that
  what was stored is found again.
\<close>

subsection \<open>Error translation\<close>

text \<open>A factory of the error map returns the translated error, or throws itself (\<open>Inl\<close>).\<close>

type_synonym error_map = "string \<rightharpoonup> (js_error \<Rightarrow> js_error + js_error)"

definition PERSISTENCE_CODE :: string where
  "PERSISTENCE_CODE = ''PERSISTENCE_ERROR''"

definition translateError :: "error_map \<Rightarrow> error_map \<Rightarrow> js_error \<Rightarrow> js_error" where
  "translateError methodErrorMap errorMap error =
     (case error of
        DomainError _ \<Rightarrow> error
      | PersistenceError _ _ _ \<Rightarrow> error
      | TypeError _ \<Rightarrow> error
      | ReferenceError _ \<Rightarrow> error
      | RangeError _ \<Rightarrow> error
      | PrismaKnownRequestError code message \<Rightarrow>
          (case (case methodErrorMap code of Some f \<Rightarrow> Some f | None \<Rightarrow> errorMap code) of
             Some factory \<Rightarrow>
               (case factory error of
                  Inr e \<Rightarrow> e
                | Inl factoryError \<Rightarrow>
                    PersistenceError ''Failed to map database error'' (Some factoryError) PERSISTENCE_CODE)
           | None \<Rightarrow>
               PersistenceError (or_else (Some message) ''Database operation failed'') (Some error)
                 (''PRISMA_'' @ code))
      | PrismaInitializationError _ \<Rightarrow>
          PersistenceError ''Database connection initialization failed'' (Some error) PERSISTENCE_CODE
      | _ \<Rightarrow>
          PersistenceError (nullish (js_message error) ''Database operation failed'') (Some error)
            PERSISTENCE_CODE)"

text \<open>The errors a repository lets out when its error maps are empty.\<close>

definition safe_error :: "js_error \<Rightarrow> bool" where
  "safe_error e = (case e of
       DomainError _ \<Rightarrow> True
     | PersistenceError _ _ _ \<Rightarrow> True
     | TypeError _ \<Rightarrow> True
     | ReferenceError _ \<Rightarrow> True
     | RangeError _ \<Rightarrow> True
     | _ \<Rightarrow> False)"

lemma translateError_safe [simp]: "safe_error (translateError Map.empty Map.empty e)"
  by (cases e) (simp_all add: translateError_def safe_error_def)

lemma translateError_fixes_safe [simp]: "safe_error e \<Longrightarrow> translateError m c e = e"
  by (cases e) (simp_all add: translateError_def safe_error_def)

lemma translateError_domain: "translateError m c (DomainError d) = DomainError d"
  by (simp add: translateError_def)

text \<open>The method \<open>run\<close>, with the method-level and the class-level error map.\<close>

definition run_with :: "error_map \<Rightarrow> error_map \<Rightarrow> 'a io \<Rightarrow> 'a io" where
  "run_with methodErrorMap errorMap operation =
     catchE operation (\<lambda>error. throwE (translateError methodErrorMap errorMap error))"

lemma wp_run_with [wp_simps]:
  "wp (run_with m c op) Q E = wp op Q (\<lambda>e. E (translateError m c e))"
  by (simp add: run_with_def wp_simps)

lemma run_with_same_db [db_rules]: "stays same_db op \<Longrightarrow> stays same_db (run_with m c op)"
  unfolding run_with_def by (intro same_db.stays_catchE same_db.stays_throwE)

subsection \<open>The repository\<close>

text \<open>
  \<open>get_table\<close>, \<open>set_table\<close> and \<open>row_key\<close> are the delegate, \<open>on_delete\<close> the cascade of the table's
  foreign keys, \<open>touch\<close> the \<open>@updatedAt\<close> column Prisma sets when the data does not, and
  \<open>keep_created\<close> a stored row overwritten by all fields of another but its id and \<open>createdAt\<close>.
\<close>

record ('d, 'r) repository =
  get_table :: "database \<Rightarrow> 'r list"
  set_table :: "'r list \<Rightarrow> database \<Rightarrow> database"
  row_key :: "'r \<Rightarrow> uuid"
  on_delete :: "uuid \<Rightarrow> database \<Rightarrow> database"
  touch :: "millis \<Rightarrow> 'r \<Rightarrow> 'r"
  keep_created :: "'r \<Rightarrow> 'r \<Rightarrow> 'r"
  entity_key :: "'d \<Rightarrow> uuid"
  to_domain :: "'r \<Rightarrow> 'd"
  to_persistence :: "'d \<Rightarrow> 'r"
  class_error_map :: error_map

definition run :: "('d, 'r) repository \<Rightarrow> 'a io \<Rightarrow> 'a io" where
  "run R operation = run_with Map.empty (class_error_map R) operation"

definition P2002 :: js_error where
  "P2002 = PrismaKnownRequestError ''P2002'' ''Unique constraint failed''"

definition P2003 :: js_error where
  "P2003 = PrismaKnownRequestError ''P2003'' ''Foreign key constraint violated''"

definition P2025 :: js_error where
  "P2025 = PrismaKnownRequestError ''P2025'' ''Record to update not found''"

definition find_row :: "('d, 'r) repository \<Rightarrow> uuid \<Rightarrow> database \<Rightarrow> 'r option" where
  "find_row R i d = find (\<lambda>r. row_key R r = i) (get_table R d)"

definition insert_row :: "('d, 'r) repository \<Rightarrow> 'r \<Rightarrow> database \<Rightarrow> js_error + 'r \<times> database" where
  "insert_row R r d =
     (if list_ex (\<lambda>x. row_key R x = row_key R r) (get_table R d) then Inl P2002
      else Inr (r, set_table R (get_table R d @ [r]) d))"

definition modify_row ::
  "('d, 'r) repository \<Rightarrow> uuid \<Rightarrow> ('r \<Rightarrow> 'r) \<Rightarrow> database \<Rightarrow> js_error + 'r \<times> database" where
  "modify_row R i f d =
     (case find_row R i d of
        None \<Rightarrow> Inl P2025
      | Some r \<Rightarrow>
          Inr (f r, set_table R (update_where (\<lambda>x. row_key R x = i) f (get_table R d)) d))"

definition findById :: "('d, 'r) repository \<Rightarrow> uuid \<Rightarrow> 'd option io" where
  "findById R i =
     bindE (run R (db_read (find_row R i))) (\<lambda>record.
     retE (map_option (to_domain R) record))"

definition create :: "('d, 'r) repository \<Rightarrow> 'd \<Rightarrow> 'd io" where
  "create R entity =
     bindE (run R (db_run (insert_row R (to_persistence R entity)))) (\<lambda>record.
     retE (to_domain R record))"

definition update :: "('d, 'r) repository \<Rightarrow> uuid \<Rightarrow> ('r \<Rightarrow> 'r) \<Rightarrow> 'd io" where
  "update R i data =
     bindE (run R (bindE new_date (\<lambda>t. db_run (modify_row R i (\<lambda>r. data (touch R t r)))))) (\<lambda>record.
     retE (to_domain R record))"

definition delete :: "('d, 'r) repository \<Rightarrow> uuid \<Rightarrow> unit io" where
  "delete R i =
     run R (db_run (\<lambda>d.
       case find_row R i d of
         None \<Rightarrow> Inl P2025
       | Some _ \<Rightarrow> Inr ((), on_delete R i
           (set_table R (filter (\<lambda>r. row_key R r \<noteq> i) (get_table R d)) d))))"

definition save :: "('d, 'r) repository \<Rightarrow> 'd \<Rightarrow> unit io" where
  "save R entity =
     (let data = to_persistence R entity
      in run R (db_run (\<lambda>d.
           case find_row R (entity_key R entity) d of
             None \<Rightarrow> map_sum (\<lambda>e. e) (\<lambda>(_, d'). ((), d')) (insert_row R data d)
           | Some _ \<Rightarrow> map_sum (\<lambda>e. e) (\<lambda>(_, d'). ((), d'))
               (modify_row R (entity_key R entity) (\<lambda>old. keep_created R old data) d))))"

definition MAX_PAGE_SIZE :: int where
  "MAX_PAGE_SIZE = 100"

definition page_take :: "int \<Rightarrow> int" where
  "page_take limit = min (max limit 1) MAX_PAGE_SIZE"

definition page_skip :: "int \<Rightarrow> int \<Rightarrow> int" where
  "page_skip page limit = (max page 1 - 1) * page_take limit"

definition page_rows :: "int \<Rightarrow> int \<Rightarrow> 'r list \<Rightarrow> 'r list" where
  "page_rows page limit rows = take (nat (page_take limit)) (drop (nat (page_skip page limit)) rows)"

text \<open>The two queries of \<open>findPaginated\<close> run one after the other; the result pairs items and total.\<close>

definition findPaginated ::
  "('d, 'r) repository \<Rightarrow> ('r \<Rightarrow> bool) \<Rightarrow> ('r \<Rightarrow> 'k::linorder) \<Rightarrow> int \<Rightarrow> int \<Rightarrow> ('d list \<times> nat) io" where
  "findPaginated R cond orderBy page limit =
     bindE (run R
       (bindE (db_read (\<lambda>d. page_rows page limit (sort_key orderBy (filter cond (get_table R d))))) (\<lambda>records.
        bindE (db_read (\<lambda>d. length (filter cond (get_table R d)))) (\<lambda>n.
        retE (records, n))))) (\<lambda>(records, n).
     retE (map (to_domain R) records, n))"

definition findOne :: "('d, 'r) repository \<Rightarrow> ('r \<Rightarrow> bool) \<Rightarrow> 'd option io" where
  "findOne R cond =
     bindE (run R (db_read (\<lambda>d. find cond (get_table R d)))) (\<lambda>record.
     retE (map_option (to_domain R) record))"

lemma wp_run [wp_simps]: "wp (run R op) Q E = wp op Q (\<lambda>e. E (translateError Map.empty (class_error_map R) e))"
  by (simp add: run_def wp_simps)

lemma run_same_db [db_rules]: "stays same_db op \<Longrightarrow> stays same_db (run R op)"
  by (simp add: run_def run_with_same_db)

lemma findById_same_db [db_rules]: "stays same_db (findById R i)"
  unfolding findById_def by (intro same_db.stays_bindE same_db.stays_retE db_rules)

lemma run_Inr: "run R op w = (Inr x, w') \<longleftrightarrow> op w = (Inr x, w')"
  by (auto simp: run_def run_with_def catchE_def throwE_def split: prod.splits sum.splits)

lemma findById_run:
  "db_fault (ext w) (tick w) = None \<Longrightarrow>
   findById R i w = (Inr (map_option (to_domain R) (find_row R i (db w))), w\<lparr> tick := Suc (tick w) \<rparr>)"
  by (simp add: findById_def bindE_def run_def run_with_def catchE_def db_read_def db_run_def retE_def)

subsection \<open>Pagination\<close>

lemma page_take_bounds: "1 \<le> page_take limit \<and> page_take limit \<le> 100"
  by (auto simp: page_take_def MAX_PAGE_SIZE_def)

lemma page_rows_length: "length (page_rows page limit rows) \<le> 100"
  using page_take_bounds [of limit] by (simp add: page_rows_def min_le_iff_disj) linarith

lemma page_rows_Suc:
  "page_rows (1 + int k) limit rows = take (nat (page_take limit)) (drop (k * nat (page_take limit)) rows)"
  using page_take_bounds [of limit] by (simp add: page_rows_def page_skip_def nat_mult_distrib)

text \<open>The first \<open>k\<close> pages, one after the other, are the beginning of the ordered rows.\<close>

lemma pages_concat:
  "concat (map (\<lambda>p. page_rows (int (Suc p)) limit rows) [0..<k]) = take (k * nat (page_take limit)) rows"
proof (induction k)
  case 0
  then show ?case by simp
next
  case (Suc k)
  let ?n = "nat (page_take limit)"
  have "take (k * ?n) rows @ take ?n (drop (k * ?n) rows) = take (k * ?n + ?n) rows"
    by (simp add: take_add)
  with Suc show ?case by (simp only: upt_Suc_append map_append concat_append) (simp add: page_rows_Suc add.commute)
qed

subsection \<open>What was stored is found again\<close>

locale table_repository =
  fixes R :: "('d, 'r) repository"
  assumes get_set: "get_table R (set_table R rows d) = rows"
    and mapped: "to_domain R (to_persistence R e) = e"
    and key_mapped: "row_key R (to_persistence R e) = entity_key R e"
    and key_kept: "row_key R (keep_created R old new) = row_key R old"
begin

lemma find_inserted:
  "insert_row R r d = Inr (r', d') \<Longrightarrow> r' = r \<and> find_row R (row_key R r) d' = Some r"
  by (auto simp: insert_row_def find_row_def get_set find_append list_ex_iff
      split: if_splits option.splits dest!: find_Some_D)

lemma find_modified:
  assumes "modify_row R i f d = Inr (r', d')" and "\<And>x. row_key R (f x) = row_key R x"
  shows "find_row R i d' = Some r'"
proof -
  obtain r where r: "find_row R i d = Some r" and "r' = f r"
    and d': "d' = set_table R (update_where (\<lambda>x. row_key R x = i) f (get_table R d)) d"
    using assms(1) by (auto simp: modify_row_def split: option.splits)
  have "find (\<lambda>x. row_key R x = i) (update_where (\<lambda>x. row_key R x = i) f rows) =
      map_option f (find (\<lambda>x. row_key R x = i) rows)" for rows
    using assms(2) by (induction rows) auto
  with r d' \<open>r' = f r\<close> show ?thesis by (simp add: find_row_def get_set)
qed

text \<open>A created entity is what \<open>findById\<close> reads afterwards.\<close>

lemma findById_created:
  assumes "create R e w = (Inr e', w')" and "db_fault (ext w') (tick w') = None"
  shows "e' = e \<and> fst (findById R (entity_key R e) w') = Inr (Some e)"
proof -
  let ?r = "to_persistence R e"
  from assms(1) obtain r d where ins: "insert_row R ?r (db w) = Inr (r, d)"
    and w': "w' = w\<lparr> db := d, tick := Suc (tick w) \<rparr>" and e': "e' = to_domain R r"
    by (auto simp: create_def bindE_Inr run_Inr db_run_Inr retE_def)
  from find_inserted [OF ins] have "r = ?r" and "find_row R (row_key R ?r) d = Some ?r" by auto
  with e' w' assms(2) show ?thesis
    by (simp add: findById_run key_mapped mapped)
qed

text \<open>An entity saved over an existing row is found again, up to the fields the upsert keeps.\<close>

lemma findById_saved:
  assumes "save R e w = (Inr (), w')" and "find_row R (entity_key R e) (db w) = Some old"
    and "db_fault (ext w') (tick w') = None"
  shows "fst (findById R (entity_key R e) w') =
    Inr (Some (to_domain R (keep_created R old (to_persistence R e))))"
proof -
  let ?f = "\<lambda>x. keep_created R x (to_persistence R e)"
  from assms(1,2) obtain r d where upd: "modify_row R (entity_key R e) ?f (db w) = Inr (r, d)"
    and w': "w' = w\<lparr> db := d, tick := Suc (tick w) \<rparr>"
    by (auto simp: save_def run_Inr db_run_Inr modify_row_def Let_def)
  from upd assms(2) have "r = ?f old" by (simp add: modify_row_def)
  moreover have "find_row R (entity_key R e) d = Some r"
    by (rule find_modified [OF upd]) (rule key_kept)
  ultimately show ?thesis using w' assms(3) by (simp add: findById_run)
qed

end

end
