(* ===== verification/QueueRepository.thy ===== *)
theory QueueRepository
  imports BaseRepository
begin

text \<open>
  \<open>PrismaQueueRepository\<close> (\<open>prisma-queue.repository.ts\<close>) with the \<open>QueueEntryMapper\<close>: the queries
  over the three tables and the transactions that write an entry together with its audit history.
  The list order of a table stands for the order in which the database returns rows that no
  \<open>orderBy\<close> tells apart. Values Prisma fills in itself (random row ids, \<open>now()\<close> defaults and the
  \<open>@updatedAt\<close> column) are read from the environment before the transaction. The surrogate ids of
  history rows, which the service never reads, are left out.
\<close>

subsection \<open>The mapper\<close>

definition toDomain :: "entry_row \<Rightarrow> queue_entry" where
  "toDomain raw =
     \<lparr> e_id = r_id raw, e_restaurantId = r_restaurantId raw, e_userId = r_userId raw,
       e_guestName = r_guestName raw, e_phone = r_phone raw, e_queueNumber = r_queueNumber raw,
       e_partySize = r_partySize raw, e_specialNotes = r_specialNotes raw,
       e_registrationType = r_registrationType raw, e_position = r_position raw,
       e_estimatedWaitMinutes = r_estimatedWaitMinutes raw,
       e_estimatedWaitMinutesAtJoin = r_estimatedWaitMinutesAtJoin raw,
       e_status = r_status raw, e_ringCount = r_ringCount raw,
       e_lastRingedAt = r_lastRingedAt raw, e_fid = r_fid raw, e_joinedAt = r_joinedAt raw,
       e_seatedAt = r_seatedAt raw, e_cancelledAt = r_cancelledAt raw,
       e_createdAt = r_createdAt raw, e_updatedAt = r_updatedAt raw \<rparr>"

definition toPersistence :: "queue_entry \<Rightarrow> entry_row" where
  "toPersistence entity =
     \<lparr> r_id = e_id entity, r_restaurantId = e_restaurantId entity, r_userId = e_userId entity,
       r_guestName = e_guestName entity, r_phone = e_phone entity,
       r_queueNumber = e_queueNumber entity, r_partySize = e_partySize entity,
       r_specialNotes = e_specialNotes entity, r_registrationType = e_registrationType entity,
       r_position = e_position entity, r_estimatedWaitMinutes = e_estimatedWaitMinutes entity,
       r_estimatedWaitMinutesAtJoin = e_estimatedWaitMinutesAtJoin entity,
       r_status = e_status entity, r_ringCount = e_ringCount entity,
       r_lastRingedAt = e_lastRingedAt entity, r_fid = e_fid entity, r_joinedAt = e_joinedAt entity,
       r_seatedAt = e_seatedAt entity, r_cancelledAt = e_cancelledAt entity,
       r_createdAt = e_createdAt entity, r_updatedAt = e_updatedAt entity \<rparr>"

lemma toDomain_toPersistence [simp]: "toDomain (toPersistence e) = e"
  by (simp add: toDomain_def toPersistence_def)

lemma toPersistence_toDomain [simp]: "toPersistence (toDomain r) = r"
  by (simp add: toDomain_def toPersistence_def)

lemma toDomain_fields [simp]:
  "e_id (toDomain r) = r_id r" "e_restaurantId (toDomain r) = r_restaurantId r"
  "e_userId (toDomain r) = r_userId r" "e_guestName (toDomain r) = r_guestName r"
  "e_phone (toDomain r) = r_phone r" "e_queueNumber (toDomain r) = r_queueNumber r"
  "e_partySize (toDomain r) = r_partySize r" "e_specialNotes (toDomain r) = r_specialNotes r"
  "e_registrationType (toDomain r) = r_registrationType r" "e_position (toDomain r) = r_position r"
  "e_estimatedWaitMinutes (toDomain r) = r_estimatedWaitMinutes r"
  "e_estimatedWaitMinutesAtJoin (toDomain r) = r_estimatedWaitMinutesAtJoin r"
  "e_status (toDomain r) = r_status r" "e_ringCount (toDomain r) = r_ringCount r"
  "e_lastRingedAt (toDomain r) = r_lastRingedAt r" "e_fid (toDomain r) = r_fid r"
  "e_joinedAt (toDomain r) = r_joinedAt r" "e_seatedAt (toDomain r) = r_seatedAt r"
  "e_cancelledAt (toDomain r) = r_cancelledAt r" "e_createdAt (toDomain r) = r_createdAt r"
  "e_updatedAt (toDomain r) = r_updatedAt r"
  by (simp_all add: toDomain_def)

lemma toPersistence_fields [simp]:
  "r_id (toPersistence e) = e_id e" "r_restaurantId (toPersistence e) = e_restaurantId e"
  "r_userId (toPersistence e) = e_userId e" "r_guestName (toPersistence e) = e_guestName e"
  "r_phone (toPersistence e) = e_phone e" "r_queueNumber (toPersistence e) = e_queueNumber e"
  "r_partySize (toPersistence e) = e_partySize e" "r_specialNotes (toPersistence e) = e_specialNotes e"
  "r_registrationType (toPersistence e) = e_registrationType e" "r_position (toPersistence e) = e_position e"
  "r_estimatedWaitMinutes (toPersistence e) = e_estimatedWaitMinutes e"
  "r_estimatedWaitMinutesAtJoin (toPersistence e) = e_estimatedWaitMinutesAtJoin e"
  "r_status (toPersistence e) = e_status e" "r_ringCount (toPersistence e) = e_ringCount e"
  "r_lastRingedAt (toPersistence e) = e_lastRingedAt e" "r_fid (toPersistence e) = e_fid e"
  "r_joinedAt (toPersistence e) = e_joinedAt e" "r_seatedAt (toPersistence e) = e_seatedAt e"
  "r_cancelledAt (toPersistence e) = e_cancelledAt e" "r_createdAt (toPersistence e) = e_createdAt e"
  "r_updatedAt (toPersistence e) = e_updatedAt e"
  by (simp_all add: toPersistence_def)

subsection \<open>The repository of queue entries\<close>

definition keep_created_row :: "entry_row \<Rightarrow> entry_row \<Rightarrow> entry_row" where
  "keep_created_row old new = new\<lparr> r_id := r_id old, r_createdAt := r_createdAt old \<rparr>"

text \<open>Deleting an entry cascades to its table assignments and its history (\<open>onDelete: Cascade\<close>).\<close>

definition cascade_delete :: "uuid \<Rightarrow> database \<Rightarrow> database" where
  "cascade_delete i d =
     d\<lparr> assigns := filter (\<lambda>a. ta_queueEntryId a \<noteq> i) (assigns d),
        history := filter (\<lambda>h. h_queueEntryId h \<noteq> i) (history d) \<rparr>"

definition queue_repo :: "(queue_entry, entry_row) repository" where
  "queue_repo =
     \<lparr> get_table = entries, set_table = (\<lambda>rows d. d\<lparr> entries := rows \<rparr>), row_key = r_id,
       on_delete = cascade_delete, touch = (\<lambda>t r. r\<lparr> r_updatedAt := t \<rparr>),
       keep_created = keep_created_row, entity_key = e_id,
       to_domain = toDomain, to_persistence = toPersistence, class_error_map = Map.empty \<rparr>"

lemma queue_repo_simps [simp]:
  "get_table queue_repo = entries" "set_table queue_repo = (\<lambda>rows d. d\<lparr> entries := rows \<rparr>)"
  "row_key queue_repo = r_id" "entity_key queue_repo = e_id"
  "touch queue_repo = (\<lambda>t r. r\<lparr> r_updatedAt := t \<rparr>)" "keep_created queue_repo = keep_created_row"
  "to_domain queue_repo = toDomain" "to_persistence queue_repo = toPersistence"
  "class_error_map queue_repo = Map.empty" "on_delete queue_repo = cascade_delete"
  by (simp_all add: queue_repo_def)

interpretation queue_repo: table_repository queue_repo
  by unfold_locales (simp_all add: keep_created_row_def)

subsection \<open>Orders\<close>

text \<open>PostgreSQL sorts nulls last in ascending order.\<close>

datatype nulls_last = Value int | Null

instantiation nulls_last :: linorder
begin

fun less_eq_nulls_last :: "nulls_last \<Rightarrow> nulls_last \<Rightarrow> bool" where
  "less_eq_nulls_last (Value a) (Value b) = (a \<le> b)"
| "less_eq_nulls_last (Value _) Null = True"
| "less_eq_nulls_last Null (Value _) = False"
| "less_eq_nulls_last Null Null = True"

definition less_nulls_last :: "nulls_last \<Rightarrow> nulls_last \<Rightarrow> bool" where
  "less_nulls_last a b \<longleftrightarrow> a \<le> b \<and> \<not> b \<le> a"

instance
proof
  fix x y z :: nulls_last
  show "(x < y) = (x \<le> y \<and> \<not> y \<le> x)" by (simp add: less_nulls_last_def)
  show "x \<le> x" by (cases x) simp_all
  show "x \<le> y \<Longrightarrow> y \<le> z \<Longrightarrow> x \<le> z" by (cases x; cases y; cases z) simp_all
  show "x \<le> y \<Longrightarrow> y \<le> x \<Longrightarrow> x = y" by (cases x; cases y) simp_all
  show "x \<le> y \<or> y \<le> x" by (cases x; cases y) auto
qed

end

definition nulls_last :: "int option \<Rightarrow> nulls_last" where
  "nulls_last v = (case v of None \<Rightarrow> Null | Some n \<Rightarrow> Value n)"

definition queue_order :: "entry_row \<Rightarrow> nulls_last \<times> millis" where
  "queue_order r = (nulls_last (r_position r), r_joinedAt r)"


subsection \<open>Queries\<close>

abbreviation qrun :: "'a io \<Rightarrow> 'a io" where
  "qrun \<equiv> run queue_repo"

definition waiting_at :: "uuid \<Rightarrow> entry_row \<Rightarrow> bool" where
  "waiting_at restaurantId r \<longleftrightarrow> r_restaurantId r = restaurantId \<and> r_status r = WAITING"

definition active_rows :: "uuid \<Rightarrow> database \<Rightarrow> entry_row list" where
  "active_rows restaurantId d = sort_key queue_order (filter (waiting_at restaurantId) (entries d))"

definition findActiveEntries :: "uuid \<Rightarrow> queue_entry list io" where
  "findActiveEntries restaurantId =
     qrun (bindE (db_read (active_rows restaurantId)) (\<lambda>records.
       retE (map toDomain records)))"

definition count_waiting :: "uuid \<Rightarrow> database \<Rightarrow> int" where
  "count_waiting restaurantId d = int (length (filter (waiting_at restaurantId) (entries d)))"

definition sum_waiting :: "uuid \<Rightarrow> database \<Rightarrow> int" where
  "sum_waiting restaurantId d = sum_list (map r_partySize (filter (waiting_at restaurantId) (entries d)))"

definition countActiveAhead :: "uuid \<Rightarrow> int io" where
  "countActiveAhead restaurantId = qrun (db_read (count_waiting restaurantId))"

definition sumPartySizeActiveAhead :: "uuid \<Rightarrow> int io" where
  "sumPartySizeActiveAhead restaurantId = qrun (db_read (sum_waiting restaurantId))"

definition ahead_at_join :: "uuid \<Rightarrow> millis \<Rightarrow> entry_row \<Rightarrow> bool" where
  "ahead_at_join restaurantId joinedAt r \<longleftrightarrow>
     r_restaurantId r = restaurantId \<and> r_joinedAt r < joinedAt \<and>
     (case r_seatedAt r of None \<Rightarrow> True | Some t \<Rightarrow> t > joinedAt) \<and>
     \<not> (r_status r \<in> {CANCELLED, NO_SHOW, SKIPPED} \<and> r_updatedAt r \<le> joinedAt)"

definition countPeopleAheadAtJoin :: "uuid \<Rightarrow> millis \<Rightarrow> int io" where
  "countPeopleAheadAtJoin restaurantId joinedAt =
     qrun (db_read (\<lambda>d.
       sum_list (map r_partySize (filter (ahead_at_join restaurantId joinedAt) (entries d)))))"

record queue_metrics =
  queueDepth :: int
  totalPeopleAhead :: int

definition getActiveQueueMetrics :: "uuid \<Rightarrow> queue_metrics io" where
  "getActiveQueueMetrics restaurantId =
     qrun (db_read (\<lambda>d.
       \<lparr> queueDepth = count_waiting restaurantId d, totalPeopleAhead = sum_waiting restaurantId d \<rparr>))"

text \<open>\<open>new Date()\<close> set to the local midnight of its day.\<close>

definition start_of_day :: "millis io" where
  "start_of_day = bindE new_date (\<lambda>t. ask (\<lambda>en _. local_midnight en t))"

definition count_since :: "uuid \<Rightarrow> millis \<Rightarrow> database \<Rightarrow> int" where
  "count_since restaurantId startOfDay d =
     int (length (filter (\<lambda>r. r_restaurantId r = restaurantId \<and> startOfDay \<le> r_createdAt r) (entries d)))"

record registration_metrics =
  rm_queueDepth :: int
  rm_totalPeopleAhead :: int
  rm_countToday :: int

definition getRegistrationMetrics :: "uuid \<Rightarrow> registration_metrics io" where
  "getRegistrationMetrics restaurantId =
     bindE start_of_day (\<lambda>startOfDay.
     qrun (db_read (\<lambda>d.
       \<lparr> rm_queueDepth = count_waiting restaurantId d,
         rm_totalPeopleAhead = sum_waiting restaurantId d,
         rm_countToday = count_since restaurantId startOfDay d \<rparr>)))"

definition countToday :: "uuid \<Rightarrow> int io" where
  "countToday restaurantId =
     bindE start_of_day (\<lambda>startOfDay. qrun (db_read (count_since restaurantId startOfDay)))"

definition findActiveByPhone :: "uuid \<Rightarrow> string \<Rightarrow> queue_entry option io" where
  "findActiveByPhone restaurantId phone =
     qrun (bindE (db_read (\<lambda>d. find (\<lambda>r. waiting_at restaurantId r \<and> r_phone r = phone) (entries d)))
       (\<lambda>record. retE (map_option toDomain record)))"

text \<open>The first row in descending order of \<open>joinedAt\<close>.\<close>

definition latest_joined :: "entry_row list \<Rightarrow> entry_row option" where
  "latest_joined rows = (case sort_key (\<lambda>r. - r_joinedAt r) rows of [] \<Rightarrow> None | r # _ \<Rightarrow> Some r)"

definition findActiveByUserId :: "uuid \<Rightarrow> queue_entry option io" where
  "findActiveByUserId userId =
     qrun (bindE (db_read (\<lambda>d.
         latest_joined (filter (\<lambda>r. r_userId r = Some userId \<and> r_status r = WAITING) (entries d))))
       (\<lambda>record. retE (map_option toDomain record)))"

definition findActiveByUserIdAndRestaurantId :: "uuid \<Rightarrow> uuid \<Rightarrow> queue_entry option io" where
  "findActiveByUserIdAndRestaurantId restaurantId userId =
     qrun (bindE (db_read (\<lambda>d.
         latest_joined (filter (\<lambda>r. waiting_at restaurantId r \<and> r_userId r = Some userId) (entries d))))
       (\<lambda>record. retE (map_option toDomain record)))"

definition active_assignments :: "uuid \<Rightarrow> database \<Rightarrow> table_assignment list" where
  "active_assignments queueEntryId d =
     filter (\<lambda>a. ta_queueEntryId a = queueEntryId \<and> ta_releasedAt a = None) (assigns d)"

definition findActiveTableAssignments :: "uuid \<Rightarrow> table_assignment list io" where
  "findActiveTableAssignments queueEntryId = qrun (db_read (active_assignments queueEntryId))"

subsection \<open>Transactions\<close>

definition history_entry ::
  "uuid \<Rightarrow> queue_status option \<Rightarrow> queue_status \<Rightarrow> string option \<Rightarrow> string option \<Rightarrow> string option
     \<Rightarrow> millis \<Rightarrow> history_row" where
  "history_entry i prev st changedBy reason notes t =
     \<lparr> h_queueEntryId = i, h_previousStatus = prev, h_currentStatus = st, h_changedBy = changedBy,
       h_reason = reason, h_notes = notes, h_changedAt = t \<rparr>"

definition add_history :: "history_row \<Rightarrow> database \<Rightarrow> database" where
  "add_history h d = d\<lparr> history := history d @ [h] \<rparr>"

text \<open>
  The transaction that creates an entry first looks for an active one of the user or the phone number,
  then inserts. It is two steps here: at the isolation level the code runs with, another request may
  commit between them.
\<close>

definition tx_checks :: "entry_row \<Rightarrow> database \<Rightarrow> js_error + unit" where
  "tx_checks data d =
     (if truthy (r_userId data) \<and>
         list_ex (\<lambda>r. r_userId r = r_userId data \<and> r_status r = WAITING) (entries d)
      then Inl (DomainError ActiveUserQueueEntryExistsError)
      else if list_ex (\<lambda>r. waiting_at (r_restaurantId data) r \<and> r_phone r = r_phone data) (entries d)
      then Inl (DomainError (ActiveQueueEntryExistsError (r_phone data)))
      else Inr ())"

definition tx_insert ::
  "entry_row \<Rightarrow> string option \<Rightarrow> millis \<Rightarrow> database \<Rightarrow> js_error + entry_row \<times> database" where
  "tx_insert data changedBy t d =
     (case insert_row queue_repo data d of
        Inl e \<Rightarrow> Inl e
      | Inr (created, d1) \<Rightarrow>
          Inr (created, add_history
            (history_entry (r_id created) None (r_status created) changedBy None None t) d1))"

definition create_checks :: "entry_row \<Rightarrow> unit io" where
  "create_checks data = db_run (\<lambda>d. map_sum (\<lambda>e. e) (\<lambda>_. ((), d)) (tx_checks data d))"

definition create_insert :: "entry_row \<Rightarrow> string option \<Rightarrow> queue_entry io" where
  "create_insert data changedBy =
     bindE new_date (\<lambda>t.
     bindE (db_run (tx_insert data changedBy t)) (\<lambda>createdRecord.
     retE (toDomain createdRecord)))"

definition createWithHistory :: "queue_entry \<Rightarrow> string option \<Rightarrow> queue_entry io" where
  "createWithHistory queueEntry changedBy =
     (let persistenceData = toPersistence queueEntry
      in qrun (bindE (create_checks persistenceData) (\<lambda>_. create_insert persistenceData changedBy)))"

text \<open>With nothing in between, the two steps are one transaction.\<close>

definition tx_create ::
  "entry_row \<Rightarrow> string option \<Rightarrow> millis \<Rightarrow> database \<Rightarrow> js_error + entry_row \<times> database" where
  "tx_create data changedBy t d =
     (case tx_checks data d of Inl e \<Rightarrow> Inl e | Inr _ \<Rightarrow> tx_insert data changedBy t d)"

text \<open>The rows of \<open>createMany\<close>: a random id each, and \<open>seatedAt ?? new Date()\<close>.\<close>

definition assignment_rows :: "queue_entry \<Rightarrow> uuid list \<Rightarrow> string \<Rightarrow> table_assignment list io" where
  "assignment_rows queueEntry tableIds assignedBy =
     mapE (\<lambda>tableId.
       bindE random_id (\<lambda>i.
       bindE (case e_seatedAt queueEntry of Some t \<Rightarrow> retE t | None \<Rightarrow> new_date) (\<lambda>assignedAt.
       retE \<lparr> ta_id = i, ta_queueEntryId = e_id queueEntry, ta_tableId = tableId,
              ta_assignedBy = assignedBy, ta_assignedAt = assignedAt, ta_releasedAt = None \<rparr>)))
       tableIds"

definition insert_assignments ::
  "table_assignment list \<Rightarrow> database \<Rightarrow> js_error + database" where
  "insert_assignments rows d =
     (if \<not> distinct (map ta_id (assigns d @ rows)) then Inl P2002
      else if list_ex (\<lambda>a. find_row queue_repo (ta_queueEntryId a) d = None) rows then Inl P2003
      else Inr (d\<lparr> assigns := assigns d @ rows \<rparr>))"

definition tx_assign ::
  "table_assignment list \<Rightarrow> entry_row \<Rightarrow> queue_status \<Rightarrow> string \<Rightarrow> millis \<Rightarrow> database
     \<Rightarrow> js_error + entry_row \<times> database" where
  "tx_assign rows data previousStatus assignedBy t d =
     (case insert_assignments rows d of
        Inl e \<Rightarrow> Inl e
      | Inr d1 \<Rightarrow>
          (case modify_row queue_repo (r_id data) (\<lambda>_. data) d1 of
             Inl e \<Rightarrow> Inl e
           | Inr (updated, d2) \<Rightarrow>
               Inr (updated, add_history
                 (history_entry (r_id data) (Some previousStatus) (r_status data) (Some assignedBy)
                    None None t) d2)))"

definition assignTablesWithHistory ::
  "queue_entry \<Rightarrow> uuid list \<Rightarrow> string \<Rightarrow> queue_status \<Rightarrow> queue_entry io" where
  "assignTablesWithHistory queueEntry tableIds assignedBy previousStatus =
     qrun (bindE (assignment_rows queueEntry tableIds assignedBy) (\<lambda>rows.
       bindE new_date (\<lambda>t.
       bindE (db_run (tx_assign rows (toPersistence queueEntry) previousStatus assignedBy t)) (\<lambda>updated.
       retE (toDomain updated)))))"

record update_status_params =
  us_queueEntry :: queue_entry
  us_previousStatus :: queue_status
  us_changedBy :: string
  us_reason :: "string option"
  us_notes :: "string option"

definition tx_update_status ::
  "update_status_params \<Rightarrow> millis \<Rightarrow> database \<Rightarrow> js_error + entry_row \<times> database" where
  "tx_update_status params t d =
     (let data = toPersistence (us_queueEntry params)
      in (case modify_row queue_repo (r_id data) (\<lambda>_. data) d of
            Inl e \<Rightarrow> Inl e
          | Inr (updated, d1) \<Rightarrow>
              Inr (updated, add_history
                (history_entry (r_id data) (Some (us_previousStatus params)) (r_status data)
                   (Some (us_changedBy params)) (us_reason params) (us_notes params) t) d1)))"

definition updateStatusWithHistory :: "update_status_params \<Rightarrow> queue_entry io" where
  "updateStatusWithHistory params =
     qrun (bindE new_date (\<lambda>t.
       bindE (db_run (tx_update_status params t)) (\<lambda>updated.
       retE (toDomain updated))))"

definition tx_release :: "uuid \<Rightarrow> millis \<Rightarrow> database \<Rightarrow> database" where
  "tx_release queueEntryId t d =
     d\<lparr> assigns := update_where (\<lambda>a. ta_queueEntryId a = queueEntryId \<and> ta_releasedAt a = None)
          (assignment_release t) (assigns d) \<rparr>"

definition releaseTableAssignments :: "uuid \<Rightarrow> unit io" where
  "releaseTableAssignments queueEntryId =
     qrun (bindE new_date (\<lambda>t. db_run (\<lambda>d. Inr ((), tx_release queueEntryId t d))))"

record position_update =
  pu_id :: uuid
  pu_position :: "int option"
  pu_estimatedWaitMinutes :: "int option option"

definition apply_position :: "position_update \<Rightarrow> millis \<Rightarrow> entry_row \<Rightarrow> entry_row" where
  "apply_position u t r =
     (let r1 = r\<lparr> r_position := pu_position u \<rparr>;
          r2 = (case pu_estimatedWaitMinutes u of
                  None \<Rightarrow> r1 | Some eta \<Rightarrow> r1\<lparr> r_estimatedWaitMinutes := eta \<rparr>)
      in r2\<lparr> r_updatedAt := t \<rparr>)"

fun tx_positions :: "(position_update \<times> millis) list \<Rightarrow> database \<Rightarrow> js_error + database" where
  "tx_positions [] d = Inr d"
| "tx_positions ((u, t) # us) d =
     (case modify_row queue_repo (pu_id u) (apply_position u t) d of
        Inl e \<Rightarrow> Inl e
      | Inr (_, d1) \<Rightarrow> tx_positions us d1)"

definition batchUpdatePositions :: "position_update list \<Rightarrow> unit io" where
  "batchUpdatePositions updates =
     (if updates = [] then retE ()
      else qrun (bindE (mapE (\<lambda>u. bindE new_date (\<lambda>t. retE (u, t))) updates) (\<lambda>timed.
        db_run (\<lambda>d. map_sum (\<lambda>e. e) (\<lambda>d'. ((), d')) (tx_positions timed d)))))"

subsection \<open>The staff snapshot\<close>

record snapshot_filters =
  f_status :: "queue_status option"
  f_minPartySize :: "int option"
  f_maxPartySize :: "int option"

record snapshot_item =
  si_entry :: queue_entry
  si_assignedTableId :: "uuid option"

record snapshot_result =
  sr_totalWaiting :: int
  sr_entries :: "snapshot_item list"

definition snapshot_match :: "uuid \<Rightarrow> snapshot_filters \<Rightarrow> entry_row \<Rightarrow> bool" where
  "snapshot_match restaurantId filters r \<longleftrightarrow>
     r_restaurantId r = restaurantId \<and>
     (case f_status filters of None \<Rightarrow> True | Some st \<Rightarrow> r_status r = st) \<and>
     (case f_minPartySize filters of None \<Rightarrow> True | Some lo \<Rightarrow> lo \<le> r_partySize r) \<and>
     (case f_maxPartySize filters of None \<Rightarrow> True | Some hi \<Rightarrow> r_partySize r \<le> hi)"

definition snapshot_rows :: "uuid \<Rightarrow> snapshot_filters \<Rightarrow> database \<Rightarrow> entry_row list" where
  "snapshot_rows restaurantId filters d =
     sort_key (\<lambda>r. (r_joinedAt r, r_id r)) (filter (snapshot_match restaurantId filters) (entries d))"

text \<open>The latest active assignment of an entry (\<open>orderBy assignedAt desc, take 1\<close>).\<close>

definition latest_table :: "uuid \<Rightarrow> database \<Rightarrow> uuid option" where
  "latest_table i d =
     (case sort_key (\<lambda>a. - ta_assignedAt a) (active_assignments i d) of
        [] \<Rightarrow> None | a # _ \<Rightarrow> Some (ta_tableId a))"

definition getStaffQueueSnapshot :: "uuid \<Rightarrow> snapshot_filters \<Rightarrow> snapshot_result io" where
  "getStaffQueueSnapshot restaurantId filters =
     qrun (db_read (\<lambda>d.
       \<lparr> sr_totalWaiting = count_waiting restaurantId d,
         sr_entries = map (\<lambda>record.
           \<lparr> si_entry = toDomain record, si_assignedTableId = latest_table (r_id record) d \<rparr>)
           (snapshot_rows restaurantId filters d) \<rparr>))"

end
