(* ===== verification/DbInvariants.thy ===== *)
theory DbInvariants
  imports QueueRepository
begin

text \<open>
  What the tables agree on, and how they change. \<open>db_inv\<close> is the invariant of the database: unique
  ids, well-formed rows, one active ticket per user and per phone and restaurant, table
  assignments only for seated parties, and an audit history that is a path to each row's status.
  \<open>db_evolves\<close> relates the database before and after: every row evolves along the lifecycle of its
  entity, and the history only grows. The lemmas show that each transaction of the repository keeps
  the invariant and evolves the database, under what its caller guarantees.
\<close>

subsection \<open>The invariant\<close>

definition rows_ok :: "database \<Rightarrow> bool" where
  "rows_ok d \<longleftrightarrow> distinct (map r_id (entries d)) \<and> (\<forall>r \<in> set (entries d). entry_ok (toDomain r))"

definition conflicting :: "entry_row \<Rightarrow> entry_row \<Rightarrow> bool" where
  "conflicting r s \<longleftrightarrow>
     (truthy (r_userId r) \<and> r_userId r = r_userId s) \<or>
     (r_restaurantId r = r_restaurantId s \<and> r_phone r = r_phone s)"

lemma conflicting_sym: "conflicting r s \<Longrightarrow> conflicting s r"
  by (auto simp: conflicting_def)

definition active_unique :: "database \<Rightarrow> bool" where
  "active_unique d \<longleftrightarrow>
     (\<forall>r \<in> set (entries d). \<forall>s \<in> set (entries d).
        r_status r = WAITING \<and> r_status s = WAITING \<and> conflicting r s \<longrightarrow> r_id r = r_id s)"

definition assigns_ok :: "database \<Rightarrow> bool" where
  "assigns_ok d \<longleftrightarrow> distinct (map ta_id (assigns d)) \<and>
     (\<forall>a \<in> set (assigns d). ta_releasedAt a = None \<and>
        (\<exists>r \<in> set (entries d). r_id r = ta_queueEntryId a \<and> r_status r = SEATED))"

definition history_of :: "uuid \<Rightarrow> database \<Rightarrow> history_row list" where
  "history_of i d = filter (\<lambda>h. h_queueEntryId h = i) (history d)"

text \<open>
  A path of history rows from one status to another; every row starts where the one before
  ended, and nothing leaves a status other than waiting.
\<close>

fun audit_path :: "queue_status option \<Rightarrow> history_row list \<Rightarrow> queue_status \<Rightarrow> bool" where
  "audit_path p [] q = (p = Some q)"
| "audit_path p (h # hs) q =
     (h_previousStatus h = p \<and> p \<in> {None, Some WAITING} \<and> audit_path (Some (h_currentStatus h)) hs q)"

definition audit_ok :: "database \<Rightarrow> bool" where
  "audit_ok d \<longleftrightarrow>
     (\<forall>r \<in> set (entries d). audit_path None (history_of (r_id r) d) (r_status r)) \<and>
     (\<forall>h \<in> set (history d). \<exists>r \<in> set (entries d). r_id r = h_queueEntryId h)"

definition db_inv :: "database \<Rightarrow> bool" where
  "db_inv d \<longleftrightarrow> rows_ok d \<and> active_unique d \<and> assigns_ok d \<and> audit_ok d"

lemma db_inv_empty [simp]: "db_inv empty_database"
  by (simp add: db_inv_def rows_ok_def active_unique_def assigns_ok_def audit_ok_def empty_database_def)

lemma db_invD:
  assumes "db_inv d"
  shows "rows_ok d" "active_unique d" "assigns_ok d" "audit_ok d" "distinct (map r_id (entries d))"
  using assms by (simp_all add: db_inv_def rows_ok_def)

lemma db_inv_row_eq: "db_inv d \<Longrightarrow> r \<in> set (entries d) \<Longrightarrow> s \<in> set (entries d) \<Longrightarrow> r_id r = r_id s \<Longrightarrow> r = s"
  by (blast dest: db_invD(5) distinct_key_eq)

subsection \<open>Evolution\<close>

definition row_evolves :: "entry_row \<Rightarrow> entry_row \<Rightarrow> bool" where
  "row_evolves r r' \<longleftrightarrow> life (toDomain r) (toDomain r')"

definition db_evolves :: "database \<Rightarrow> database \<Rightarrow> bool" where
  "db_evolves d d' \<longleftrightarrow>
     (\<exists>rows new. entries d' = rows @ new \<and> list_all2 row_evolves (entries d) rows) \<and>
     (\<exists>hs. history d' = history d @ hs)"

lemma row_evolves_refl [simp]: "row_evolves r r"
  by (simp add: row_evolves_def life.life_refl)

lemma row_evolves_trans: "row_evolves r s \<Longrightarrow> row_evolves s t \<Longrightarrow> row_evolves r t"
  by (auto simp: row_evolves_def intro: life_append)

lemma life_one: "life_step e e' \<Longrightarrow> life e e'"
  by (rule life.life_trans [OF life.life_refl])

lemma row_evolves_D:
  assumes "row_evolves r r'"
  shows "r_id r' = r_id r" "r_restaurantId r' = r_restaurantId r" "r_userId r' = r_userId r"
    "r_phone r' = r_phone r" "entry_ok (toDomain r) \<Longrightarrow> entry_ok (toDomain r')"
    "r_status r \<noteq> WAITING \<Longrightarrow> r' = r"
proof -
  from assms have l: "life (toDomain r) (toDomain r')" by (simp add: row_evolves_def)
  from life_identity [OF l] show "r_id r' = r_id r" "r_restaurantId r' = r_restaurantId r"
    "r_userId r' = r_userId r" "r_phone r' = r_phone r"
    by (simp_all add: same_identity_def)
  from life_ok [OF l] show "entry_ok (toDomain r) \<Longrightarrow> entry_ok (toDomain r')" .
  show "r_status r \<noteq> WAITING \<Longrightarrow> r' = r"
    using life_terminal [OF l] by (metis toDomain_fields(13) toPersistence_toDomain)
qed

lemma db_evolvesI:
  "entries d' = rows @ new \<Longrightarrow> list_all2 row_evolves (entries d) rows \<Longrightarrow> history d' = history d @ hs \<Longrightarrow>
   db_evolves d d'"
  by (auto simp: db_evolves_def)

lemma db_evolves_refl [simp]: "db_evolves d d"
  by (rule db_evolvesI [of _ "entries d" "[]" _ "[]"]) (simp_all add: list.rel_refl_strong)

lemma db_evolves_trans:
  assumes "db_evolves a b" and "db_evolves b c"
  shows "db_evolves a c"
proof -
  from assms obtain ra na rb nb ha hb
    where a: "entries b = ra @ na" "list_all2 row_evolves (entries a) ra" "history b = history a @ ha"
      and b: "entries c = rb @ nb" "list_all2 row_evolves (entries b) rb" "history c = history b @ hb"
    by (auto simp: db_evolves_def)
  from a(1) b(2) obtain r1 r2 where r: "rb = r1 @ r2" "list_all2 row_evolves ra r1"
    by (metis list_all2_append1)
  have "list_all2 row_evolves (entries a) r1"
    by (rule list_all2_trans [OF row_evolves_trans a(2) r(2)])
  with a b r show ?thesis by (auto simp: db_evolves_def)
qed

text \<open>What survives in every later database: the row of an id, in an evolved version.\<close>

lemma db_evolves_row:
  assumes "db_evolves d d'" and "r \<in> set (entries d)"
  obtains r' where "r' \<in> set (entries d')" and "row_evolves r r'"
proof -
  from assms(1) obtain rows new where rows: "entries d' = rows @ new" "list_all2 row_evolves (entries d) rows"
    by (auto simp: db_evolves_def)
  from assms(2) obtain i where i: "i < length (entries d)" "r = entries d ! i"
    by (auto simp: in_set_conv_nth)
  with rows(2) have "row_evolves r (rows ! i)" and "rows ! i \<in> set rows"
    by (auto simp: list_all2_conv_all_nth)
  with rows(1) show thesis by (intro that [of "rows ! i"]) auto
qed

subsection \<open>Rewriting rows\<close>

text \<open>The database after every row was rewritten by a lifecycle-conforming function.\<close>

definition map_rows :: "(entry_row \<Rightarrow> entry_row) \<Rightarrow> database \<Rightarrow> database" where
  "map_rows f d = d\<lparr> entries := map f (entries d) \<rparr>"

lemma map_rows_evolves:
  "(\<And>r. r \<in> set (entries d) \<Longrightarrow> row_evolves r (f r)) \<Longrightarrow> db_evolves d (map_rows f d)"
  by (rule db_evolvesI [of _ "map f (entries d)" "[]" _ "[]"])
    (auto simp: map_rows_def list.rel_map intro: list.rel_refl_strong)

lemma map_rows_rows_ok:
  assumes "rows_ok d" and "\<And>r. r \<in> set (entries d) \<Longrightarrow> row_evolves r (f r)"
  shows "rows_ok (map_rows f d)"
proof -
  have "map (\<lambda>r. r_id (f r)) (entries d) = map r_id (entries d)"
    using assms(2) by (intro map_cong) (auto dest: row_evolves_D(1))
  then have "distinct (map r_id (map f (entries d)))"
    using assms(1) by (simp add: rows_ok_def comp_def del: map_eq_conv)
  with assms show ?thesis
    by (auto simp: rows_ok_def map_rows_def intro: row_evolves_D(5))
qed

lemma map_rows_active_unique:
  assumes "active_unique d" and ev: "\<And>r. r \<in> set (entries d) \<Longrightarrow> row_evolves r (f r)"
  shows "active_unique (map_rows f d)"
proof -
  have waiting_before: "r_status (f r) = WAITING \<Longrightarrow> r_status r = WAITING" if "r \<in> set (entries d)" for r
    using row_evolves_D(6) [OF ev [OF that]] by metis
  have "conflicting (f r) (f s) \<longleftrightarrow> conflicting r s"
    if "r \<in> set (entries d)" "s \<in> set (entries d)" for r s
    using row_evolves_D(2-4) [OF ev [OF that(1)]] row_evolves_D(2-4) [OF ev [OF that(2)]]
    by (simp add: conflicting_def)
  with assms(1) waiting_before show ?thesis
    by (auto simp: active_unique_def map_rows_def row_evolves_D(1) [OF ev])
qed

lemma map_rows_assigns_ok:
  assumes "assigns_ok d" and ev: "\<And>r. r \<in> set (entries d) \<Longrightarrow> row_evolves r (f r)"
  shows "assigns_ok (map_rows f d)"
  unfolding assigns_ok_def map_rows_def
proof (intro ballI conjI, simp_all)
  show "distinct (map ta_id (assigns d))" using assms(1) by (simp add: assigns_ok_def)
next
  fix a assume a: "a \<in> set (assigns d)"
  with assms(1) show "ta_releasedAt a = None" by (simp add: assigns_ok_def)
  from a assms(1) obtain r where r: "r \<in> set (entries d)" "r_id r = ta_queueEntryId a" "r_status r = SEATED"
    by (auto simp: assigns_ok_def)
  then have "f r = r" using row_evolves_D(6) [OF ev [OF r(1)]] by simp
  with r show "\<exists>r \<in> set (entries d). r_id (f r) = ta_queueEntryId a \<and> r_status (f r) = SEATED"
    by (intro bexI [of _ r]) simp_all
qed

lemma map_rows_audit_ok:
  assumes "audit_ok d" and ev: "\<And>r. r \<in> set (entries d) \<Longrightarrow> row_evolves r (f r)"
    and "\<And>r. r \<in> set (entries d) \<Longrightarrow> r_status (f r) = r_status r"
  shows "audit_ok (map_rows f d)"
  using assms(1,3) by (auto simp: audit_ok_def map_rows_def history_of_def row_evolves_D(1) [OF ev])

text \<open>Rewriting rows without changing a status keeps the whole invariant.\<close>

lemma map_rows_inv:
  assumes "db_inv d" and "\<And>r. r \<in> set (entries d) \<Longrightarrow> row_evolves r (f r)"
    and "\<And>r. r \<in> set (entries d) \<Longrightarrow> r_status (f r) = r_status r"
  shows "db_inv (map_rows f d)" and "db_evolves d (map_rows f d)"
  using assms map_rows_rows_ok map_rows_active_unique map_rows_assigns_ok map_rows_audit_ok
    map_rows_evolves by (auto simp: db_inv_def)

subsection \<open>Rows by id\<close>

lemma insert_row_Inr:
  "insert_row queue_repo r d = Inr (r', d') \<longleftrightarrow>
     r' = r \<and> r_id r \<notin> r_id ` set (entries d) \<and> d' = d\<lparr> entries := entries d @ [r] \<rparr>"
  by (auto simp: insert_row_def list_ex_iff) (metis image_eqI)

text \<open>The function that rewrites the row of one id.\<close>

definition at_id :: "uuid \<Rightarrow> (entry_row \<Rightarrow> entry_row) \<Rightarrow> entry_row \<Rightarrow> entry_row" where
  "at_id i f r = (if r_id r = i then f r else r)"

lemma modify_row_Inr:
  assumes "modify_row queue_repo i f d = Inr (r', d')"
  obtains r where "r \<in> set (entries d)" "r_id r = i" "r' = f r" "d' = map_rows (at_id i f) d"
  using assms
  by (auto simp: modify_row_def find_row_def map_rows_def update_where_def at_id_def [abs_def]
      split: option.splits dest!: find_Some_D)

lemma find_row_Some:
  "find_row queue_repo i d = Some r \<Longrightarrow> r \<in> set (entries d) \<and> r_id r = i"
  by (auto simp: find_row_def dest: find_Some_D)

lemma find_row_in:
  "distinct (map r_id (entries d)) \<Longrightarrow> r \<in> set (entries d) \<Longrightarrow> find_row queue_repo (r_id r) d = Some r"
  by (simp add: find_row_def find_key)

lemma at_id_evolves:
  assumes "db_inv d" and "r \<in> set (entries d)" and "row_evolves r (f r)" and "s \<in> set (entries d)"
  shows "row_evolves s (at_id (r_id r) f s)"
  using assms db_inv_row_eq [OF assms(1) assms(4,2)] by (auto simp: at_id_def)

subsection \<open>Transactions that create\<close>

lemma tx_create_Inr:
  assumes "tx_create data cb t d = Inr (r, d')"
  shows "r = data" and "r_id data \<notin> r_id ` set (entries d)"
    and "d' = add_history (history_entry (r_id data) None (r_status data) cb None None t)
           (d\<lparr> entries := entries d @ [data] \<rparr>)"
    and "\<forall>s \<in> set (entries d). r_status s = WAITING \<longrightarrow> \<not> conflicting data s"
  using assms
  by (auto simp: tx_create_def tx_checks_def tx_insert_def insert_row_Inr list_ex_iff conflicting_def waiting_at_def
      split: if_splits sum.splits)

lemma tx_insert_Inr:
  assumes "tx_insert data cb t d = Inr (r, d')"
  shows "r = data" and "r_id data \<notin> r_id ` set (entries d)"
    and "d' = add_history (history_entry (r_id data) None (r_status data) cb None None t)
           (d\<lparr> entries := entries d @ [data] \<rparr>)"
  using assms by (auto simp: tx_insert_def insert_row_Inr split: sum.splits)

lemma tx_create_inv:
  assumes inv: "db_inv d" and run: "tx_create data cb t d = Inr (r, d')"
    and ok: "entry_ok (toDomain data)" and waiting: "r_status data = WAITING"
  shows "db_inv d'" and "db_evolves d d'"
proof -
  note parts = tx_create_Inr [OF run]
  have rows: "entries d' = entries d @ [data]" and assigns: "assigns d' = assigns d"
    and hist: "history d' = history d @ [history_entry (r_id data) None WAITING cb None None t]"
    using parts(3) waiting by (simp_all add: add_history_def)
  have "rows_ok d'"
    using db_invD(1) [OF inv] parts(2) ok by (auto simp: rows_ok_def rows)
  moreover have "active_unique d'"
  proof -
    have "r_id a = r_id b"
      if "a \<in> set (entries d')" "b \<in> set (entries d')" "r_status a = WAITING" "r_status b = WAITING"
        "conflicting a b" for a b
      using that db_invD(2) [OF inv] parts(4) conflicting_sym [OF that(5)]
      by (auto simp: active_unique_def rows)
    then show ?thesis by (simp add: active_unique_def)
  qed
  moreover have "assigns_ok d'"
    using db_invD(3) [OF inv] unfolding assigns_ok_def rows assigns by fastforce
  moreover have "audit_ok d'"
  proof -
    have none: "history_of (r_id data) d = []"
      using db_invD(4) [OF inv] parts(2)
      by (simp add: history_of_def audit_ok_def filter_empty_conv image_iff) metis
    then have new: "history_of (r_id data) d' = [history_entry (r_id data) None WAITING cb None None t]"
      by (simp add: history_of_def hist history_entry_def)
    have old: "history_of (r_id s) d' = history_of (r_id s) d" if "s \<in> set (entries d)" for s
      using that parts(2) by (auto simp: history_of_def hist history_entry_def)
    show ?thesis
      using db_invD(4) [OF inv] waiting
      by (auto simp: audit_ok_def rows new old) (auto simp: hist history_entry_def)
  qed
  ultimately show "db_inv d'" by (simp add: db_inv_def)
  show "db_evolves d d'"
    by (rule db_evolvesI [OF rows _ hist]) (simp add: list.rel_refl_strong)
qed

subsection \<open>Transactions that move an entry to another status\<close>

lemma audit_path_snoc:
  "audit_path p hs WAITING \<Longrightarrow> h_previousStatus h = Some WAITING \<Longrightarrow> audit_path p (hs @ [h]) (h_currentStatus h)"
  by (induction hs arbitrary: p) auto

text \<open>
  The row of a waiting entry is replaced by a lifecycle successor and the move is recorded: this is
  what the status transactions do to entries and history.
\<close>

lemma move_inv:
  assumes inv: "db_inv d" and r: "r \<in> set (entries d)" and ev: "row_evolves r data"
    and waiting: "r_status r = WAITING"
    and entries': "entries d' = map (at_id (r_id r) (\<lambda>_. data)) (entries d)"
    and history': "history d' = history d @
      [history_entry (r_id r) (Some WAITING) (r_status data) cb reason notes t]"
  shows "rows_ok d'" "active_unique d'" "audit_ok d'" "db_evolves d d'"
proof -
  let ?f = "at_id (r_id r) (\<lambda>_. data)"
  have step: "\<And>s. s \<in> set (entries d) \<Longrightarrow> row_evolves s (?f s)"
    using at_id_evolves [OF inv r, of "\<lambda>_. data"] ev by simp
  have "rows_ok (map_rows ?f d)" and "active_unique (map_rows ?f d)"
    using map_rows_rows_ok [OF db_invD(1) [OF inv] step] map_rows_active_unique [OF db_invD(2) [OF inv] step]
    by auto
  then show "rows_ok d'" and "active_unique d'"
    using entries' by (simp_all add: rows_ok_def active_unique_def map_rows_def)
  have id: "r_id data = r_id r" using row_evolves_D(1) [OF ev] .
  have "audit_path None (history_of (r_id (?f s)) d') (r_status (?f s))" if s: "s \<in> set (entries d)" for s
  proof (cases "r_id s = r_id r")
    case True
    then have "s = r" using db_inv_row_eq [OF inv s r] by simp
    moreover have "audit_path None (history_of (r_id r) d) WAITING"
      using db_invD(4) [OF inv] r waiting by (auto simp: audit_ok_def)
    ultimately show ?thesis
      using audit_path_snoc [of None "history_of (r_id r) d"
          "history_entry (r_id r) (Some WAITING) (r_status data) cb reason notes t"] id
      by (simp add: at_id_def history_of_def history' history_entry_def)
  next
    case False
    then show ?thesis
      using db_invD(4) [OF inv] s by (simp add: at_id_def history_of_def history' history_entry_def audit_ok_def)
  qed
  moreover have "\<exists>s \<in> set (entries d). r_id (?f s) = h_queueEntryId h" if "h \<in> set (history d')" for h
  proof -
    have keep: "r_id (?f s) = r_id s" for s using id by (simp add: at_id_def)
    from that consider "h \<in> set (history d)" | "h_queueEntryId h = r_id r"
      by (auto simp: history' history_entry_def)
    then show ?thesis
      by cases (use db_invD(4) [OF inv] r in \<open>auto simp: keep audit_ok_def\<close>)
  qed
  ultimately show "audit_ok d'" by (simp add: audit_ok_def entries')
  show "db_evolves d d'"
    using step by (intro db_evolvesI [of _ "map ?f (entries d)" "[]", OF _ _ history'])
      (auto simp: entries' list.rel_map intro: list.rel_refl_strong)
qed

lemma tx_update_status_Inr:
  assumes "tx_update_status p t d = Inr (r', d')"
  obtains r where "r \<in> set (entries d)" "r_id r = e_id (us_queueEntry p)"
    "r' = toPersistence (us_queueEntry p)"
    "d' = add_history (history_entry (r_id r) (Some (us_previousStatus p)) (r_status r')
            (Some (us_changedBy p)) (us_reason p) (us_notes p) t)
          (map_rows (at_id (r_id r) (\<lambda>_. r')) d)"
proof -
  let ?data = "toPersistence (us_queueEntry p)"
  from assms obtain d1 where m: "modify_row queue_repo (r_id ?data) (\<lambda>_. ?data) d = Inr (r', d1)"
    and d': "d' = add_history (history_entry (r_id ?data) (Some (us_previousStatus p)) (r_status ?data)
            (Some (us_changedBy p)) (us_reason p) (us_notes p) t) d1"
    by (auto simp: tx_update_status_def Let_def split: sum.splits)
  from m show thesis
  proof (rule modify_row_Inr)
    fix r assume "r \<in> set (entries d)" "r_id r = r_id ?data" "r' = ?data"
      "d1 = map_rows (at_id (r_id ?data) (\<lambda>_. ?data)) d"
    with d' show thesis by (intro that [of r]) simp_all
  qed
qed

lemma tx_update_status_inv:
  assumes inv: "db_inv d" and r: "r \<in> set (entries d)" and waiting: "r_status r = WAITING"
    and life: "life (toDomain r) (us_queueEntry p)" and prev: "us_previousStatus p = WAITING"
    and run: "tx_update_status p t d = Inr (r', d')"
  shows "db_inv d'" and "db_evolves d d'"
proof -
  have ev: "row_evolves r (toPersistence (us_queueEntry p))" using life by (simp add: row_evolves_def)
  from run obtain q where q: "q \<in> set (entries d)" "r_id q = e_id (us_queueEntry p)"
    and r': "r' = toPersistence (us_queueEntry p)"
    and d': "d' = add_history (history_entry (r_id q) (Some (us_previousStatus p)) (r_status r')
            (Some (us_changedBy p)) (us_reason p) (us_notes p) t) (map_rows (at_id (r_id q) (\<lambda>_. r')) d)"
    by (rule tx_update_status_Inr)
  have "q = r" using db_inv_row_eq [OF inv q(1) r] q(2) row_evolves_D(1) [OF ev] by simp
  note move = move_inv [OF inv r ev waiting, of d' "Some (us_changedBy p)" "us_reason p" "us_notes p" t]
  have shape: "entries d' = map (at_id (r_id r) (\<lambda>_. toPersistence (us_queueEntry p))) (entries d)"
    "history d' = history d @ [history_entry (r_id r) (Some WAITING)
        (r_status (toPersistence (us_queueEntry p))) (Some (us_changedBy p)) (us_reason p) (us_notes p) t]"
    "assigns d' = assigns d"
    using d' prev r' \<open>q = r\<close> by (simp_all add: add_history_def map_rows_def)
  have "assigns_ok (map_rows (at_id (r_id r) (\<lambda>_. toPersistence (us_queueEntry p))) d)"
    using map_rows_assigns_ok [OF db_invD(3) [OF inv]] at_id_evolves [OF inv r, of "\<lambda>_. toPersistence (us_queueEntry p)"] ev
    by auto
  then have "assigns_ok d'" using shape by (simp add: assigns_ok_def map_rows_def)
  with move [OF shape(1,2)] show "db_inv d'" and "db_evolves d d'" by (auto simp: db_inv_def)
qed

subsection \<open>Seating with tables\<close>

lemma insert_assignments_Inr:
  "insert_assignments rows d = Inr d' \<Longrightarrow> d' = d\<lparr> assigns := assigns d @ rows \<rparr>"
  by (simp add: insert_assignments_def split: if_splits)

lemma tx_assign_ids: "tx_assign rows data prev asg t d = Inr x \<Longrightarrow> distinct (map ta_id (assigns d @ rows))"
  by (auto simp: tx_assign_def insert_assignments_def split: if_splits)

lemma tx_assign_Inr:
  assumes "tx_assign rows data prev asg t d = Inr (r', d')"
  obtains r where "r \<in> set (entries d)" "r_id r = r_id data" "r' = data"
    "entries d' = map (at_id (r_id r) (\<lambda>_. data)) (entries d)" "assigns d' = assigns d @ rows"
    "history d' = history d @ [history_entry (r_id r) (Some prev) (r_status data) (Some asg) None None t]"
proof -
  from assms obtain d1 d2 where ins: "insert_assignments rows d = Inr d1"
    and m: "modify_row queue_repo (r_id data) (\<lambda>_. data) d1 = Inr (r', d2)"
    and d': "d' = add_history (history_entry (r_id data) (Some prev) (r_status data) (Some asg) None None t) d2"
    by (auto simp: tx_assign_def split: sum.splits)
  from m show thesis
  proof (rule modify_row_Inr)
    fix r assume "r \<in> set (entries d1)" "r_id r = r_id data" "r' = data"
      "d2 = map_rows (at_id (r_id data) (\<lambda>_. data)) d1"
    with d' insert_assignments_Inr [OF ins] show thesis
      by (intro that [of r]) (simp_all add: add_history_def map_rows_def)
  qed
qed

lemma tx_assign_inv:
  assumes inv: "db_inv d" and r: "r \<in> set (entries d)" and waiting: "r_status r = WAITING"
    and life: "life (toDomain r) (toDomain data)" and seated: "r_status data = SEATED"
    and rows: "\<And>a. a \<in> set rows \<Longrightarrow> ta_queueEntryId a = r_id data \<and> ta_releasedAt a = None"
    and run: "tx_assign rows data WAITING asg t d = Inr (r', d')"
  shows "db_inv d'" and "db_evolves d d'"
proof -
  have ev: "row_evolves r data" using life by (simp add: row_evolves_def)
  have id: "r_id data = r_id r" using row_evolves_D(1) [OF ev] .
  from run obtain q where q: "q \<in> set (entries d)" "r_id q = r_id data"
    and d': "entries d' = map (at_id (r_id q) (\<lambda>_. data)) (entries d)" "assigns d' = assigns d @ rows"
    "history d' = history d @ [history_entry (r_id q) (Some WAITING) (r_status data) (Some asg) None None t]"
    by (rule tx_assign_Inr)
  have "q = r" using db_inv_row_eq [OF inv q(1) r] q(2) id by simp
  note move = move_inv [OF inv r ev waiting d'(1) [unfolded \<open>q = r\<close>] d'(3) [unfolded \<open>q = r\<close>]]
  have "assigns_ok (map_rows (at_id (r_id r) (\<lambda>_. data)) d)"
    using map_rows_assigns_ok [OF db_invD(3) [OF inv]] at_id_evolves [OF inv r, of "\<lambda>_. data"] ev by auto
  then have old: "ta_releasedAt a = None \<and> (\<exists>s \<in> set (entries d'). r_id s = ta_queueEntryId a \<and> r_status s = SEATED)"
    if "a \<in> set (assigns d)" for a
    using that d'(1) \<open>q = r\<close> by (simp add: assigns_ok_def map_rows_def)
  have "data \<in> set (entries d')"
    using r d'(1) \<open>q = r\<close> by (auto simp: at_id_def image_iff intro!: bexI [of _ r])
  then have new: "ta_releasedAt a = None \<and> (\<exists>s \<in> set (entries d'). r_id s = ta_queueEntryId a \<and> r_status s = SEATED)"
    if "a \<in> set rows" for a
    using rows [OF that] seated by (intro conjI bexI [of _ data]) simp_all
  have "assigns_ok d'"
    unfolding assigns_ok_def d'(2) using tx_assign_ids [OF run] old new by (metis UnE set_append)
  with move show "db_inv d'" and "db_evolves d d'" by (simp_all add: db_inv_def)
qed

subsection \<open>Rewriting positions\<close>

lemma apply_position_eq:
  "r_status r = WAITING \<Longrightarrow> pu_position u = Some p \<Longrightarrow>
   toDomain (apply_position u t r) = updatePosition t p (pu_estimatedWaitMinutes u) (toDomain r)"
  by (cases "pu_estimatedWaitMinutes u")
    (simp_all add: apply_position_def updatePosition_eq Let_def toDomain_def)

lemma apply_position_status [simp]: "r_status (apply_position u t r) = r_status r"
  by (simp add: apply_position_def Let_def split: option.splits)

lemma apply_position_id [simp]: "r_id (apply_position u t r) = r_id r"
  by (simp add: apply_position_def Let_def split: option.splits)

lemma apply_position_evolves:
  "r_status r = WAITING \<Longrightarrow> pu_position u = Some p \<Longrightarrow> row_evolves r (apply_position u t r)"
  unfolding row_evolves_def by (subst apply_position_eq) (auto intro: life_one life_step.life_move)

text \<open>An update of positions is safe when it gives a position, to waiting entries only.\<close>

definition update_safe :: "database \<Rightarrow> position_update \<Rightarrow> bool" where
  "update_safe d u \<longleftrightarrow> pu_position u \<noteq> None \<and>
     (\<forall>r \<in> set (entries d). r_id r = pu_id u \<longrightarrow> r_status r = WAITING)"

lemma tx_positions_Cons:
  assumes "tx_positions ((u, t) # us) d = Inr d'"
  shows "tx_positions us (map_rows (at_id (pu_id u) (apply_position u t)) d) = Inr d'"
    and "\<exists>r \<in> set (entries d). r_id r = pu_id u"
  using assms by (auto split: sum.splits elim: modify_row_Inr)

lemma tx_positions_inv:
  assumes "db_inv d" and "\<forall>(u, t) \<in> set us. update_safe d u" and "tx_positions us d = Inr d'"
  shows "db_inv d' \<and> db_evolves d d'"
  using assms
proof (induction us arbitrary: d)
  case Nil
  then show ?case by simp
next
  case (Cons ut us)
  obtain u t where ut: "ut = (u, t)" by (cases ut)
  let ?f = "at_id (pu_id u) (apply_position u t)"
  note run = tx_positions_Cons [OF Cons.prems(3) [unfolded ut]]
  have safe: "update_safe d u" using Cons.prems(2) ut by simp
  then obtain p where p: "pu_position u = Some p" by (auto simp: update_safe_def)
  have ev: "row_evolves r (?f r)" if "r \<in> set (entries d)" for r
    using that safe p apply_position_evolves [of r u p t] by (simp add: at_id_def update_safe_def)
  have st: "r_status (?f r) = r_status r" for r by (simp add: at_id_def)
  have i: "r_id (?f r) = r_id r" for r by (simp add: at_id_def)
  note inv1 = map_rows_inv [OF Cons.prems(1) ev st]
  have "\<forall>(u', t') \<in> set us. update_safe (map_rows ?f d) u'"
    using Cons.prems(2) ut by (fastforce simp: update_safe_def map_rows_def i st)
  from Cons.IH [OF inv1(1) this run(1)] inv1(2) show ?case by (blast intro: db_evolves_trans)
qed

text \<open>In closed form, when no id occurs twice: each row gets the update of its id.\<close>

definition apply_updates :: "(position_update \<times> millis) list \<Rightarrow> entry_row \<Rightarrow> entry_row" where
  "apply_updates us r = (case find (\<lambda>(u, t). pu_id u = r_id r) us of
      None \<Rightarrow> r | Some (u, t) \<Rightarrow> apply_position u t r)"

lemma map_rows_map_rows: "map_rows f (map_rows g d) = map_rows (\<lambda>r. f (g r)) d"
  by (simp add: map_rows_def)

lemma apply_updates_Cons:
  "pu_id u \<notin> (\<lambda>(u, t). pu_id u) ` set us \<Longrightarrow>
   apply_updates us (at_id (pu_id u) (apply_position u t) r) = apply_updates ((u, t) # us) r"
  by (auto simp: apply_updates_def at_id_def find_None_iff split: option.splits)
    (force dest!: find_Some_D)+

lemma tx_positions_closed:
  "distinct (map (\<lambda>(u, t). pu_id u) us) \<Longrightarrow> tx_positions us d = Inr d' \<Longrightarrow> d' = map_rows (apply_updates us) d"
proof (induction us arbitrary: d)
  case Nil
  then show ?case by (simp add: map_rows_def apply_updates_def)
next
  case (Cons ut us)
  obtain u t where ut: "ut = (u, t)" by (cases ut)
  note run = tx_positions_Cons [OF Cons.prems(2) [unfolded ut]]
  have "d' = map_rows (apply_updates us) (map_rows (at_id (pu_id u) (apply_position u t)) d)"
    using Cons.IH [OF _ run(1)] Cons.prems(1) by simp
  moreover have "pu_id u \<notin> (\<lambda>(u, t). pu_id u) ` set us" using Cons.prems(1) ut by simp
  ultimately show ?case by (simp add: map_rows_map_rows apply_updates_Cons ut)
qed

subsection \<open>Saving an entry over its row\<close>

lemma keep_created_evolved:
  "row_evolves r (toPersistence e) \<Longrightarrow> keep_created_row r (toPersistence e) = toPersistence e"
  using life_identity [of "toDomain r" e]
  by (simp add: row_evolves_def keep_created_row_def same_identity_def)

lemma saved_inv:
  assumes inv: "db_inv d" and r: "r \<in> set (entries d)" and life: "life (toDomain r) e"
    and status: "e_status e = r_status r"
    and m: "modify_row queue_repo (e_id e) (\<lambda>old. keep_created_row old (toPersistence e)) d = Inr (r', d')"
  shows "db_inv d'" and "db_evolves d d'"
proof -
  let ?g = "\<lambda>old. keep_created_row old (toPersistence e)"
  have ev: "row_evolves r (toPersistence e)" using life by (simp add: row_evolves_def)
  have id: "e_id e = r_id r" using row_evolves_D(1) [OF ev] by simp
  have d': "d' = map_rows (at_id (r_id r) ?g) d" using m id by (auto elim: modify_row_Inr)
  have step: "row_evolves s (at_id (r_id r) ?g s)" if "s \<in> set (entries d)" for s
    using at_id_evolves [OF inv r _ that, of ?g] ev keep_created_evolved [OF ev] by simp
  have st: "r_status (at_id (r_id r) ?g s) = r_status s" if "s \<in> set (entries d)" for s
    using db_inv_row_eq [OF inv that r] status by (auto simp: at_id_def keep_created_row_def)
  show "db_inv d'" and "db_evolves d d'" using map_rows_inv [OF inv step st] d' by simp_all
qed

subsection \<open>Releasing tables\<close>

text \<open>
  A waiting entry has no table assignment, so releasing its assignments touches nothing.
\<close>

lemma waiting_no_assignments:
  assumes "db_inv d" and "r \<in> set (entries d)" and "r_status r = WAITING"
  shows "active_assignments (r_id r) d = []"
proof -
  have "ta_queueEntryId a \<noteq> r_id r" if "a \<in> set (assigns d)" for a
  proof
    assume "ta_queueEntryId a = r_id r"
    with that db_invD(3) [OF assms(1)] obtain s
      where s: "s \<in> set (entries d)" "r_id s = r_id r" "r_status s = SEATED"
      by (auto simp: assigns_ok_def)
    with db_inv_row_eq [OF assms(1) s(1) assms(2)] assms(3) show False by simp
  qed
  then show ?thesis by (auto simp: active_assignments_def filter_empty_conv)
qed

end
