(* ===== verification/Cache.thy ===== *)
theory Cache
  imports World
begin

text \<open>
  \<open>RedisQueueCacheService\<close> (\<open>redis-queue-cache.service.ts\<close>): the live state of an entry under a key
  in Redis. Every method catches its errors, so none of them rejects. A key is a partial function
  in the world; the expiry time is stored with the value and its passing is not modelled.
  The locale \<open>live_store\<close> is what a store of live states promises, interpreted on Redis.
\<close>

definition KEY_PREFIX :: string where
  "KEY_PREFIX = ''queue:live:''"

definition TTL_SECONDS :: nat where
  "TTL_SECONDS = 86400"

definition getKey :: "uuid \<Rightarrow> string" where
  "getKey queueEntryId = KEY_PREFIX @ queueEntryId"

definition redis_set :: "string \<Rightarrow> live_entry \<Rightarrow> nat \<Rightarrow> world \<Rightarrow> world" where
  "redis_set k v ttl w = w\<lparr> redis := (redis w)(k \<mapsto> (v, ttl)) \<rparr>"

definition redis_del :: "string \<Rightarrow> world \<Rightarrow> world" where
  "redis_del k w = w\<lparr> redis := (redis w)(k := None) \<rparr>"

definition redis_get :: "string \<Rightarrow> live_entry option io" where
  "redis_get k w =
     (case redis_fault (ext w) (tick w) of
        Some e \<Rightarrow> (Inl e, w\<lparr> tick := Suc (tick w) \<rparr>)
      | None \<Rightarrow> (Inr (map_option fst (redis w k)), w\<lparr> tick := Suc (tick w) \<rparr>))"

definition saveLiveEntry :: "uuid \<Rightarrow> uuid \<Rightarrow> int \<Rightarrow> int \<Rightarrow> unit io" where
  "saveLiveEntry queueEntryId restaurantId position currentEta =
     catchE
       (bindE new_date (\<lambda>t.
        attempt redis_fault (redis_set (getKey queueEntryId)
          \<lparr> l_queueEntryId = queueEntryId, l_restaurantId = restaurantId, l_position = position,
            l_currentEta = currentEta, l_updatedAt = t \<rparr> TTL_SECONDS)))
       (\<lambda>_. retE ())"

definition getLiveEntry :: "uuid \<Rightarrow> live_entry option io" where
  "getLiveEntry queueEntryId = catchE (redis_get (getKey queueEntryId)) (\<lambda>_. retE None)"

definition removeLiveEntry :: "uuid \<Rightarrow> unit io" where
  "removeLiveEntry queueEntryId =
     catchE (attempt redis_fault (redis_del (getKey queueEntryId))) (\<lambda>_. retE ())"

subsection \<open>Calls that never reject\<close>

text \<open>A call that returns whatever the environment does and leaves the database alone.\<close>

definition quiet :: "'a io \<Rightarrow> bool" where
  "quiet m \<longleftrightarrow> (\<forall>w. wp m (\<lambda>_ w'. db w' = db w) (\<lambda>_ _. False) w)"

lemma quiet_conv: "quiet m \<longleftrightarrow> (\<forall>w. \<exists>x w'. m w = (Inr x, w') \<and> db w' = db w)"
proof -
  have "wp m (\<lambda>_ w'. db w' = db w) (\<lambda>_ _. False) w \<longleftrightarrow> (\<exists>x w'. m w = (Inr x, w') \<and> db w' = db w)" for w
    by (cases "m w"; cases "fst (m w)") (auto simp: wp_def)
  then show ?thesis by (simp add: quiet_def)
qed

lemma quietE:
  assumes "quiet m"
  obtains x w' where "m w = (Inr x, w')" and "db w' = db w"
  using assms that unfolding quiet_conv by metis

lemma quiet_same_db [db_rules]: "quiet m \<Longrightarrow> stays same_db m"
  unfolding quiet_def stays_wp same_db_def by (blast intro: wp_mono)

lemma wp_quiet:
  assumes "quiet m" and "\<And>x w'. db w' = db w \<Longrightarrow> Q x w'"
  shows "wp m Q E w"
  using assms unfolding quiet_def by (blast intro: wp_mono)

lemma quiet_retE [simp, intro]: "quiet (retE x)"
  by (simp add: quiet_def wp_simps)

lemma quiet_bindE [intro]: "quiet m \<Longrightarrow> (\<And>x. quiet (f x)) \<Longrightarrow> quiet (bindE m f)"
  unfolding quiet_conv bindE_def by (metis (no_types, lifting) old.prod.case sum.case(2))

lemma quiet_catchE [intro]:
  assumes "stays same_db m" and "\<And>e. quiet (h e)"
  shows "quiet (catchE m h)"
  unfolding quiet_def
proof
  fix w
  show "wp (catchE m h) (\<lambda>_ w'. db w' = db w) (\<lambda>_ _. False) w"
    unfolding wp_catchE
  proof (rule wp_same_db [OF assms(1)])
    fix e :: js_error and w' :: world
    assume "db w' = db w"
    then show "wp (h e) (\<lambda>_ w'. db w' = db w) (\<lambda>_ _. False) w'"
      using assms(2) [unfolded quiet_def, rule_format, of e w'] by simp
  qed simp
qed

lemma quiet_if [intro]: "quiet m \<Longrightarrow> quiet n \<Longrightarrow> quiet (if b then m else n)"
  by simp

lemma quiet_ask [simp, intro]: "quiet (ask f)" "quiet new_date" "quiet random_id" "quiet (ask_cfg g)"
  by (simp_all add: quiet_def new_date_def random_id_def wp_simps)

lemma quiet_mapE [intro]: "(\<And>x. quiet (f x)) \<Longrightarrow> quiet (mapE f xs)"
  by (induction xs) auto

lemma quiet_saveLiveEntry [simp, intro]: "quiet (saveLiveEntry i r p eta)"
  unfolding saveLiveEntry_def
  by (intro quiet_catchE quiet_retE same_db.stays_bindE db_rules) (simp add: redis_set_def)

lemma redis_get_same_db [db_rules]: "stays same_db (redis_get k)"
  by (simp add: stays_def redis_get_def same_db_def split: option.splits)

lemma quiet_getLiveEntry [simp, intro]: "quiet (getLiveEntry i)"
  unfolding getLiveEntry_def by (intro quiet_catchE quiet_retE db_rules)

lemma quiet_removeLiveEntry [simp, intro]: "quiet (removeLiveEntry i)"
  unfolding removeLiveEntry_def
  by (intro quiet_catchE quiet_retE db_rules) (simp add: redis_del_def)

subsection \<open>A store of live states\<close>

locale live_store =
  fixes lookup :: "'s \<Rightarrow> uuid \<Rightarrow> live_entry option"
    and store :: "uuid \<Rightarrow> live_entry \<Rightarrow> 's \<Rightarrow> 's"
    and discard :: "uuid \<Rightarrow> 's \<Rightarrow> 's"
  assumes lookup_store: "lookup (store i v s) j = (if j = i then Some v else lookup s j)"
    and lookup_discard: "lookup (discard i s) j = (if j = i then None else lookup s j)"
begin

text \<open>A sequence of writes; the last write of a key decides what is read.\<close>

fun writes :: "(uuid \<times> live_entry option) list \<Rightarrow> 's \<Rightarrow> 's" where
  "writes [] s = s"
| "writes ((i, Some v) # ws) s = writes ws (store i v s)"
| "writes ((i, None) # ws) s = writes ws (discard i s)"

lemma lookup_writes:
  "lookup (writes ws s) j = (case map_of (rev ws) j of None \<Rightarrow> lookup s j | Some v \<Rightarrow> v)"
proof (induction ws s rule: writes.induct)
  case (1 s)
  then show ?case by simp
next
  case (2 i v ws s)
  then show ?case by (auto simp: lookup_store map_add_def split: option.splits)
next
  case (3 i ws s)
  then show ?case by (auto simp: lookup_discard map_add_def split: option.splits)
qed

end

definition live_lookup :: "world \<Rightarrow> uuid \<Rightarrow> live_entry option" where
  "live_lookup w i = map_option fst (redis w (getKey i))"

definition live_put :: "uuid \<Rightarrow> live_entry \<Rightarrow> world \<Rightarrow> world" where
  "live_put i v = redis_set (getKey i) v TTL_SECONDS"

definition live_drop :: "uuid \<Rightarrow> world \<Rightarrow> world" where
  "live_drop i = redis_del (getKey i)"

interpretation redis_store: live_store live_lookup live_put live_drop
  by unfold_locales
    (simp_all add: live_lookup_def live_put_def live_drop_def redis_set_def redis_del_def getKey_def)

text \<open>The methods of the service in terms of the store, when Redis answers.\<close>

lemma saveLiveEntry_run:
  assumes "redis_fault (ext w) (Suc (tick w)) = None"
  shows "saveLiveEntry i r p eta w =
    (Inr (), live_put i \<lparr> l_queueEntryId = i, l_restaurantId = r, l_position = p, l_currentEta = eta,
        l_updatedAt = clock (ext w) (tick w) \<rparr> (w\<lparr> tick := tick w + 2 \<rparr>))"
  using assms
  by (simp add: saveLiveEntry_def catchE_def bindE_def new_date_def ask_def attempt_def live_put_def)

lemma removeLiveEntry_run:
  assumes "redis_fault (ext w) (tick w) = None"
  shows "removeLiveEntry i w = (Inr (), live_drop i (w\<lparr> tick := Suc (tick w) \<rparr>))"
  using assms by (simp add: removeLiveEntry_def catchE_def attempt_def live_drop_def)

lemma getLiveEntry_run:
  "redis_fault (ext w) (tick w) = None \<Longrightarrow>
   getLiveEntry i w = (Inr (live_lookup w i), w\<lparr> tick := Suc (tick w) \<rparr>)"
  by (simp add: getLiveEntry_def catchE_def redis_get_def live_lookup_def)

lemma live_put_simps [simp]:
  "ext (live_put i v w) = ext w" "tick (live_put i v w) = tick w" "db (live_put i v w) = db w"
  "ext (live_drop i w) = ext w" "tick (live_drop i w) = tick w" "db (live_drop i w) = db w"
  by (simp_all add: live_put_def live_drop_def redis_set_def redis_del_def)

end
