(* ===== verification/RepositoryRules.thy ===== *)
theory RepositoryRules
  imports DbInvariants Cache
begin

text \<open>
  Weakest-precondition rules for the methods of the queue repository. A read leaves the database
  alone; a transaction either commits, keeping the database invariant and evolving every row along
  its lifecycle, or rejects and leaves the database as it was. \<open>ok_step\<close> is that fact as a relation
  on worlds, with the composition rules of \<open>effect_order\<close>.
\<close>

definition db_step :: "database \<Rightarrow> database \<Rightarrow> bool" where
  "db_step d d' \<longleftrightarrow> (db_inv d \<longrightarrow> db_inv d' \<and> db_evolves d d')"

lemma db_step_refl [simp]: "db_step d d"
  by (simp add: db_step_def)

lemma db_step_trans: "db_step a b \<Longrightarrow> db_step b c \<Longrightarrow> db_step a c"
  by (auto simp: db_step_def intro: db_evolves_trans)

definition ok_step :: "world \<Rightarrow> world \<Rightarrow> bool" where
  "ok_step w w' \<longleftrightarrow> db_step (db w) (db w')"

interpretation ok_step: effect_order ok_step
  by unfold_locales (auto simp: ok_step_def intro: db_step_trans)

lemma same_db_ok_step: "stays same_db m \<Longrightarrow> stays ok_step m"
  by (erule stays_mono) (simp add: same_db_def ok_step_def)

lemma same_db_sym_step: "db w' = db w \<Longrightarrow> ok_step w w'"
  by (simp add: ok_step_def)

subsection \<open>Reads\<close>

lemma qrun_db_read:
  assumes "\<And>w'. db w' = db w \<Longrightarrow> Q (q (db w)) w'" and "\<And>e w'. db w' = db w \<Longrightarrow> E e w'"
  shows "wp (qrun (db_read q)) Q E w"
  unfolding wp_run by (rule wp_db_readI) (use assms in auto)

lemma qrun_db_read_map:
  assumes "\<And>w'. db w' = db w \<Longrightarrow> Q (f (q (db w))) w'" and "\<And>e w'. db w' = db w \<Longrightarrow> E e w'"
  shows "wp (qrun (bindE (db_read q) (\<lambda>x. retE (f x)))) Q E w"
  unfolding wp_run wp_bindE wp_retE by (rule wp_db_readI) (use assms in auto)

lemma wp_findActiveEntries:
  assumes "\<And>w'. db w' = db w \<Longrightarrow> Q (map toDomain (active_rows rid (db w))) w'"
    and "\<And>e w'. db w' = db w \<Longrightarrow> E e w'"
  shows "wp (findActiveEntries rid) Q E w"
  unfolding findActiveEntries_def by (rule qrun_db_read_map) (use assms in auto)

lemma wp_findActiveTableAssignments:
  assumes "\<And>w'. db w' = db w \<Longrightarrow> Q (active_assignments i (db w)) w'"
    and "\<And>e w'. db w' = db w \<Longrightarrow> E e w'"
  shows "wp (findActiveTableAssignments i) Q E w"
  unfolding findActiveTableAssignments_def by (rule qrun_db_read) (use assms in auto)

lemma wp_getActiveQueueMetrics:
  assumes "\<And>w'. db w' = db w \<Longrightarrow>
      Q \<lparr> queueDepth = count_waiting rid (db w), totalPeopleAhead = sum_waiting rid (db w) \<rparr> w'"
    and "\<And>e w'. db w' = db w \<Longrightarrow> E e w'"
  shows "wp (getActiveQueueMetrics rid) Q E w"
  unfolding getActiveQueueMetrics_def by (rule qrun_db_read) (use assms in auto)

lemma start_of_day_same_db [db_rules]: "stays same_db start_of_day"
  unfolding start_of_day_def by (intro same_db.stays_rules db_rules)

lemma queries_same_db [db_rules]:
  "stays same_db (findActiveEntries rid)" "stays same_db (countActiveAhead rid)"
  "stays same_db (sumPartySizeActiveAhead rid)" "stays same_db (countPeopleAheadAtJoin rid t)"
  "stays same_db (getActiveQueueMetrics rid)" "stays same_db (getRegistrationMetrics rid)"
  "stays same_db (countToday rid)" "stays same_db (findActiveByPhone rid ph)"
  "stays same_db (findActiveByUserId u)" "stays same_db (findActiveByUserIdAndRestaurantId rid u)"
  "stays same_db (findActiveTableAssignments i)" "stays same_db (getStaffQueueSnapshot rid fs)"
  unfolding findActiveEntries_def countActiveAhead_def sumPartySizeActiveAhead_def
    countPeopleAheadAtJoin_def getActiveQueueMetrics_def getRegistrationMetrics_def countToday_def
    findActiveByPhone_def findActiveByUserId_def findActiveByUserIdAndRestaurantId_def
    findActiveTableAssignments_def getStaffQueueSnapshot_def
  by (intro same_db.stays_bindE same_db.stays_retE db_rules)+

subsection \<open>Loading an entry of a restaurant\<close>

text \<open>
  The opening lines of the staff use cases: \<open>findById\<close>, and \<open>QueueEntryNotFoundError\<close> when there is
  no such entry or it belongs to another restaurant.
\<close>

definition load_entry :: "uuid \<Rightarrow> uuid \<Rightarrow> queue_entry io" where
  "load_entry restaurantId queueEntryId =
     bindE (findById queue_repo queueEntryId) (\<lambda>found.
       case found of
         None \<Rightarrow> throwE (DomainError (QueueEntryNotFoundError queueEntryId))
       | Some e \<Rightarrow>
           if e_restaurantId e \<noteq> restaurantId
           then throwE (DomainError (QueueEntryNotFoundError queueEntryId)) else retE e)"

lemma wp_load_entry:
  assumes "\<And>r w'. r \<in> set (entries (db w)) \<Longrightarrow> r_id r = i \<Longrightarrow> r_restaurantId r = rid \<Longrightarrow>
      db w' = db w \<Longrightarrow> Q (toDomain r) w'"
    and "\<And>e w'. db w' = db w \<Longrightarrow> E e w'"
  shows "wp (load_entry rid i) Q E w"
proof -
  have "wp (db_read (find_row queue_repo i)) (\<lambda>record w'.
      wp (case map_option toDomain record of
           None \<Rightarrow> throwE (DomainError (QueueEntryNotFoundError i))
         | Some e \<Rightarrow> if e_restaurantId e \<noteq> rid
             then throwE (DomainError (QueueEntryNotFoundError i)) else retE e) Q E w')
      (\<lambda>e. E (translateError Map.empty Map.empty e)) w"
    by (rule wp_db_readI)
      (use assms in \<open>auto simp: wp_simps dest: find_row_Some split: option.split\<close>)
  then show ?thesis
    by (simp add: load_entry_def findById_def wp_simps)
qed

lemma load_entry_same_db [db_rules]: "stays same_db (load_entry rid i)"
  unfolding load_entry_def
  by (intro same_db.stays_bindE same_db.stays_case_option same_db.stays_if same_db.stays_retE
      same_db.stays_throwE db_rules)

subsection \<open>Transactions\<close>

lemma wp_tx:
  assumes "\<And>x d w'. q (db w) = Inr (x, d) \<Longrightarrow> db w' = d \<Longrightarrow> Q (f x) w'"
    and "\<And>e w'. db w' = db w \<Longrightarrow> E e w'"
  shows "wp (bindE (db_run q) (\<lambda>x. retE (f x))) Q E w"
  unfolding wp_bindE wp_retE by (rule wp_db_runI) (use assms in auto)

lemma wp_qrun_new_date:
  assumes "\<And>t w'. db w' = db w \<Longrightarrow> wp (m t) Q E' w'"
    and "\<And>e. E' e = E (translateError Map.empty Map.empty e)"
  shows "wp (qrun (bindE new_date m)) Q E w"
proof -
  have "E' = (\<lambda>e. E (translateError Map.empty Map.empty e))" using assms(2) by (rule ext)
  with assms(1) show ?thesis by (simp add: wp_simps new_date_def)
qed

text \<open>The two steps of the transaction that creates, and the transaction with nothing in between.\<close>

lemma wp_create_checks:
  assumes "\<And>w'. tx_checks data (db w) = Inr () \<Longrightarrow> db w' = db w \<Longrightarrow> Q () w'"
    and "\<And>err w'. db w' = db w \<Longrightarrow> E err w'"
  shows "wp (create_checks data) Q E w"
  unfolding create_checks_def
proof (rule wp_db_runI)
  fix x d and w' :: world
  assume "map_sum (\<lambda>e. e) (\<lambda>_. ((), db w)) (tx_checks data (db w)) = Inr (x, d)" and "db w' = d"
  then show "Q x w'" using assms(1) [of w'] by (cases "tx_checks data (db w)") auto
qed (use assms(2) in auto)

lemma wp_create_insert:
  assumes "\<And>t d w'. tx_insert data cb t (db w) = Inr (data, d) \<Longrightarrow> db w' = d \<Longrightarrow> Q (toDomain data) w'"
    and "\<And>err w'. db w' = db w \<Longrightarrow> E err w'"
  shows "wp (create_insert data cb) Q E w"
  unfolding create_insert_def new_date_def wp_bindE [of "ask clock"] wp_ask
proof (rule wp_tx)
  fix x d and w' :: world
  assume "tx_insert data cb (clock (ext w) (tick w)) (db (w\<lparr> tick := Suc (tick w) \<rparr>)) = Inr (x, d)" and d: "db w' = d"
  then have tx: "tx_insert data cb (clock (ext w) (tick w)) (db w) = Inr (x, d)" by simp
  show "Q (toDomain x) w'" using assms(1) [of _ d w'] tx tx_insert_Inr(1) [OF tx] d by simp
qed (use assms(2) in auto)

lemma wp_create_tx:
  assumes "\<And>t d w'. tx_create (toPersistence e) cb t (db w) = Inr (toPersistence e, d) \<Longrightarrow> db w' = d \<Longrightarrow> Q e w'"
    and "\<And>err w'. db w' = db w \<Longrightarrow> E err w'"
  shows "wp (createWithHistory e cb) Q E w"
  unfolding createWithHistory_def Let_def wp_run wp_bindE
  by (rule wp_create_checks, rule wp_create_insert) (use assms in \<open>auto simp: tx_create_def\<close>)

lemma wp_createWithHistory:
  assumes inv: "db_inv (db w)" and ok: "entry_ok e" and waiting: "e_status e = WAITING"
    and commit: "\<And>w'. db_inv (db w') \<Longrightarrow> db_evolves (db w) (db w') \<Longrightarrow>
      entries (db w') = entries (db w) @ [toPersistence e] \<Longrightarrow> Q e w'"
    and reject: "\<And>err w'. db w' = db w \<Longrightarrow> E err w'"
  shows "wp (createWithHistory e cb) Q E w"
proof (rule wp_create_tx)
  fix t d and w' :: world
  assume tx: "tx_create (toPersistence e) cb t (db w) = Inr (toPersistence e, d)" and d: "db w' = d"
  have "db_inv d" and "db_evolves (db w) d"
    using tx_create_inv [OF inv tx] ok waiting by simp_all
  moreover have "entries d = entries (db w) @ [toPersistence e]"
    using tx_create_Inr [OF tx] by (simp add: add_history_def)
  ultimately show "Q e w'" using commit d by simp
qed (use reject in simp)

text \<open>The rows after one entry was written over the row of its id.\<close>

definition row_replaced :: "queue_entry \<Rightarrow> database \<Rightarrow> database \<Rightarrow> bool" where
  "row_replaced e d d' \<longleftrightarrow> entries d' = map (at_id (e_id e) (\<lambda>_. toPersistence e)) (entries d)"

lemma wp_updateStatusWithHistory:
  assumes inv: "db_inv (db w)" and r: "r \<in> set (entries (db w))" and waiting: "r_status r = WAITING"
    and life: "life (toDomain r) (us_queueEntry p)" and prev: "us_previousStatus p = WAITING"
    and commit: "\<And>w'. db_inv (db w') \<Longrightarrow> db_evolves (db w) (db w') \<Longrightarrow>
      row_replaced (us_queueEntry p) (db w) (db w') \<Longrightarrow> assigns (db w') = assigns (db w) \<Longrightarrow>
      Q (us_queueEntry p) w'"
    and reject: "\<And>err w'. db w' = db w \<Longrightarrow> E err w'"
  shows "wp (updateStatusWithHistory p) Q E w"
  unfolding updateStatusWithHistory_def
proof (rule wp_qrun_new_date [OF wp_tx refl])
  fix t x d and w1 w' :: world
  assume "db w1 = db w" and "tx_update_status p t (db w1) = Inr (x, d)" and d: "db w' = d"
  then have tx: "tx_update_status p t (db w) = Inr (x, d)" by simp
  from tx have "x = toPersistence (us_queueEntry p) \<and> row_replaced (us_queueEntry p) (db w) d
      \<and> assigns d = assigns (db w)"
    by (rule tx_update_status_Inr) (simp add: row_replaced_def add_history_def map_rows_def)
  with tx_update_status_inv [OF inv r waiting life prev tx] commit d show "Q (toDomain x) w'" by simp
qed (use reject in simp)

lemma wp_assignment_rows:
  assumes "\<And>rows w'. (\<forall>a \<in> set rows. ta_queueEntryId a = e_id e \<and> ta_releasedAt a = None) \<Longrightarrow>
      map ta_tableId rows = ts \<Longrightarrow> db w' = db w \<Longrightarrow> Q rows w'"
  shows "wp (assignment_rows e ts cb) Q E w"
  unfolding assignment_rows_def
  by (rule wp_mapE [where I = "\<lambda>rows rest w'. (\<forall>a \<in> set rows. ta_queueEntryId a = e_id e \<and>
      ta_releasedAt a = None) \<and> map ta_tableId rows @ rest = ts \<and> db w' = db w" and zs = "[]"])
    (use assms in \<open>auto simp: wp_simps new_date_def random_id_def split: option.split\<close>)

lemma wp_assignTablesWithHistory:
  assumes inv: "db_inv (db w)" and r: "r \<in> set (entries (db w))" and waiting: "r_status r = WAITING"
    and life: "life (toDomain r) e" and seated: "e_status e = SEATED"
    and commit: "\<And>w'. db_inv (db w') \<Longrightarrow> db_evolves (db w) (db w') \<Longrightarrow> row_replaced e (db w) (db w') \<Longrightarrow>
      map ta_tableId (active_assignments (e_id e) (db w')) = ts \<Longrightarrow> Q e w'"
    and reject: "\<And>err w'. db w' = db w \<Longrightarrow> E err w'"
  shows "wp (assignTablesWithHistory e ts cb WAITING) Q E w"
  unfolding assignTablesWithHistory_def wp_run wp_bindE
proof (rule wp_assignment_rows, simp only: wp_bindE wp_ask wp_retE new_date_def queue_repo_simps)
  fix rows :: "table_assignment list" and w1 :: world
  assume rows: "\<forall>a \<in> set rows. ta_queueEntryId a = e_id e \<and> ta_releasedAt a = None"
    and tables: "map ta_tableId rows = ts" and db: "db w1 = db w"
  show "wp (db_run (tx_assign rows (toPersistence e) WAITING cb (clock (ext w1) (tick w1))))
      (\<lambda>x. Q (toDomain x)) (\<lambda>err. E (translateError Map.empty Map.empty err))
      (w1\<lparr> tick := Suc (tick w1) \<rparr>)"
  proof (rule wp_db_runI)
    fix x d and w' :: world
    let ?t = "clock (ext w1) (tick w1)"
    assume "tx_assign rows (toPersistence e) WAITING cb ?t (db (w1\<lparr> tick := Suc (tick w1) \<rparr>)) = Inr (x, d)"
      and d: "db w' = d"
    then have tx: "tx_assign rows (toPersistence e) WAITING cb ?t (db w) = Inr (x, d)" by (simp add: db)
    from tx have d': "x = toPersistence e \<and> row_replaced e (db w) d \<and> assigns d = assigns (db w) @ rows"
      by (rule tx_assign_Inr) (simp add: row_replaced_def)
    have "e_id e = r_id r" using life_identity [OF life] by (simp add: same_identity_def)
    with waiting_no_assignments [OF inv r waiting] rows d' have "active_assignments (e_id e) d = rows"
      by (simp add: active_assignments_def)
    with d' tables tx_assign_inv [OF inv r waiting _ _ _ tx] life seated rows commit d show "Q (toDomain x) w'" by simp
  qed (use reject db in simp)
qed

lemma wp_timed:
  assumes "\<And>timed w'. map fst timed = us \<Longrightarrow> db w' = db w \<Longrightarrow> Q timed w'"
  shows "wp (mapE (\<lambda>u. bindE new_date (\<lambda>t. retE (u, t))) us) Q E w"
  by (rule wp_mapE [where I = "\<lambda>done rest w'. map fst done @ rest = us \<and> db w' = db w" and zs = "[]"])
    (use assms in \<open>auto simp: wp_simps new_date_def\<close>)

lemma wp_batchUpdatePositions:
  assumes commit: "\<And>timed w'. map fst timed = us \<Longrightarrow> tx_positions timed (db w) = Inr (db w') \<Longrightarrow> Q () w'"
    and reject: "\<And>err w'. db w' = db w \<Longrightarrow> E err w'"
  shows "wp (batchUpdatePositions us) Q E w"
proof (cases "us = []")
  case True
  then show ?thesis using commit [of "[]" w] by (simp add: batchUpdatePositions_def wp_simps)
next
  case False
  have "wp (mapE (\<lambda>u. bindE new_date (\<lambda>t. retE (u, t))) us) (\<lambda>timed.
      wp (db_run (\<lambda>d. map_sum (\<lambda>e. e) (\<lambda>d'. ((), d')) (tx_positions timed d))) Q
        (\<lambda>e. E (translateError Map.empty Map.empty e))) (\<lambda>e. E (translateError Map.empty Map.empty e)) w"
  proof (rule wp_timed, rule wp_db_runI)
    fix timed x d and w1 w' :: world
    assume "map fst timed = us" "db w1 = db w" "db w' = d"
      "map_sum (\<lambda>e. e) (\<lambda>d'. ((), d')) (tx_positions timed (db w1)) = Inr (x, d)"
    then show "Q x w'" using commit [of timed w'] by (cases "tx_positions timed (db w)") auto
  qed (use reject in auto)
  with False show ?thesis by (simp add: batchUpdatePositions_def wp_simps)
qed

lemma wp_save:
  assumes inv: "db_inv (db w)" and r: "r \<in> set (entries (db w))" and life: "life (toDomain r) e"
    and status: "e_status e = r_status r"
    and commit: "\<And>w'. db_inv (db w') \<Longrightarrow> db_evolves (db w) (db w') \<Longrightarrow> row_replaced e (db w) (db w') \<Longrightarrow>
      assigns (db w') = assigns (db w) \<Longrightarrow> history (db w') = history (db w) \<Longrightarrow> Q () w'"
    and reject: "\<And>err w'. db w' = db w \<Longrightarrow> E err w'"
  shows "wp (save queue_repo e) Q E w"
proof -
  have id: "e_id e = r_id r" using life_identity [OF life] by (simp add: same_identity_def)
  have found: "find_row queue_repo (e_id e) (db w) = Some r"
    using find_row_in [OF db_invD(5) [OF inv] r] id by simp
  show ?thesis
    unfolding save_def Let_def wp_run
  proof (rule wp_db_runI)
    fix x d and w' :: world
    let ?m = "modify_row queue_repo (e_id e) (\<lambda>old. keep_created_row old (toPersistence e)) (db w)"
    assume "(case find_row queue_repo (entity_key queue_repo e) (db w) of
           None \<Rightarrow> map_sum (\<lambda>e. e) (\<lambda>(_, d'). ((), d')) (insert_row queue_repo (to_persistence queue_repo e) (db w))
         | Some _ \<Rightarrow> map_sum (\<lambda>e. e) (\<lambda>(_, d'). ((), d')) (modify_row queue_repo (entity_key queue_repo e)
             (\<lambda>old. keep_created queue_repo old (to_persistence queue_repo e)) (db w))) = Inr (x, d)"
      and d: "db w' = d"
    then obtain r' where m: "?m = Inr (r', d)" using found by (cases ?m) auto
    have ev: "row_evolves r (toPersistence e)" using life by (simp add: row_evolves_def)
    have "at_id (e_id e) (\<lambda>old. keep_created_row old (toPersistence e)) s = at_id (e_id e) (\<lambda>_. toPersistence e) s"
      if "s \<in> set (entries (db w))" for s
      using db_inv_row_eq [OF inv that r] keep_created_evolved [OF ev] id by (auto simp: at_id_def)
    moreover have "d = map_rows (at_id (e_id e) (\<lambda>old. keep_created_row old (toPersistence e))) (db w)"
      using m by (rule modify_row_Inr)
    ultimately have "row_replaced e (db w) d \<and> assigns d = assigns (db w) \<and> history d = history (db w)"
      by (simp add: row_replaced_def map_rows_def)
    with saved_inv [OF inv r life status m] commit d show "Q x w'" by simp
  qed (use reject in auto)
qed

end
