(* ===== verification/Broadcast.thy ===== *)
theory Broadcast
  imports Cache
begin

text \<open>
  \<open>SocketBroadcaster\<close> (\<open>socket-broadcaster.ts\<close>) with the room names and server events of
  \<open>websocket.constants.ts\<close>. A broadcast does nothing when no Socket.IO server is active; otherwise
  the emission is logged in the world, or Socket.IO throws.
\<close>

definition room_restaurant :: "uuid \<Rightarrow> string" where
  "room_restaurant i = ''restaurant:'' @ i"

definition room_restaurantQueue :: "uuid \<Rightarrow> string" where
  "room_restaurantQueue i = ''restaurant:'' @ i @ '':queue''"

definition room_queue :: "uuid \<Rightarrow> string" where
  "room_queue i = ''queue:'' @ i"

definition room_ticket :: "uuid \<Rightarrow> string" where
  "room_ticket i = ''ticket:'' @ i"

definition room_queueEntry :: "uuid \<Rightarrow> string" where
  "room_queueEntry i = ''queue-entry:'' @ i"

definition room_user :: "uuid \<Rightarrow> string" where
  "room_user i = ''user:'' @ i"

definition EV_ENTRY_CREATED :: string where "EV_ENTRY_CREATED = ''QUEUE_ENTRY_CREATED''"
definition EV_ENTRY_SEATED :: string where "EV_ENTRY_SEATED = ''QUEUE_ENTRY_SEATED''"
definition EV_ENTRY_SKIPPED :: string where "EV_ENTRY_SKIPPED = ''QUEUE_ENTRY_SKIPPED''"
definition EV_ENTRY_CANCELLED :: string where "EV_ENTRY_CANCELLED = ''QUEUE_ENTRY_CANCELLED''"
definition EV_ENTRY_NO_SHOW :: string where "EV_ENTRY_NO_SHOW = ''QUEUE_ENTRY_NO_SHOW''"
definition EV_POSITION_UPDATED :: string where "EV_POSITION_UPDATED = ''queue:position-updated''"
definition EV_TICKET_CALLED :: string where "EV_TICKET_CALLED = ''ticket:called''"
definition EV_TICKET_SEATED :: string where "EV_TICKET_SEATED = ''ticket:seated''"

lemmas event_defs = EV_ENTRY_CREATED_def EV_ENTRY_SEATED_def EV_ENTRY_SKIPPED_def
  EV_ENTRY_CANCELLED_def EV_ENTRY_NO_SHOW_def EV_POSITION_UPDATED_def EV_TICKET_CALLED_def
  EV_TICKET_SEATED_def

definition emit :: "string list \<Rightarrow> string \<Rightarrow> ws_data \<Rightarrow> unit io" where
  "emit rooms event data =
     attempt socket_fault (\<lambda>w. w\<lparr> outbox := outbox w @
       [\<lparr> em_rooms = rooms, em_event = event, em_data = data \<rparr>] \<rparr>)"

definition broadcastToRestaurant :: "uuid \<Rightarrow> string \<Rightarrow> ws_data \<Rightarrow> unit io" where
  "broadcastToRestaurant restaurantId event data =
     bindE (ask socket_up) (\<lambda>up.
       if \<not> up then retE ()
       else emit [room_restaurant restaurantId, room_restaurantQueue restaurantId] event data)"

definition broadcastToQueue :: "uuid \<Rightarrow> string \<Rightarrow> ws_data \<Rightarrow> unit io" where
  "broadcastToQueue queueId event data =
     bindE (ask socket_up) (\<lambda>up.
       if \<not> up then retE () else emit [room_queue queueId] event data)"

definition sendToTicket :: "uuid \<Rightarrow> string \<Rightarrow> ws_data \<Rightarrow> unit io" where
  "sendToTicket ticketId event data =
     bindE (ask socket_up) (\<lambda>up.
       if \<not> up then retE () else emit [room_ticket ticketId, room_queueEntry ticketId] event data)"

lemma broadcast_same_db [db_rules]:
  "stays same_db (emit rooms ev d)" "stays same_db (broadcastToRestaurant i ev d)"
  "stays same_db (broadcastToQueue i ev d)" "stays same_db (sendToTicket i ev d)"
proof -
  have e: "stays same_db (emit rooms ev d)" for rooms
    unfolding emit_def by (rule attempt_same_db) simp
  then show "stays same_db (emit rooms ev d)" .
  show "stays same_db (broadcastToRestaurant i ev d)" "stays same_db (broadcastToQueue i ev d)"
    "stays same_db (sendToTicket i ev d)"
    unfolding broadcastToRestaurant_def broadcastToQueue_def sendToTicket_def
    by (intro same_db.stays_rules e db_rules)+
qed

text \<open>Logging an emission that fails, as the guarded broadcasts of the service do.\<close>

definition guarded :: "unit io \<Rightarrow> unit io" where
  "guarded m = catchE m (\<lambda>_. retE ())"

lemma quiet_guarded [intro]: "stays same_db m \<Longrightarrow> quiet (guarded m)"
  unfolding guarded_def by (intro quiet_catchE quiet_retE)

subsection \<open>What an emission adds\<close>

text \<open>The emissions of a list of calls, when the server is up and Socket.IO does not throw.\<close>

lemma broadcastToRestaurant_run:
  assumes "socket_up (ext w) (tick w)" and "socket_fault (ext w) (Suc (tick w)) = None"
  shows "broadcastToRestaurant i ev d w =
    (Inr (), w\<lparr> tick := tick w + 2, outbox := outbox w @
      [\<lparr> em_rooms = [room_restaurant i, room_restaurantQueue i], em_event = ev, em_data = d \<rparr>] \<rparr>)"
  using assms by (simp add: broadcastToRestaurant_def bindE_def ask_def emit_def attempt_def)

lemma sendToTicket_run:
  assumes "socket_up (ext w) (tick w)" and "socket_fault (ext w) (Suc (tick w)) = None"
  shows "sendToTicket i ev d w =
    (Inr (), w\<lparr> tick := tick w + 2, outbox := outbox w @
      [\<lparr> em_rooms = [room_ticket i, room_queueEntry i], em_event = ev, em_data = d \<rparr>] \<rparr>)"
  using assms by (simp add: sendToTicket_def bindE_def ask_def emit_def attempt_def)

end
