(* ===== verification/EtaClient.thy ===== *)
theory EtaClient
  imports Cache
begin

text \<open>
  \<open>MlEtaServiceClient\<close> (\<open>ml-eta-service.client.ts\<close>) with \<open>eta.constants.ts\<close>. The circuit breaker is
  a package: what it decides is read from the environment, what it does with the callbacks of the
  service is written out. The locale \<open>eta_service\<close> is the contract of the port \<open>IEtaService\<close>: a
  prediction never rejects and is never negative.
\<close>

definition BASE_FALLBACK_MINUTES :: int where
  "BASE_FALLBACK_MINUTES = 5"

definition FALLBACK_MINUTES_PER_PERSON :: rat where
  "FALLBACK_MINUTES_PER_PERSON = 5 / 2"

text \<open>\<open>Math.round\<close>: halves round up.\<close>

definition js_round :: "rat \<Rightarrow> int" where
  "js_round x = \<lfloor>x + 1 / 2\<rfloor>"

definition computeFallbackMinutes :: "int \<Rightarrow> int" where
  "computeFallbackMinutes totalPeopleAhead =
     max BASE_FALLBACK_MINUTES (js_round (of_int totalPeopleAhead * FALLBACK_MINUTES_PER_PERSON))"

lemma js_round_half: "js_round (of_int n / 2) = (n + 1) div 2"
proof -
  have "(of_int n / 2 + 1 / 2 :: rat) = of_int (n + 1) / of_int 2" by simp
  then show ?thesis unfolding js_round_def by (metis floor_divide_of_int_eq)
qed

lemma computeFallbackMinutes_eq: "computeFallbackMinutes n = max 5 ((5 * n + 1) div 2)"
proof -
  have "(of_int n * (5 / 2) :: rat) = of_int (5 * n) / 2" by simp
  then show ?thesis
    by (simp only: computeFallbackMinutes_def BASE_FALLBACK_MINUTES_def FALLBACK_MINUTES_PER_PERSON_def
        js_round_half)
qed

lemma computeFallbackMinutes_nonneg [simp]: "0 \<le> computeFallbackMinutes n"
  by (simp add: computeFallbackMinutes_def BASE_FALLBACK_MINUTES_def)

subsection \<open>HTTP requests\<close>

definition http_reject :: "http_failure \<Rightarrow> js_error" where
  "http_reject f = (case f of HttpError st body m \<Rightarrow> AxiosError st body m | Unexpected m \<Rightarrow> PlainError m)"

definition http :: "(env \<Rightarrow> nat \<Rightarrow> http_failure + 'a) \<Rightarrow> 'a io" where
  "http f = bindE (ask f) (\<lambda>r. liftE http_reject r)"

lemma http_same_db [db_rules]: "stays same_db (http f)"
  unfolding http_def by (intro same_db.stays_bindE same_db.stays_liftE db_rules)

subsection \<open>The client\<close>

text \<open>Whether an error counts against the circuit.\<close>

definition eta_checkIsFailure :: "js_error \<Rightarrow> bool" where
  "eta_checkIsFailure err =
     (case err of AxiosError (Some st) _ _ \<Rightarrow> \<not> (st \<noteq> 0 \<and> st < HTTP_INTERNAL_SERVER_ERROR) | _ \<Rightarrow> True)"

text \<open>The reply is the field \<open>estimated_wait_minutes\<close> of the body, where there is one.\<close>

definition callPredictionApi :: "uuid \<Rightarrow> int \<Rightarrow> int \<Rightarrow> int io" where
  "callPredictionApi restaurantId totalPeopleAhead partySize =
     bindE (http (\<lambda>en t. http_eta en t restaurantId totalPeopleAhead partySize)) (\<lambda>data.
       case data of
         Some (JFinite x) \<Rightarrow> retE (max 0 (js_round x))
       | _ \<Rightarrow> retE (computeFallbackMinutes totalPeopleAhead))"

text \<open>
  \<open>breaker.execute\<close> with the fallback of the service: when the circuit is open, the call timed out
  or failed, the breaker either answers with the fallback or rejects. A call that timed out has
  been made.
\<close>

definition or_fallback :: "int \<Rightarrow> js_error \<Rightarrow> int io" where
  "or_fallback totalPeopleAhead err =
     bindE (ask breaker_falls_back) (\<lambda>fallback.
       if fallback then retE (computeFallbackMinutes totalPeopleAhead) else throwE err)"

definition eta_execute :: "uuid \<Rightarrow> int \<Rightarrow> int \<Rightarrow> int io" where
  "eta_execute restaurantId totalPeopleAhead partySize =
     bindE (ask gate_at) (\<lambda>gate.
       case gate of
         Pass \<Rightarrow>
           catchE (callPredictionApi restaurantId totalPeopleAhead partySize)
             (or_fallback totalPeopleAhead)
       | Open \<Rightarrow> or_fallback totalPeopleAhead (CircuitBreakerOpenError ''Circuit is open'')
       | TimedOut limit \<Rightarrow>
           bindE (catchE (bindE (callPredictionApi restaurantId totalPeopleAhead partySize) (\<lambda>_. retE ()))
             (\<lambda>_. retE ())) (\<lambda>_.
           or_fallback totalPeopleAhead (CircuitBreakerTimeoutError limit ''Timed out'')))"

definition predictEta :: "uuid \<Rightarrow> int \<Rightarrow> int \<Rightarrow> int io" where
  "predictEta restaurantId totalPeopleAhead partySize =
     catchE (eta_execute restaurantId totalPeopleAhead partySize)
       (\<lambda>_. retE (computeFallbackMinutes totalPeopleAhead))"

subsection \<open>The contract\<close>

locale eta_service =
  fixes predict :: "uuid \<Rightarrow> int \<Rightarrow> int \<Rightarrow> int io"
  assumes predict_wp: "wp (predict r n p) (\<lambda>eta w'. 0 \<le> eta \<and> db w' = db w) (\<lambda>_ _. False) w"
begin

lemma quiet_predict [simp, intro]: "quiet (predict r n p)"
  unfolding quiet_def by (rule allI, rule wp_mono [OF predict_wp]) auto

lemma predict_same_db: "stays same_db (predict r n p)"
  by (rule quiet_same_db) simp

lemma wp_predict: "(\<And>eta w'. 0 \<le> eta \<Longrightarrow> db w' = db w \<Longrightarrow> Q eta w') \<Longrightarrow> wp (predict r n p) Q E w"
  by (rule wp_mono [OF predict_wp]) auto

text \<open>Predictions for a whole queue: one each, none negative, nothing written.\<close>

lemma wp_predict_all:
  fixes xs :: "'x list"
  assumes "\<And>etas w'. length etas = length xs \<Longrightarrow> (\<forall>e \<in> set etas. 0 \<le> e) \<Longrightarrow> db w' = db w \<Longrightarrow> Q etas w'"
  shows "wp (mapE (\<lambda>x. predict (f x) (g x) (h x)) xs) Q E w"
proof (rule wp_mapE [where I = "\<lambda>ys rest w'. length ys + length rest = length xs
      \<and> (\<forall>e \<in> set ys. 0 \<le> e) \<and> db w' = db w" and zs = "[]"])
  fix ys :: "int list" and x :: 'x and rest :: "'x list" and w' :: world
  assume "length ys + length (x # rest) = length xs \<and> (\<forall>e \<in> set ys. 0 \<le> e) \<and> db w' = db w"
  then show "wp (predict (f x) (g x) (h x)) (\<lambda>y w''. length (ys @ [y]) + length rest = length xs
      \<and> (\<forall>e \<in> set (ys @ [y]). 0 \<le> e) \<and> db w'' = db w) E w'"
    by (intro wp_predict) auto
qed (use assms in auto)

end

lemma or_fallback_wp:
  "wp (or_fallback n err) (\<lambda>eta w'. 0 \<le> eta \<and> db w' = db w) (\<lambda>_ w'. db w' = db w) w"
  by (simp add: or_fallback_def wp_simps)

lemma callPredictionApi_wp:
  "wp (callPredictionApi r n p) (\<lambda>eta w'. 0 \<le> eta \<and> db w' = db w) (\<lambda>_ w'. db w' = db w) w"
  unfolding callPredictionApi_def http_def
  by (auto simp: wp_simps split: sum.split option.split json_field.split)

lemma eta_execute_wp:
  "wp (eta_execute r n p) (\<lambda>eta w'. 0 \<le> eta \<and> db w' = db w) (\<lambda>_ w'. db w' = db w) w"
proof -
  have fb: "db w' = db w \<Longrightarrow> wp (or_fallback n err) (\<lambda>eta w'. 0 \<le> eta \<and> db w' = db w) (\<lambda>_ w'. db w' = db w) w'"
    for err w' using or_fallback_wp [of n err w'] by simp
  have call: "wp (callPredictionApi r n p) Q E w'"
    if "db w' = db w" and "\<And>eta w''. 0 \<le> eta \<Longrightarrow> db w'' = db w \<Longrightarrow> Q eta w''"
      and "\<And>e w''. db w'' = db w \<Longrightarrow> E e w''" for Q E w'
    by (rule wp_mono [OF callPredictionApi_wp]) (use that in auto)
  show ?thesis
    unfolding eta_execute_def
    by (auto simp: wp_simps split: gate.split intro!: call fb)
qed

lemma predictEta_wp: "wp (predictEta r n p) (\<lambda>eta w'. 0 \<le> eta \<and> db w' = db w) (\<lambda>_ _. False) w"
  unfolding predictEta_def wp_simps
  by (rule wp_mono [OF eta_execute_wp]) (auto simp: wp_simps)

interpretation ml_eta: eta_service predictEta
  by unfold_locales (rule predictEta_wp)

lemma predictEta_same_db [db_rules]: "stays same_db (predictEta r n p)"
  by (rule ml_eta.predict_same_db)

end
