(* ===== verification/Recalculator.thy ===== *)
theory Recalculator
  imports RepositoryRules Broadcast EtaClient "HOL-Library.Multiset"
begin

text \<open>
  \<open>QueuePositionRecalculator\<close> (\<open>queue-position-recalculator.service.ts\<close>). The ETA service is a
  parameter, as it is of the constructor; what the recalculation achieves is proved under the
  contract of the port, in the context of \<open>eta_service\<close>, and holds for the ML client by its
  interpretation. The updates the loop makes to the loaded entities are never read again, so
  only the deltas it collects are modelled. Predictions run one after the other.
\<close>

record entry_input =
  in_entry :: queue_entry
  in_newPosition :: int
  in_peopleAhead :: int

record position_delta =
  pd_id :: uuid
  pd_oldPosition :: "int option"
  pd_newPosition :: int
  pd_oldEta :: "int option"
  pd_newEta :: int
  pd_partySize :: int

record recalculation_result =
  affectedCount :: nat
  updatedEntryIds :: "uuid list"

fun entry_inputs :: "nat \<Rightarrow> int \<Rightarrow> queue_entry list \<Rightarrow> entry_input list" where
  "entry_inputs i runningPeopleAhead [] = []"
| "entry_inputs i runningPeopleAhead (e # es) =
     \<lparr> in_entry = e, in_newPosition = int i + 1, in_peopleAhead = runningPeopleAhead \<rparr>
     # entry_inputs (Suc i) (runningPeopleAhead + e_partySize e) es"

definition delta_of :: "entry_input \<times> int \<Rightarrow> position_delta option" where
  "delta_of item =
     (let entry = in_entry (fst item); newPosition = in_newPosition (fst item);
          predictedEta = snd item;
          positionChanged = (e_position entry \<noteq> Some newPosition);
          etaChanged = (e_estimatedWaitMinutes entry \<noteq> Some predictedEta)
      in if positionChanged \<or> etaChanged
         then Some \<lparr> pd_id = e_id entry, pd_oldPosition = e_position entry,
                     pd_newPosition = newPosition, pd_oldEta = e_estimatedWaitMinutes entry,
                     pd_newEta = predictedEta, pd_partySize = e_partySize entry \<rparr>
         else None)"

definition deltas_of :: "entry_input list \<Rightarrow> int list \<Rightarrow> position_delta list" where
  "deltas_of inputs predictedEtas = List.map_filter delta_of (zip inputs predictedEtas)"

definition delta_update :: "position_delta \<Rightarrow> position_update" where
  "delta_update d = \<lparr> pu_id = pd_id d, pu_position = Some (pd_newPosition d),
     pu_estimatedWaitMinutes = Some (Some (pd_newEta d)) \<rparr>"

definition save_live_deltas :: "uuid \<Rightarrow> position_delta list \<Rightarrow> unit list io" where
  "save_live_deltas restaurantId deltas =
     mapE (\<lambda>d. guarded (saveLiveEntry (pd_id d) restaurantId (pd_newPosition d) (pd_newEta d))) deltas"

definition notify_tickets :: "uuid \<Rightarrow> position_delta list \<Rightarrow> unit list io" where
  "notify_tickets restaurantId deltas =
     mapE (\<lambda>d. guarded (sendToTicket (pd_id d) EV_POSITION_UPDATED
       \<lparr> d_event = EV_POSITION_UPDATED,
         d_body = P_position (pd_id d) restaurantId (pd_newPosition d) (pd_newEta d) \<rparr>)) deltas"

definition notify_restaurant :: "uuid \<Rightarrow> position_delta list \<Rightarrow> unit io" where
  "notify_restaurant restaurantId deltas =
     guarded (broadcastToRestaurant restaurantId EV_POSITION_UPDATED
       \<lparr> d_event = EV_POSITION_UPDATED,
         d_body = P_positions restaurantId
           (map (\<lambda>d. (pd_id d, pd_newPosition d, pd_newEta d)) deltas) \<rparr>)"

definition recalculate ::
  "(uuid \<Rightarrow> int \<Rightarrow> int \<Rightarrow> int io) \<Rightarrow> uuid \<Rightarrow> recalculation_result io" where
  "recalculate predict restaurantId =
     bindE (findActiveEntries restaurantId) (\<lambda>activeEntries.
     if activeEntries = [] then retE \<lparr> affectedCount = 0, updatedEntryIds = [] \<rparr>
     else
       bindE (mapE (\<lambda>item. predict restaurantId (in_peopleAhead item) (e_partySize (in_entry item)))
         (entry_inputs 0 0 activeEntries)) (\<lambda>predictedEtas.
       let deltas = deltas_of (entry_inputs 0 0 activeEntries) predictedEtas
       in if deltas = [] then retE \<lparr> affectedCount = 0, updatedEntryIds = [] \<rparr>
          else
            bindE (batchUpdatePositions (map delta_update deltas)) (\<lambda>_.
            bindE (save_live_deltas restaurantId deltas) (\<lambda>_.
            bindE (notify_tickets restaurantId deltas) (\<lambda>_.
            bindE (notify_restaurant restaurantId deltas) (\<lambda>_.
            retE \<lparr> affectedCount = length deltas, updatedEntryIds = map pd_id deltas \<rparr>))))))"

subsection \<open>The inputs of the predictions\<close>

lemma length_entry_inputs [simp]: "length (entry_inputs k n es) = length es"
  by (induction es arbitrary: k n) simp_all

lemma entry_inputs_nth:
  "i < length es \<Longrightarrow> entry_inputs k n es ! i =
     \<lparr> in_entry = es ! i, in_newPosition = int (k + i) + 1,
       in_peopleAhead = n + sum_list (map e_partySize (take i es)) \<rparr>"
proof (induction es arbitrary: k n i)
  case Nil
  then show ?case by simp
next
  case (Cons e es)
  then show ?case by (cases i) simp_all
qed

subsection \<open>The deltas\<close>

lemma set_map_filter: "set (List.map_filter f xs) = {y. \<exists>x \<in> set xs. f x = Some y}"
  by (induction xs) (auto simp: map_filter_simps split: option.splits)

lemma set_deltas_of:
  "length etas = length es \<Longrightarrow> set (deltas_of (entry_inputs 0 0 es) etas) =
     {d. \<exists>i < length es. delta_of (entry_inputs 0 0 es ! i, etas ! i) = Some d}"
  by (auto simp: deltas_of_def set_map_filter set_zip)

lemma delta_of_None:
  "delta_of (x, eta) = None \<longleftrightarrow>
     e_position (in_entry x) = Some (in_newPosition x) \<and> e_estimatedWaitMinutes (in_entry x) = Some eta"
  by (simp add: delta_of_def Let_def)

lemma delta_of_Some:
  "delta_of (x, eta) = Some d \<Longrightarrow>
     pd_id d = e_id (in_entry x) \<and> pd_newPosition d = in_newPosition x \<and> pd_newEta d = eta"
  by (auto simp: delta_of_def Let_def split: if_splits)

lemma distinct_deltas:
  "distinct (map e_id es) \<Longrightarrow> distinct (map pd_id (deltas_of (entry_inputs k n es) etas))"
proof (induction es arbitrary: k n etas)
  case Nil
  then show ?case by (simp add: deltas_of_def List.map_filter_def)
next
  case (Cons e es)
  have sub: "pd_id ` set (deltas_of (entry_inputs k n es) etas) \<subseteq> e_id ` set es" for k n etas es
  proof
    fix x assume "x \<in> pd_id ` set (deltas_of (entry_inputs k n es) etas)"
    then obtain i eta d where "i < length es" and "delta_of (entry_inputs k n es ! i, eta) = Some d" "x = pd_id d"
      by (auto simp: deltas_of_def set_map_filter set_zip)
    then show "x \<in> e_id ` set es"
      by (auto simp: entry_inputs_nth dest!: delta_of_Some)
  qed
  show ?case
  proof (cases etas)
    case Nil
    then show ?thesis by (simp add: deltas_of_def List.map_filter_def)
  next
    case (Cons eta rest)
    let ?x = "\<lparr> in_entry = e, in_newPosition = int k + 1, in_peopleAhead = n \<rparr>"
    have step: "deltas_of (entry_inputs k n (e # es)) etas =
        (case delta_of (?x, eta) of None \<Rightarrow> [] | Some d \<Rightarrow> [d])
          @ deltas_of (entry_inputs (Suc k) (n + e_partySize e) es) rest"
      using Cons by (simp add: deltas_of_def map_filter_simps split: option.split)
    show ?thesis
      using Cons.IH [of "Suc k" "n + e_partySize e" rest] Cons.prems
        sub [of "Suc k" "n + e_partySize e" es rest] delta_of_Some [of ?x eta]
      unfolding step by (auto split: option.split)
  qed
qed

text \<open>The entries after the updates a round of predictions makes to them.\<close>

definition updated_entries :: "millis \<Rightarrow> queue_entry list \<Rightarrow> int list \<Rightarrow> queue_entry list" where
  "updated_entries t es etas =
     map (\<lambda>(item, eta). updatePosition t (in_newPosition item) (Some (Some eta)) (in_entry item))
       (zip (entry_inputs 0 0 es) etas)"

lemma map_filter_Nil: "(\<And>x. x \<in> set xs \<Longrightarrow> f x = None) \<Longrightarrow> List.map_filter f xs = []"
  by (induction xs) (simp_all add: map_filter_simps)

lemma no_deltas_after_update:
  assumes "\<forall>e \<in> set es. e_status e = WAITING"
  shows "deltas_of (entry_inputs 0 0 (updated_entries t es etas)) etas = []"
proof -
  let ?us = "updated_entries t es etas"
  have "delta_of (x, eta) = None" if "(x, eta) \<in> set (zip (entry_inputs 0 0 ?us) etas)" for x eta
  proof -
    from that obtain i where i: "i < length ?us" "i < length etas" "x = entry_inputs 0 0 ?us ! i" "eta = etas ! i"
      by (auto simp: set_zip)
    then have "i < length es" by (simp add: updated_entries_def)
    with i assms show ?thesis
      by (simp add: delta_of_None entry_inputs_nth) (simp add: updated_entries_def entry_inputs_nth updatePosition_eq)
  qed
  then show ?thesis unfolding deltas_of_def by (intro map_filter_Nil) auto
qed

subsection \<open>What a recalculation achieves\<close>

text \<open>The waiting entries of a restaurant hold the positions 1, 2, 3, \dots in their order.\<close>

definition contiguous :: "uuid \<Rightarrow> database \<Rightarrow> bool" where
  "contiguous rid d \<longleftrightarrow>
     map r_position (active_rows rid d) = map (\<lambda>i. Some (int i + 1)) [0..<length (active_rows rid d)]"

definition queue_ids :: "uuid \<Rightarrow> database \<Rightarrow> uuid list" where
  "queue_ids rid d = map r_id (active_rows rid d)"

definition others_kept :: "uuid \<Rightarrow> database \<Rightarrow> database \<Rightarrow> bool" where
  "others_kept rid d d' \<longleftrightarrow>
     filter (\<lambda>r. \<not> waiting_at rid r) (entries d') = filter (\<lambda>r. \<not> waiting_at rid r) (entries d) \<and>
     assigns d' = assigns d \<and> history d' = history d"

definition recalculated :: "uuid \<Rightarrow> database \<Rightarrow> database \<Rightarrow> bool" where
  "recalculated rid d d' \<longleftrightarrow>
     contiguous rid d' \<and> queue_ids rid d' = queue_ids rid d \<and> others_kept rid d d'"

lemma set_active_rows: "set (active_rows rid d) = {r \<in> set (entries d). waiting_at rid r}"
  by (simp add: active_rows_def)

lemma apply_position_rest [simp]: "r_restaurantId (apply_position u t r) = r_restaurantId r"
  by (simp add: apply_position_def Let_def split: option.splits)

lemma apply_updates_waiting [simp]: "waiting_at rid (apply_updates us r) \<longleftrightarrow> waiting_at rid r"
  by (simp add: apply_updates_def waiting_at_def split: option.splits prod.splits)

lemma apply_updates_id [simp]: "r_id (apply_updates us r) = r_id r"
  by (simp add: apply_updates_def split: option.splits prod.splits)

lemma apply_position_position [simp]: "r_position (apply_position u t r) = pu_position u"
  by (simp add: apply_position_def Let_def split: option.splits)

lemma inj_on_set_nth:
  "(\<And>i j. i < length ys \<Longrightarrow> j < length ys \<Longrightarrow> k (ys ! i) = k (ys ! j) \<Longrightarrow> i = j) \<Longrightarrow> inj_on k (set ys)"
  by (rule inj_onI) (metis in_set_conv_nth)

text \<open>Rows that get their index as position are in order again, whatever order they had.\<close>

lemma active_rows_renumbered:
  assumes "entries d' = map f (entries d)" and "\<And>r. r \<in> set (entries d) \<Longrightarrow> waiting_at rid (f r) \<longleftrightarrow> waiting_at rid r"
    and perm: "mset ys = mset (active_rows rid d)"
    and pos: "\<And>i. i < length ys \<Longrightarrow> r_position (f (ys ! i)) = Some (int i + 1)"
  shows "active_rows rid d' = map f ys"
proof -
  let ?a = ys
  let ?xs = "map f (filter (waiting_at rid) (entries d))"
  have "active_rows rid d' = sort_key queue_order ?xs"
    using assms(1,2) by (simp add: active_rows_def filter_map comp_def cong: filter_cong)
  also have "\<dots> = map f ?a"
  proof (rule sort_key_inj_key_eq)
    show ms: "mset ?xs = mset (map f ?a)" by (simp add: perm) (simp add: active_rows_def)
    have order: "queue_order (map f ?a ! i) = (Value (int i + 1), r_joinedAt (map f ?a ! i))"
      if "i < length ?a" for i
      using pos [OF that] that by (simp add: queue_order_def nulls_last_def)
    have "i = j" if "i < length (map f ?a)" "j < length (map f ?a)"
      "queue_order (map f ?a ! i) = queue_order (map f ?a ! j)" for i j
      using order [of i] order [of j] that by simp
    then have "inj_on queue_order (set (map f ?a))" by (rule inj_on_set_nth)
    with ms show "inj_on queue_order (set ?xs)" by (metis mset_eq_setD)
    show "sorted (map queue_order (map f ?a))"
      unfolding sorted_iff_nth_mono_less
    proof (intro allI impI)
      fix i j assume "i < j" "j < length (map queue_order (map f ?a))"
      then show "map queue_order (map f ?a) ! i \<le> map queue_order (map f ?a) ! j"
        using order [of i] order [of j] by (simp add: less_eq_prod_def less_nulls_last_def)
    qed
  qed
  finally show ?thesis .
qed

lemma recalculation_correct:
  assumes inv: "db_inv d" and len: "length etas = length (active_rows rid d)"
    and timed: "map fst timed = map delta_update (deltas_of (entry_inputs 0 0 (map toDomain (active_rows rid d))) etas)"
    and run: "tx_positions timed d = Inr d'"
  shows "recalculated rid d d'" and "db_inv d'" and "db_evolves d d'"
proof -
  let ?a = "active_rows rid d" and ?es = "map toDomain (active_rows rid d)"
  let ?ds = "deltas_of (entry_inputs 0 0 ?es) etas"
  have sub: "set ?a \<subseteq> set (entries d)" by (auto simp: set_active_rows)
  have "distinct (map r_id (filter (waiting_at rid) (entries d)))"
    using db_invD(5) [OF inv] by (simp add: distinct_map_filter)
  then have ids_a: "distinct (map r_id ?a)"
    by (simp add: active_rows_def distinct_map)
  have ids: "distinct (map (\<lambda>(u, t). pu_id u) timed)"
  proof -
    from ids_a have "distinct (map pd_id ?ds)" by (intro distinct_deltas) (simp add: comp_def)
    moreover have "map (\<lambda>(u, t). pu_id u) timed = map pu_id (map fst timed)" by (simp add: case_prod_unfold)
    ultimately show ?thesis by (simp add: timed delta_update_def comp_def)
  qed
  let ?f = "apply_updates timed"
  have d': "d' = map_rows ?f d" by (rule tx_positions_closed [OF ids run])
  have of_timed: "\<exists>i < length ?a. pu_id u = r_id (?a ! i) \<and> pu_position u = Some (int i + 1)"
    if "(u, t) \<in> set timed" for u t
  proof -
    have "u \<in> set (map delta_update ?ds)" using that timed by (metis fst_conv image_eqI set_map)
    then obtain i dl where "i < length ?a" "delta_of (entry_inputs 0 0 ?es ! i, etas ! i) = Some dl"
      "u = delta_update dl"
      using set_deltas_of [of etas ?es] len by auto
    then show ?thesis
      by (intro exI [of _ i]) (auto simp: entry_inputs_nth delta_update_def dest!: delta_of_Some)
  qed
  have safe: "update_safe d u" if "(u, t) \<in> set timed" for u t
  proof -
    from of_timed [OF that] obtain i where i: "i < length ?a" "pu_id u = r_id (?a ! i)" "pu_position u \<noteq> None"
      by auto
    have "?a ! i \<in> set (entries d)" and "r_status (?a ! i) = WAITING"
      using nth_mem [OF i(1)] by (auto simp: set_active_rows waiting_at_def)
    then show ?thesis
      using i db_inv_row_eq [OF inv] unfolding update_safe_def by metis
  qed
  then show "db_inv d'" and "db_evolves d d'"
    using tx_positions_inv [OF inv _ run] by auto
  have pos: "r_position (?f (?a ! i)) = Some (int i + 1)" if i: "i < length ?a" for i
  proof (cases "find (\<lambda>(u, t). pu_id u = r_id (?a ! i)) timed")
    case None
    have "delta_of (entry_inputs 0 0 ?es ! i, etas ! i) = None"
    proof (rule ccontr)
      assume "\<not> ?thesis"
      then obtain dl where dl: "delta_of (entry_inputs 0 0 ?es ! i, etas ! i) = Some dl" by auto
      then have "dl \<in> set ?ds" using set_deltas_of [of etas ?es] len i by auto
      then have "delta_update dl \<in> set (map fst timed)" by (simp add: timed)
      then obtain t where "(delta_update dl, t) \<in> set timed" by auto
      with None dl i show False
        by (auto simp: find_None_iff delta_update_def entry_inputs_nth dest!: delta_of_Some)
    qed
    with None i show ?thesis by (simp add: delta_of_None entry_inputs_nth apply_updates_def)
  next
    case (Some ut)
    obtain u t where ut: "ut = (u, t)" by (cases ut)
    with Some have u: "(u, t) \<in> set timed" "pu_id u = r_id (?a ! i)" by (auto dest: find_Some_D)
    from of_timed [OF u(1)] obtain j where j: "j < length ?a" "pu_id u = r_id (?a ! j)" "pu_position u = Some (int j + 1)"
      by auto
    with u(2) i ids_a have "i = j" by (simp add: distinct_conv_nth) metis
    with j Some ut show ?thesis by (simp add: apply_updates_def)
  qed
  have act: "active_rows rid d' = map ?f ?a"
    by (rule active_rows_renumbered [OF _ _ refl pos]) (simp_all add: d' map_rows_def)
  have "contiguous rid d'"
    unfolding contiguous_def act by (rule nth_equalityI) (use pos in simp_all)
  moreover have "queue_ids rid d' = queue_ids rid d" by (simp add: queue_ids_def act)
  moreover have "others_kept rid d d'"
  proof -
    have "?f r = r" if "r \<in> set (entries d)" "\<not> waiting_at rid r" for r
    proof -
      have "pu_id u \<noteq> r_id r" if ut: "(u, t) \<in> set timed" for u t
      proof
        assume "pu_id u = r_id r"
        with of_timed [OF ut] obtain i where "i < length ?a" "r_id r = r_id (?a ! i)" by metis
        then have "r \<in> set ?a"
          using db_inv_row_eq [OF inv \<open>r \<in> set (entries d)\<close>, of "?a ! i"] nth_mem sub by (metis subsetD)
        with \<open>\<not> waiting_at rid r\<close> show False by (simp add: set_active_rows)
      qed
      then have "find (\<lambda>(u, t). pu_id u = r_id r) timed = None" by (auto simp: find_None_iff)
      then show ?thesis by (simp add: apply_updates_def)
    qed
    then have "map ?f (filter (\<lambda>r. \<not> waiting_at rid r) (entries d)) = filter (\<lambda>r. \<not> waiting_at rid r) (entries d)"
      by (intro map_idI) auto
    then show ?thesis by (simp add: others_kept_def d' map_rows_def filter_map comp_def)
  qed
  ultimately show "recalculated rid d d'" by (simp add: recalculated_def)
qed

lemma recalculated_refl:
  assumes "contiguous rid d"
  shows "recalculated rid d d"
  using assms by (simp add: recalculated_def others_kept_def)

lemma contiguous_empty: "active_rows rid d = [] \<Longrightarrow> contiguous rid d"
  by (simp add: contiguous_def)

lemma no_deltas_contiguous:
  assumes len: "length etas = length (active_rows rid d)"
    and none: "deltas_of (entry_inputs 0 0 (map toDomain (active_rows rid d))) etas = []"
  shows "contiguous rid d"
  unfolding contiguous_def
proof (rule nth_equalityI)
  let ?es = "map toDomain (active_rows rid d)"
  fix i assume i: "i < length (map r_position (active_rows rid d))"
  have "delta_of (entry_inputs 0 0 ?es ! i, etas ! i) = None"
    using set_deltas_of [of etas ?es] len none i by (cases "delta_of (entry_inputs 0 0 ?es ! i, etas ! i)") auto
  with i show "map r_position (active_rows rid d) ! i = map (\<lambda>i. Some (int i + 1)) [0..<length (active_rows rid d)] ! i"
    by (simp add: delta_of_None entry_inputs_nth)
qed simp

subsection \<open>The recalculation under the contract of the ETA service\<close>

lemma quiet_notifications [simp, intro]:
  "quiet (save_live_deltas rid ds)" "quiet (notify_tickets rid ds)" "quiet (notify_restaurant rid ds)"
  unfolding save_live_deltas_def notify_tickets_def notify_restaurant_def
  by (intro quiet_mapE quiet_guarded db_rules quiet_saveLiveEntry)+

context eta_service
begin

lemma recalculate_wp:
  assumes inv: "db_inv (db w)"
    and commit: "\<And>res w'. db_inv (db w') \<Longrightarrow> db_evolves (db w) (db w') \<Longrightarrow> recalculated rid (db w) (db w') \<Longrightarrow> Q res w'"
    and reject: "\<And>e w'. db w' = db w \<Longrightarrow> E e w'"
  shows "wp (recalculate predict rid) Q E w"
  unfolding recalculate_def wp_bindE
proof (rule wp_findActiveEntries)
  fix w1 :: world
  let ?d = "db w" and ?a = "active_rows rid (db w)"
  let ?es = "map toDomain ?a"
  assume w1: "db w1 = ?d"
  have same: "Q res w'" if "contiguous rid ?d" "db w' = ?d" for res w'
    using commit [of w' res] that inv recalculated_refl by simp
  show "wp (if ?es = [] then retE \<lparr> affectedCount = 0, updatedEntryIds = [] \<rparr>
     else bindE (mapE (\<lambda>item. predict rid (in_peopleAhead item) (e_partySize (in_entry item))) (entry_inputs 0 0 ?es))
      (\<lambda>etas. let deltas = deltas_of (entry_inputs 0 0 ?es) etas
        in if deltas = [] then retE \<lparr> affectedCount = 0, updatedEntryIds = [] \<rparr>
           else bindE (batchUpdatePositions (map delta_update deltas)) (\<lambda>_.
              bindE (save_live_deltas rid deltas) (\<lambda>_.
              bindE (notify_tickets rid deltas) (\<lambda>_.
              bindE (notify_restaurant rid deltas) (\<lambda>_.
              retE \<lparr> affectedCount = length deltas, updatedEntryIds = map pd_id deltas \<rparr>)))))) Q E w1"
  proof (cases "?es = []")
    case True
    then show ?thesis using same [OF contiguous_empty w1] by (simp add: wp_simps)
  next
    case False
    show ?thesis
      unfolding if_not_P [OF False] wp_bindE
    proof (rule wp_predict_all)
      fix etas :: "int list" and w2 :: world
      assume "length etas = length (entry_inputs 0 0 ?es)" and "db w2 = db w1"
      then have len: "length etas = length ?a" and w2: "db w2 = ?d" using w1 by simp_all
      let ?ds = "deltas_of (entry_inputs 0 0 ?es) etas"
      show "wp (let deltas = ?ds
        in if deltas = [] then retE \<lparr> affectedCount = 0, updatedEntryIds = [] \<rparr>
           else bindE (batchUpdatePositions (map delta_update deltas)) (\<lambda>_.
              bindE (save_live_deltas rid deltas) (\<lambda>_.
              bindE (notify_tickets rid deltas) (\<lambda>_.
              bindE (notify_restaurant rid deltas) (\<lambda>_.
              retE \<lparr> affectedCount = length deltas, updatedEntryIds = map pd_id deltas \<rparr>))))) Q E w2"
      proof (cases "?ds = []")
        case True
        then show ?thesis using same [OF no_deltas_contiguous [OF len True] w2] by (simp add: wp_simps)
      next
        case False
        show ?thesis
          unfolding Let_def if_not_P [OF False] wp_bindE
        proof (rule wp_batchUpdatePositions)
          fix timed and w3 :: world
          assume timed: "map fst timed = map delta_update ?ds" and run: "tx_positions timed (db w2) = Inr (db w3)"
          note ok = recalculation_correct [OF inv len timed run [unfolded w2]]
          show "wp (save_live_deltas rid ?ds) (\<lambda>_. wp (notify_tickets rid ?ds) (\<lambda>_. wp (notify_restaurant rid ?ds)
            (\<lambda>_. wp (retE \<lparr> affectedCount = length ?ds, updatedEntryIds = map pd_id ?ds \<rparr>) Q E) E) E) E w3"
            by (intro wp_quiet [OF quiet_notifications(1)] wp_quiet [OF quiet_notifications(2)]
                wp_quiet [OF quiet_notifications(3)]) (use ok commit in \<open>simp add: wp_simps\<close>)
        qed (use reject w2 in simp)
      qed
    qed
  qed
qed (use reject in simp)

lemma recalculate_ok_step: "stays ok_step (recalculate predict rid)"
  unfolding stays_wp
proof
  fix w
  show "wp (recalculate predict rid) (\<lambda>_. ok_step w) (\<lambda>_. ok_step w) w"
  proof (cases "db_inv (db w)")
    case True
    then show ?thesis by (rule recalculate_wp) (simp_all add: ok_step_def db_step_def True)
  next
    case False
    then show ?thesis by (simp add: wp_def ok_step_def db_step_def split: prod.split sum.split)
  qed
qed

end

end
