(* ===== verification/RestaurantClient.thy ===== *)
theory RestaurantClient
  imports EtaClient
begin

text \<open>
  \<open>RestaurantServiceClient\<close> (\<open>restaurant-service.client.ts\<close>): the circuit breaker around every call,
  the classification of errors, and the four operations. What the requests look like is in
  \<open>Clients\<close>. A request that changes tables is logged in the world when it is sent, whatever comes
  back. The locale \<open>restaurant_client\<close> is the contract of the port \<open>IRestaurantServiceClient\<close>.
\<close>

subsection \<open>The circuit breaker\<close>

text \<open>Whether an error counts against the circuit.\<close>

definition restaurant_checkIsFailure :: "js_error \<Rightarrow> bool" where
  "restaurant_checkIsFailure err =
     (case err of
        DomainError (RestaurantNotFoundError _) \<Rightarrow> False
      | DomainError (UpstreamServiceUnavailableError _ statusCode) \<Rightarrow>
          (case statusCode of
             Some n \<Rightarrow> \<not> (HTTP_BAD_REQUEST \<le> n \<and> n < HTTP_INTERNAL_SERVER_ERROR)
           | None \<Rightarrow> True)
      | DomainError _ \<Rightarrow> False
      | AxiosError (Some n) _ _ \<Rightarrow>
          n \<noteq> HTTP_NOT_FOUND \<and> \<not> (HTTP_BAD_REQUEST \<le> n \<and> n < HTTP_INTERNAL_SERVER_ERROR)
      | _ \<Rightarrow> True)"

definition breaker_execute :: "'a io \<Rightarrow> 'a io" where
  "breaker_execute operation =
     bindE (ask gate_at) (\<lambda>gate.
       case gate of
         Pass \<Rightarrow> operation
       | Open \<Rightarrow> throwE (CircuitBreakerOpenError ''Circuit is open'')
       | TimedOut limit \<Rightarrow>
           bindE (catchE (bindE operation (\<lambda>_. retE ())) (\<lambda>_. retE ())) (\<lambda>_.
           throwE (CircuitBreakerTimeoutError limit ''Timed out'')))"

definition executeWithBreaker :: "'a io \<Rightarrow> 'a io" where
  "executeWithBreaker operation =
     catchE (breaker_execute operation) (\<lambda>error.
       case error of
         CircuitBreakerOpenError _ \<Rightarrow>
           throwE (DomainError (UpstreamServiceUnavailableError
             ''Restaurant service is temporarily unavailable (circuit open)''
             (Some HTTP_SERVICE_UNAVAILABLE)))
       | CircuitBreakerTimeoutError timeoutMs _ \<Rightarrow>
           bindE (ask_cfg cfg_timeoutMs) (\<lambda>configured.
           throwE (DomainError (UpstreamServiceUnavailableError
             (''Restaurant service timed out after '' @ show_int (nullish timeoutMs configured) @ ''ms'')
             (Some HTTP_SERVICE_UNAVAILABLE))))
       | _ \<Rightarrow> throwE error)"

subsection \<open>Classification of errors\<close>

definition upstream_code :: "nat option \<Rightarrow> nat" where
  "upstream_code st =
     (case st of
        Some n \<Rightarrow> if n \<noteq> 0 \<and> HTTP_BAD_REQUEST \<le> n \<and> n < HTTP_INTERNAL_SERVER_ERROR then n
                  else HTTP_SERVICE_UNAVAILABLE
      | None \<Rightarrow> HTTP_SERVICE_UNAVAILABLE)"

text \<open>The \<open>catch\<close> block of the four operations; they differ in the prefix of a message.\<close>

definition classify_error :: "uuid \<Rightarrow> string \<Rightarrow> js_error \<Rightarrow> js_error" where
  "classify_error restaurantId prefix error =
     (case error of
        DomainError _ \<Rightarrow> error
      | AxiosError st body message \<Rightarrow>
          if st = Some HTTP_NOT_FOUND then DomainError (RestaurantNotFoundError restaurantId)
          else DomainError (UpstreamServiceUnavailableError
            (or_else body (prefix @ '': '' @ message)) (Some (upstream_code st)))
      | _ \<Rightarrow> DomainError (UpstreamServiceUnavailableError
            ''Unexpected error communicating with restaurant service'' None))"

text \<open>The envelope must report success and, where data is wanted, carry it.\<close>

definition envelope_message :: "'a envelope option \<Rightarrow> string option" where
  "envelope_message r = (case r of None \<Rightarrow> None | Some env \<Rightarrow> env_message env)"

definition open_envelope :: "string \<Rightarrow> 'a envelope option \<Rightarrow> 'a io" where
  "open_envelope default_message r =
     (case r of
        Some env \<Rightarrow>
          (case (env_success env, env_data env) of
             (Some True, Some x) \<Rightarrow> retE x
           | _ \<Rightarrow> throwE (DomainError (UpstreamServiceUnavailableError
                   (or_else (env_message env) default_message) None)))
      | None \<Rightarrow> throwE (DomainError (UpstreamServiceUnavailableError default_message None)))"

definition check_envelope :: "string \<Rightarrow> 'a envelope option \<Rightarrow> unit io" where
  "check_envelope default_message r =
     (if (case r of Some env \<Rightarrow> env_success env = Some True | None \<Rightarrow> False) then retE ()
      else throwE (DomainError (UpstreamServiceUnavailableError
        (or_else (envelope_message r) default_message) None)))"

subsection \<open>The operations\<close>

definition log_upstream :: "upstream_call \<Rightarrow> unit io" where
  "log_upstream c w = (Inr (), w\<lparr> upstream := upstream w @ [c] \<rparr>)"

definition getRestaurantStatus :: "uuid \<Rightarrow> status_result io" where
  "getRestaurantStatus restaurantId =
     executeWithBreaker (catchE
       (bindE (http (\<lambda>en t. http_status en t restaurantId)) (\<lambda>response.
        open_envelope ''Failed to retrieve restaurant validation status'' response))
       (\<lambda>error. throwE (classify_error restaurantId ''Restaurant service validation failed'' error)))"

definition checkAvailability :: "uuid \<Rightarrow> int \<Rightarrow> availability_result io" where
  "checkAvailability restaurantId partySize =
     bindE (ask_cfg cfg_useMock) (\<lambda>useMock.
       if useMock then
         retE \<lparr> av_restaurantId = restaurantId, av_isOpen = True, av_acceptsQueue = True,
                av_isTableAvailable = False, av_availableCount = 0 \<rparr>
       else
         executeWithBreaker (catchE
           (bindE (http (\<lambda>en t. http_availability en t restaurantId partySize)) (\<lambda>response.
            open_envelope ''Failed to retrieve table availability status'' response))
           (\<lambda>error. throwE (classify_error restaurantId ''Restaurant table check failed'' error))))"

definition assignTables :: "uuid \<Rightarrow> assign_item list \<Rightarrow> unit io" where
  "assignTables restaurantId tables =
     executeWithBreaker (catchE
       (bindE (log_upstream (AssignTables restaurantId tables)) (\<lambda>_.
        bindE (http (\<lambda>en t. http_assign en t restaurantId tables)) (\<lambda>response.
        check_envelope ''Failed to assign tables upstream'' response)))
       (\<lambda>error. throwE (classify_error restaurantId ''Restaurant table assignment failed'' error)))"

definition releaseTables :: "uuid \<Rightarrow> release_item list \<Rightarrow> unit io" where
  "releaseTables restaurantId tables =
     executeWithBreaker (catchE
       (bindE (log_upstream (ReleaseTables restaurantId tables)) (\<lambda>_.
        bindE (http (\<lambda>en t. http_release en t restaurantId tables)) (\<lambda>response.
        check_envelope ''Failed to release tables upstream'' response)))
       (\<lambda>error. throwE (classify_error restaurantId ''Restaurant table release failed'' error)))"

subsection \<open>The contract\<close>

text \<open>
  The errors the client lets out: the restaurant asked about is unknown, or the service is unavailable,
  with no status, 503, or a client error status of the upstream service other than 404.
\<close>

definition upstream_rejection :: "uuid \<Rightarrow> js_error \<Rightarrow> bool" where
  "upstream_rejection restaurantId e =
     (case e of
        DomainError (RestaurantNotFoundError i) \<Rightarrow> i = restaurantId
      | DomainError (UpstreamServiceUnavailableError _ st) \<Rightarrow>
          (case st of None \<Rightarrow> True | Some n \<Rightarrow> n = 503 \<or> 400 \<le> n \<and> n < 500 \<and> n \<noteq> 404)
      | _ \<Rightarrow> False)"

lemma upstream_rejection_simps [simp]:
  "upstream_rejection r (DomainError (RestaurantNotFoundError i)) \<longleftrightarrow> i = r"
  "upstream_rejection r (DomainError (UpstreamServiceUnavailableError m st)) \<longleftrightarrow>
     (case st of None \<Rightarrow> True | Some n \<Rightarrow> n = 503 \<or> 400 \<le> n \<and> n < 500 \<and> n \<noteq> 404)"
  by (simp_all add: upstream_rejection_def)

text \<open>A call of the client: the database stays, and only these errors come out.\<close>

definition client_call :: "uuid \<Rightarrow> 'a io \<Rightarrow> bool" where
  "client_call r m \<longleftrightarrow>
     (\<forall>w. wp m (\<lambda>_ w'. db w' = db w) (\<lambda>e w'. db w' = db w \<and> upstream_rejection r e) w)"

lemma client_call_same_db [db_rules]: "client_call r m \<Longrightarrow> stays same_db m"
  unfolding client_call_def stays_wp same_db_def by (blast intro: wp_mono)

lemma wp_client_call:
  assumes "client_call r m" and "\<And>x w'. db w' = db w \<Longrightarrow> Q x w'"
    and "\<And>e w'. db w' = db w \<Longrightarrow> upstream_rejection r e \<Longrightarrow> E e w'"
  shows "wp m Q E w"
  using assms unfolding client_call_def by (blast intro: wp_mono)

text \<open>
  A call that writes nothing, and returns or rejects with one of these errors, which the service answers
  with a client error or 503.
\<close>

definition rejects_safely :: "uuid \<Rightarrow> 'a io \<Rightarrow> world \<Rightarrow> bool" where
  "rejects_safely restaurantId m w \<longleftrightarrow>
     (case m w of
        (Inr _, w') \<Rightarrow> db w' = db w
      | (Inl e, w') \<Rightarrow> db w' = db w \<and>
          (case e of
             DomainError (RestaurantNotFoundError i) \<Rightarrow> i = restaurantId
           | DomainError (UpstreamServiceUnavailableError text st) \<Rightarrow>
               (case st of None \<Rightarrow> True | Some n \<Rightarrow> n = 503 \<or> 400 \<le> n \<and> n < 500 \<and> n \<noteq> 404) \<and>
               http_status_of (UpstreamServiceUnavailableError text st) = (case st of None \<Rightarrow> 503 | Some n \<Rightarrow> n)
           | _ \<Rightarrow> False))"

locale restaurant_client =
  fixes status :: "uuid \<Rightarrow> status_result io"
    and availability :: "uuid \<Rightarrow> int \<Rightarrow> availability_result io"
    and assign_tables :: "uuid \<Rightarrow> assign_item list \<Rightarrow> unit io"
    and release_tables :: "uuid \<Rightarrow> release_item list \<Rightarrow> unit io"
  assumes status_call: "client_call r (status r)"
    and availability_call: "client_call r (availability r n)"
    and assign_call: "client_call r (assign_tables r ts)"
    and release_call: "client_call r (release_tables r rs)"
begin

text \<open>Nothing after a rejected table request happens: the database is as before it.\<close>

lemma assign_then:
  assumes "\<And>w'. db w' = db w \<Longrightarrow> wp (k ()) Q E w'"
    and "\<And>e w'. db w' = db w \<Longrightarrow> upstream_rejection r e \<Longrightarrow> E e w'"
  shows "wp (bindE (assign_tables r ts) k) Q E w"
  unfolding wp_bindE by (rule wp_client_call [OF assign_call]) (use assms in auto)

lemma call_rejects_safely:
  assumes "client_call r m"
  shows "rejects_safely r m w"
proof -
  have wp: "wp m (\<lambda>_ w'. db w' = db w) (\<lambda>e w'. db w' = db w \<and> upstream_rejection r e) w"
    using assms by (simp add: client_call_def)
  show ?thesis
  proof (cases "m w")
    case (Pair res w')
    show ?thesis
    proof (cases res)
      case (Inl e)
      with Pair wp have e: "upstream_rejection r e" and same: "db w' = db w" by (simp_all add: wp_def)
      with Inl Pair show ?thesis
        by (auto simp: rejects_safely_def upstream_rejection_def http_status_of_upstream http_defs
            split: js_error.splits domain_error.splits option.splits)
    next
      case (Inr x)
      with Pair wp show ?thesis by (simp add: wp_def rejects_safely_def)
    qed
  qed
qed

lemmas calls = status_call availability_call assign_call release_call

end

lemma classify_error_rejection:
  assumes "is_domain_error e \<longrightarrow> upstream_rejection r e"
  shows "upstream_rejection r (classify_error r prefix e)"
  using assms by (cases e) (auto simp: is_domain_error_def classify_error_def upstream_code_def http_defs split: option.splits)

text \<open>The body of an operation before its \<open>catch\<close> rejects with axios errors or its own.\<close>

definition raw_call :: "uuid \<Rightarrow> 'a io \<Rightarrow> bool" where
  "raw_call r m \<longleftrightarrow> (\<forall>w. wp m (\<lambda>_ w'. db w' = db w)
     (\<lambda>e w'. db w' = db w \<and> (is_domain_error e \<longrightarrow> upstream_rejection r e)) w)"

lemma raw_call_bind:
  assumes m: "raw_call r m" and f: "\<And>x. raw_call r (f x)"
  shows "raw_call r (bindE m f)"
  unfolding raw_call_def
proof
  fix w
  show "wp (bindE m f) (\<lambda>_ w'. db w' = db w)
      (\<lambda>e w'. db w' = db w \<and> (is_domain_error e \<longrightarrow> upstream_rejection r e)) w"
    unfolding wp_bindE
  proof (rule wp_mono [OF m [unfolded raw_call_def, rule_format, of w]])
    fix x and w' :: world
    assume "db w' = db w"
    then show "wp (f x) (\<lambda>_ w'. db w' = db w)
        (\<lambda>e w'. db w' = db w \<and> (is_domain_error e \<longrightarrow> upstream_rejection r e)) w'"
      using f [unfolded raw_call_def, rule_format, of x w'] by simp
  qed
qed

lemma raw_call_http: "raw_call r (http f)"
  by (auto simp: raw_call_def http_def wp_simps http_reject_def is_domain_error_def
      split: sum.split http_failure.split)

lemma raw_call_envelope: "raw_call r (open_envelope m x)" "raw_call r (check_envelope m y)"
  by (auto simp: raw_call_def open_envelope_def check_envelope_def wp_simps split: option.split bool.split)

lemma raw_call_log: "raw_call r (log_upstream c)"
  by (simp add: raw_call_def log_upstream_def wp_def)

lemmas raw_calls = raw_call_bind raw_call_http raw_call_envelope raw_call_log

lemma breaker_call:
  assumes "raw_call r m"
  shows "client_call r (executeWithBreaker (catchE m (\<lambda>e. throwE (classify_error r prefix e))))"
proof -
  define c where "c = catchE m (\<lambda>e. throwE (classify_error r prefix e))"
  have shape: "\<exists>d. e = DomainError d" if "upstream_rejection r e" for e
    using that by (cases e) (simp_all add: upstream_rejection_def)
  have c: "wp c Q E w'"
    if "\<And>x w''. db w'' = db w' \<Longrightarrow> Q x w''"
      and "\<And>d w''. db w'' = db w' \<Longrightarrow> upstream_rejection r (DomainError d) \<Longrightarrow> E (DomainError d) w''" for Q E w'
    unfolding c_def wp_catchE wp_throwE
    by (rule wp_mono [OF assms [unfolded raw_call_def, rule_format, of w']])
      (use that classify_error_rejection shape in metis)+
  show ?thesis
    unfolding client_call_def executeWithBreaker_def breaker_execute_def c_def [symmetric]
    by (auto simp: wp_simps http_defs split: gate.split intro!: c)
qed

interpretation restaurants: restaurant_client getRestaurantStatus checkAvailability assignTables releaseTables
proof
  fix r n ts rs
  show "client_call r (getRestaurantStatus r)"
    unfolding getRestaurantStatus_def by (intro breaker_call raw_calls)
  show "client_call r (checkAvailability r n)"
  proof -
    have "client_call r (executeWithBreaker (catchE
        (bindE (http (\<lambda>en t. http_availability en t r n))
          (open_envelope ''Failed to retrieve table availability status''))
        (\<lambda>error. throwE (classify_error r ''Restaurant table check failed'' error))))"
      by (intro breaker_call raw_calls)
    then show ?thesis
      unfolding client_call_def checkAvailability_def by (simp add: wp_simps)
  qed
  show "client_call r (assignTables r ts)"
    unfolding assignTables_def by (intro breaker_call raw_calls)
  show "client_call r (releaseTables r rs)"
    unfolding releaseTables_def by (intro breaker_call raw_calls)
qed

lemmas restaurant_same_db [db_rules] = restaurants.calls [THEN client_call_same_db]

end
