(* ===== verification/RegisterQueue.thy ===== *)
theory RegisterQueue
  imports Recalculator RestaurantClient
begin

text \<open>
  \<open>RegisterQueueUseCase\<close> (\<open>register-queue.use-case.ts\<close>) with its input and output objects, its
  mapper and \<open>validateRestaurantActiveSubscription\<close>; and \<open>GetQueueEtaUseCase\<close>
  (\<open>get-queue-eta.use-case.ts\<close>), which shares the opening checks.
\<close>

subsection \<open>The opening checks\<close>

definition QUEUE_PRO :: string where
  "QUEUE_PRO = ''QUEUE_PRO''"

definition validateRestaurantActiveSubscription :: "status_result \<Rightarrow> domain_error + unit" where
  "validateRestaurantActiveSubscription st =
     (if rs_isBlocked st then Inl (RestaurantBlockedError (rs_restaurantId st) (rs_blockReason st))
      else if \<not> rs_isSubscriptionActive st \<or> rs_subscriptionPlanCode st \<noteq> Some QUEUE_PRO
      then Inl (QueueProSubscriptionRequiredError (rs_restaurantId st) (rs_subscriptionPlanCode st))
      else Inr ())"

lemma validate_Inr:
  "validateRestaurantActiveSubscription st = Inr () \<longleftrightarrow>
     \<not> rs_isBlocked st \<and> rs_isSubscriptionActive st \<and> rs_subscriptionPlanCode st = Some QUEUE_PRO"
  by (simp add: validateRestaurantActiveSubscription_def)

subsection \<open>Registration\<close>

record register_input =
  ri_restaurantId :: uuid
  ri_userId :: "uuid option"
  ri_staffUserId :: "uuid option"
  ri_guestName :: string
  ri_guestPhone :: string
  ri_partySize :: int
  ri_specialNotes :: "string option"
  ri_fid :: "string option"
  ri_registrationType :: "registration_type option"

record register_output =
  ro_queueEntryId :: uuid
  ro_restaurantId :: uuid
  ro_userId :: "uuid option"
  ro_guestName :: string
  ro_guestPhone :: string
  ro_queueNumber :: string
  ro_partySize :: int
  ro_specialNotes :: "string option"
  ro_registrationType :: registration_type
  ro_position :: int
  ro_estimatedWaitMinutes :: int
  ro_status :: queue_status
  ro_joinedAt :: millis

definition register_toOutputDTO :: "queue_entry \<Rightarrow> register_output" where
  "register_toOutputDTO entry =
     \<lparr> ro_queueEntryId = e_id entry, ro_restaurantId = e_restaurantId entry,
       ro_userId = e_userId entry, ro_guestName = e_guestName entry, ro_guestPhone = e_phone entry,
       ro_queueNumber = e_queueNumber entry, ro_partySize = e_partySize entry,
       ro_specialNotes = e_specialNotes entry, ro_registrationType = e_registrationType entry,
       ro_position = nullish (e_position entry) 0,
       ro_estimatedWaitMinutes = nullish (e_estimatedWaitMinutes entry) 0,
       ro_status = e_status entry, ro_joinedAt = e_joinedAt entry \<rparr>"

definition AUDIT_SYSTEM :: string where
  "AUDIT_SYSTEM = ''system''"

definition resolved_type :: "register_input \<Rightarrow> registration_type" where
  "resolved_type input =
     nullish (ri_registrationType input)
       (if truthy (ri_userId input) \<and> \<not> truthy (ri_staffUserId input) then ONLINE else WALK_IN)"

definition changed_by :: "register_input \<Rightarrow> string" where
  "changed_by input = or_else (ri_staffUserId input) (or_else (ri_userId input) AUDIT_SYSTEM)"

definition register_entry :: "register_input \<Rightarrow> registration_metrics \<Rightarrow> int \<Rightarrow> uuid \<Rightarrow> millis \<Rightarrow> queue_entry" where
  "register_entry input metrics estimatedWaitMinutes fresh now =
     entry_create fresh now
       \<lparr> c_id = None, c_restaurantId = ri_restaurantId input, c_userId = ri_userId input,
         c_guestName = ri_guestName input, c_phone = ri_guestPhone input,
         c_queueNumber = generateQueueNumber (resolved_type input) (rm_countToday metrics + 1),
         c_partySize = ri_partySize input, c_specialNotes = ri_specialNotes input,
         c_registrationType = Some (resolved_type input),
         c_position = rm_queueDepth metrics + 1,
         c_estimatedWaitMinutes = estimatedWaitMinutes, c_fid = ri_fid input \<rparr>"

definition created_data :: "queue_entry \<Rightarrow> uuid \<Rightarrow> ws_data" where
  "created_data persisted restaurantId =
     \<lparr> d_event = EV_ENTRY_CREATED,
       d_body = P_created restaurantId
         \<lparr> w_id = e_id persisted, w_guestName = e_guestName persisted, w_guestPhone = e_phone persisted,
           w_partySize = e_partySize persisted, w_specialNotes = e_specialNotes persisted,
           w_registrationType = e_registrationType persisted, w_position = e_position persisted,
           w_estimatedWaitMinutes = e_estimatedWaitMinutes persisted, w_status = e_status persisted,
           w_joinedAt = e_joinedAt persisted \<rparr> \<rparr>"

definition register_persist :: "register_input \<Rightarrow> registration_metrics \<Rightarrow> register_output io" where
  "register_persist input metrics =
     (let restaurantId = ri_restaurantId input in
      bindE (predictEta restaurantId (rm_totalPeopleAhead metrics) (ri_partySize input)) (\<lambda>estimatedWaitMinutes.
      bindE new_date (\<lambda>now.
      bindE random_id (\<lambda>fresh.
      bindE (createWithHistory (register_entry input metrics estimatedWaitMinutes fresh now)
        (Some (changed_by input))) (\<lambda>persisted.
      bindE (guarded (saveLiveEntry (e_id persisted) restaurantId (rm_queueDepth metrics + 1)
        estimatedWaitMinutes)) (\<lambda>_.
      bindE (guarded (broadcastToRestaurant restaurantId EV_ENTRY_CREATED
        (created_data persisted restaurantId))) (\<lambda>_.
      retE (register_toOutputDTO persisted))))))))"

text \<open>The checks before anything is stored, and the numbers the new entry is made from.\<close>

definition register_admit :: "register_input \<Rightarrow> registration_metrics io" where
  "register_admit input =
     (let restaurantId = ri_restaurantId input; userId = ri_userId input in
      bindE (getRestaurantStatus restaurantId) (\<lambda>restaurantStatus.
      bindE (liftE DomainError (validateRestaurantActiveSubscription restaurantStatus)) (\<lambda>_.
      bindE (checkAvailability restaurantId (ri_partySize input)) (\<lambda>tableCheck.
      if \<not> av_isOpen tableCheck \<or> \<not> av_acceptsQueue tableCheck
      then throwE (DomainError RestaurantNotAcceptingQueueError)
      else if av_isTableAvailable tableCheck
      then throwE (DomainError (TableAvailableError (av_availableCount tableCheck)))
      else
        bindE (findActiveByPhone restaurantId (ri_guestPhone input)) (\<lambda>existingActivePhone.
        bindE (if truthy userId then findActiveByUserId (the userId) else retE None) (\<lambda>existingActiveUser.
        if existingActivePhone \<noteq> None
        then throwE (DomainError (ActiveQueueEntryExistsError (ri_guestPhone input)))
        else if existingActiveUser \<noteq> None
        then throwE (DomainError ActiveUserQueueEntryExistsError)
        else
          getRegistrationMetrics restaurantId))))))"

definition register_execute :: "register_input \<Rightarrow> register_output io" where
  "register_execute input = bindE (register_admit input) (register_persist input)"

lemmas register_execute_unfold =
  register_execute_def [unfolded register_admit_def Let_def bindE_assoc
    bindE_if [of _ _ _ "register_persist i" for i] bindE_throwE]

subsection \<open>Estimated waiting time\<close>

record eta_output =
  eo_restaurantId :: uuid
  eo_partySize :: int
  eo_estimatedWaitMinutes :: int
  eo_queueDepth :: int
  eo_calculatedAt :: millis

definition eta_execute_query :: "uuid \<Rightarrow> int \<Rightarrow> eta_output io" where
  "eta_execute_query restaurantId partySize =
     bindE (getRestaurantStatus restaurantId) (\<lambda>restaurantStatus.
     bindE (liftE DomainError (validateRestaurantActiveSubscription restaurantStatus)) (\<lambda>_.
     bindE (checkAvailability restaurantId partySize) (\<lambda>tableCheck.
     if \<not> av_isOpen tableCheck \<or> \<not> av_acceptsQueue tableCheck
     then throwE (DomainError RestaurantNotAcceptingQueueError)
     else
       bindE (getActiveQueueMetrics restaurantId) (\<lambda>metrics.
       if av_isTableAvailable tableCheck \<and> queueDepth metrics = 0 then
         bindE new_date (\<lambda>t.
         retE \<lparr> eo_restaurantId = restaurantId, eo_partySize = partySize, eo_estimatedWaitMinutes = 0,
                eo_queueDepth = queueDepth metrics, eo_calculatedAt = t \<rparr>)
       else
         bindE (predictEta restaurantId (totalPeopleAhead metrics) partySize) (\<lambda>estimatedWaitMinutes.
         bindE new_date (\<lambda>t.
         retE \<lparr> eo_restaurantId = restaurantId, eo_partySize = partySize,
                eo_estimatedWaitMinutes = estimatedWaitMinutes,
                eo_queueDepth = queueDepth metrics, eo_calculatedAt = t \<rparr>))))))"

lemma eta_query_same_db [db_rules]: "stays same_db (eta_execute_query r p)"
  unfolding eta_execute_query_def
  by (intro same_db.stays_bindE same_db.stays_if same_db.stays_retE same_db.stays_throwE
      same_db.stays_liftE db_rules restaurant_same_db)

lemma wp_eta_query:
  "wp (eta_execute_query r p)
     (\<lambda>out w'. db w' = db w \<and> eo_restaurantId out = r \<and> eo_partySize out = p \<and>
        0 \<le> eo_estimatedWaitMinutes out \<and> eo_queueDepth out = count_waiting r (db w))
     (\<lambda>_ w'. db w' = db w) w"
  unfolding eta_execute_query_def wp_bindE
  by (intro wp_client_call [OF restaurants.status_call] wp_client_call [OF restaurants.availability_call])
    (auto simp: wp_simps new_date_def split: sum.split
      intro!: wp_client_call [OF restaurants.availability_call] ml_eta.wp_predict wp_getActiveQueueMetrics)

subsection \<open>What a registration does\<close>

lemma register_entry_fields [simp]:
  "e_restaurantId (register_entry i m eta fresh now) = ri_restaurantId i"
  "e_id (register_entry i m eta fresh now) = fresh"
  "e_status (register_entry i m eta fresh now) = WAITING"
  "e_position (register_entry i m eta fresh now) = Some (rm_queueDepth m + 1)"
  "e_estimatedWaitMinutes (register_entry i m eta fresh now) = Some eta"
  "e_queueNumber (register_entry i m eta fresh now) =
     generateQueueNumber (resolved_type i) (rm_countToday m + 1)"
  "e_registrationType (register_entry i m eta fresh now) = resolved_type i"
  "e_partySize (register_entry i m eta fresh now) = ri_partySize i"
  "e_userId (register_entry i m eta fresh now) = ri_userId i"
  "e_phone (register_entry i m eta fresh now) = js_trim (ri_guestPhone i)"
  by (simp_all add: register_entry_def entry_create_def)

lemma register_entry_ok [simp]: "entry_ok (register_entry i m eta fresh now)"
  by (simp add: register_entry_def)

text \<open>
  The database after a registration: the new row at the end, at the position after the last one.
\<close>

definition registered :: "register_input \<Rightarrow> register_output \<Rightarrow> database \<Rightarrow> database \<Rightarrow> bool" where
  "registered input out d d' \<longleftrightarrow>
     (\<exists>e. entries d' = entries d @ [toPersistence e] \<and> out = register_toOutputDTO e \<and>
        e_restaurantId e = ri_restaurantId input \<and> e_partySize e = ri_partySize input \<and>
        e_userId e = ri_userId input \<and> e_phone e = js_trim (ri_guestPhone input) \<and>
        e_registrationType e = resolved_type input \<and>
        e_status e = WAITING \<and> e_position e = Some (count_waiting (ri_restaurantId input) d + 1) \<and>
        (\<exists>n. e_queueNumber e = generateQueueNumber (resolved_type input) (n + 1) \<and> 0 \<le> n) \<and>
        (\<exists>eta. e_estimatedWaitMinutes e = Some eta \<and> 0 \<le> eta))"

lemma wp_register_persist:
  assumes inv: "db_inv (db w)" and depth: "rm_queueDepth m = count_waiting (ri_restaurantId i) (db w)"
    and today: "0 \<le> rm_countToday m"
    and commit: "\<And>out w'. db_inv (db w') \<Longrightarrow> db_evolves (db w) (db w') \<Longrightarrow> registered i out (db w) (db w') \<Longrightarrow> Q out w'"
    and reject: "\<And>e w'. db w' = db w \<Longrightarrow> E e w'"
  shows "wp (register_persist i m) Q E w"
  unfolding register_persist_def Let_def wp_bindE random_id_def new_date_def wp_ask
proof (rule ml_eta.wp_predict, rule wp_createWithHistory)
  fix eta :: int and w1 w2 :: world
  assume eta: "0 \<le> eta" and w1: "db w1 = db w"
  let ?e = "register_entry i m eta
    (random_uuid (ext (w1\<lparr> tick := Suc (tick w1) \<rparr>)) (tick (w1\<lparr> tick := Suc (tick w1) \<rparr>)))
    (clock (ext w1) (tick w1))"
  assume w2: "db_inv (db w2)"
    "db_evolves (db (w1\<lparr> tick := Suc (tick w1), tick := Suc (tick (w1\<lparr> tick := Suc (tick w1) \<rparr>)) \<rparr>)) (db w2)"
    "entries (db w2) = entries (db (w1\<lparr> tick := Suc (tick w1), tick := Suc (tick (w1\<lparr> tick := Suc (tick w1) \<rparr>)) \<rparr>))
       @ [toPersistence ?e]"
  have reg: "registered i (register_toOutputDTO ?e) (db w) (db w2)"
    unfolding registered_def
    by (rule exI [of _ ?e]) (use w2 w1 eta depth today in auto)
  show "wp (guarded (saveLiveEntry (e_id ?e) (ri_restaurantId i) (rm_queueDepth m + 1) eta))
      (\<lambda>_. wp (guarded (broadcastToRestaurant (ri_restaurantId i) EV_ENTRY_CREATED (created_data ?e (ri_restaurantId i))))
        (\<lambda>_. wp (retE (register_toOutputDTO ?e)) Q E) E) E w2"
    by (intro wp_quiet [OF quiet_guarded] db_rules quiet_saveLiveEntry)
      (use commit reg w1 w2 in \<open>simp add: wp_simps\<close>)
qed (use inv reject in auto)

lemma wp_register:
  assumes inv: "db_inv (db w)"
    and commit: "\<And>out w'. db_inv (db w') \<Longrightarrow> db_evolves (db w) (db w') \<Longrightarrow> registered i out (db w) (db w') \<Longrightarrow> Q out w'"
    and reject: "\<And>e w'. db w' = db w \<Longrightarrow> E e w'"
  shows "wp (register_execute i) Q E w"
proof -
  have persist: "wp (register_persist i m) Q E w'"
    if "db w' = db w" "rm_queueDepth m = count_waiting (ri_restaurantId i) (db w)" "0 \<le> rm_countToday m" for m w'
    by (rule wp_register_persist) (use that inv commit reject in auto)
  have metrics: "wp (getRegistrationMetrics (ri_restaurantId i)) (\<lambda>m. wp (register_persist i m) Q E) E w'"
    if "db w' = db w" for w'
    unfolding getRegistrationMetrics_def wp_bindE
    by (rule wp_same_db [OF start_of_day_same_db], rule qrun_db_read)
      (use that reject in \<open>auto simp: count_since_def intro!: persist\<close>)
  have queries: "wp (findActiveByPhone (ri_restaurantId i) (ri_guestPhone i)) (\<lambda>ph.
      wp (if truthy (ri_userId i) then findActiveByUserId (the (ri_userId i)) else retE None) (\<lambda>u.
      wp (if ph \<noteq> None then throwE (DomainError (ActiveQueueEntryExistsError (ri_guestPhone i)))
        else if u \<noteq> None then throwE (DomainError ActiveUserQueueEntryExistsError)
        else bindE (getRegistrationMetrics (ri_restaurantId i)) (register_persist i)) Q E) E) E w'"
    if "db w' = db w" for w'
    by (rule wp_same_db [OF queries_same_db(8)], rule wp_same_db [OF same_db.stays_if [OF queries_same_db(9)]])
      (use that reject in \<open>auto simp: wp_simps intro!: metrics\<close>)
  show ?thesis
    unfolding register_execute_unfold Let_def wp_bindE
    by (rule wp_client_call [OF restaurants.status_call])
      (use reject queries in \<open>auto simp: wp_simps split: sum.split
        intro!: wp_client_call [OF restaurants.availability_call]\<close>)
qed

lemma register_ok_step: "stays ok_step (register_execute i)"
proof -
  have "wp (register_execute i) (\<lambda>_. ok_step w) (\<lambda>_. ok_step w) w" for w
  proof (cases "db_inv (db w)")
    case True
    then show ?thesis by (rule wp_register) (simp_all add: ok_step_def db_step_def True)
  next
    case False
    then show ?thesis by (simp add: wp_def ok_step_def db_step_def split: prod.split sum.split)
  qed
  then show ?thesis by (simp add: stays_wp)
qed

text \<open>A queue that was numbered without gaps is so after a registration.\<close>

lemma registered_contiguous:
  assumes reg: "registered i out d d'" and c: "contiguous rid d"
  shows "contiguous rid d'"
proof -
  from reg obtain e where d': "entries d' = entries d @ [toPersistence e]"
    and e: "e_restaurantId e = ri_restaurantId i" "e_status e = WAITING"
      "e_position e = Some (count_waiting (ri_restaurantId i) d + 1)"
    unfolding registered_def by auto
  let ?a = "active_rows rid d"
  show ?thesis
  proof (cases "rid = ri_restaurantId i")
    case False
    with d' e have "active_rows rid d' = ?a" by (simp add: active_rows_def waiting_at_def)
    with c show ?thesis by (simp add: contiguous_def)
  next
    case True
    have n: "count_waiting (ri_restaurantId i) d = int (length ?a)"
      by (simp add: count_waiting_def active_rows_def True)
    have pos: "r_position ((?a @ [toPersistence e]) ! k) = Some (int k + 1)" if "k < Suc (length ?a)" for k
    proof (cases "k < length ?a")
      case True
      from c have "map r_position ?a ! k = map (\<lambda>i. Some (int i + 1)) [0..<length ?a] ! k"
        by (simp add: contiguous_def)
      with True show ?thesis by (simp add: nth_append)
    next
      case False
      with that e n show ?thesis by (simp add: nth_append)
    qed
    have order: "queue_order ((?a @ [toPersistence e]) ! k) =
        (Value (int k + 1), r_joinedAt ((?a @ [toPersistence e]) ! k))" if "k < Suc (length ?a)" for k
      using pos [OF that] by (simp add: queue_order_def nulls_last_def)
    have "active_rows rid d' = sort_key queue_order (filter (waiting_at rid) (entries d) @ [toPersistence e])"
      using d' e True by (simp add: active_rows_def waiting_at_def)
    also have "\<dots> = ?a @ [toPersistence e]"
    proof (rule sort_key_inj_key_eq)
      show ms: "mset (filter (waiting_at rid) (entries d) @ [toPersistence e]) = mset (?a @ [toPersistence e])"
        by (simp add: active_rows_def)
      have "j = k" if "j < length (?a @ [toPersistence e])" "k < length (?a @ [toPersistence e])"
        "queue_order ((?a @ [toPersistence e]) ! j) = queue_order ((?a @ [toPersistence e]) ! k)" for j k
        using order [of j] order [of k] that by simp
      then have "inj_on queue_order (set (?a @ [toPersistence e]))" by (rule inj_on_set_nth)
      then show "inj_on queue_order (set (filter (waiting_at rid) (entries d) @ [toPersistence e]))"
        using ms by (metis mset_eq_setD)
      show "sorted (map queue_order (?a @ [toPersistence e]))"
        unfolding sorted_iff_nth_mono_less
      proof (intro allI impI)
        fix j k assume "j < k" "k < length (map queue_order (?a @ [toPersistence e]))"
        then show "map queue_order (?a @ [toPersistence e]) ! j \<le> map queue_order (?a @ [toPersistence e]) ! k"
          using order [of j] order [of k] by (simp add: less_eq_prod_def less_nulls_last_def del: map_append)
      qed
    qed
    finally have "active_rows rid d' = ?a @ [toPersistence e]" .
    then show ?thesis
      unfolding contiguous_def by (intro nth_equalityI) (use pos in \<open>simp_all del: map_append upt_Suc\<close>)
  qed
qed

end
