(* ===== verification/Departure.thy ===== *)
theory Departure
  imports Recalculator RestaurantClient
begin

text \<open>
  What the use cases that take a party out of a queue share: the row of the party is replaced by one
  that no longer waits, its live state is removed, and the positions of the restaurant are
  recalculated. \<open>left_queue\<close> is the contract of those use cases.
\<close>

lemma row_replaced_in:
  "row_replaced e d d' \<Longrightarrow> r \<in> set (entries d) \<Longrightarrow> r_id r = e_id e \<Longrightarrow> toPersistence e \<in> set (entries d')"
  by (auto simp: row_replaced_def at_id_def image_iff intro!: bexI [of _ r])

lemma row_replaced_other:
  "row_replaced e d d' \<Longrightarrow> r \<in> set (entries d) \<Longrightarrow> r_id r \<noteq> e_id e \<Longrightarrow> r \<in> set (entries d')"
  by (auto simp: row_replaced_def at_id_def image_iff intro!: bexI [of _ r])

text \<open>The waiting entries of a restaurant keep their order when one of them leaves.\<close>

lemma active_rows_leave:
  assumes "row_replaced e d d'" and "e_status e \<noteq> WAITING"
  shows "active_rows rid d' = filter (\<lambda>r. r_id r \<noteq> e_id e) (active_rows rid d)"
proof -
  have "filter (waiting_at rid) (map (at_id (e_id e) (\<lambda>_. toPersistence e)) es) =
      filter (\<lambda>r. r_id r \<noteq> e_id e) (filter (waiting_at rid) es)" for es
    using assms(2) by (induction es) (auto simp: at_id_def waiting_at_def)
  with assms(1) show ?thesis by (simp add: active_rows_def row_replaced_def filter_sort)
qed

lemma queue_ids_leave:
  "row_replaced e d d' \<Longrightarrow> e_status e \<noteq> WAITING \<Longrightarrow>
   queue_ids rid d' = filter (\<lambda>i. i \<noteq> e_id e) (queue_ids rid d)"
  by (simp add: queue_ids_def active_rows_leave filter_map comp_def)

text \<open>The rows of the other restaurants are exactly what they were, in every field and in their order.\<close>

definition spares :: "uuid \<Rightarrow> database \<Rightarrow> database \<Rightarrow> bool" where
  "spares rid d d' \<longleftrightarrow>
     filter (\<lambda>r. r_restaurantId r \<noteq> rid) (entries d') = filter (\<lambda>r. r_restaurantId r \<noteq> rid) (entries d)"

lemma spares_refl [simp]: "spares rid d d"
  by (simp add: spares_def)

lemma spares_trans: "spares rid a b \<Longrightarrow> spares rid b c \<Longrightarrow> spares rid a c"
  by (simp add: spares_def)

lemma spares_recalculated: "recalculated rid d d' \<Longrightarrow> spares rid d d'"
proof -
  have "filter (\<lambda>r. r_restaurantId r \<noteq> rid) xs = filter (\<lambda>r. r_restaurantId r \<noteq> rid) (filter (\<lambda>r. \<not> waiting_at rid r) xs)" for xs
    by (induction xs) (auto simp: waiting_at_def)
  then show "recalculated rid d d' \<Longrightarrow> spares rid d d'"
    unfolding spares_def recalculated_def others_kept_def by metis
qed

lemma spares_map:
  assumes "\<And>r. r \<in> set (entries d) \<Longrightarrow> r_restaurantId (f r) = r_restaurantId r \<and> (r_restaurantId r \<noteq> rid \<longrightarrow> f r = r)"
    and "entries d' = map f (entries d)"
  shows "spares rid d d'"
proof -
  have "filter (\<lambda>r. r_restaurantId r \<noteq> rid) (map f xs) = filter (\<lambda>r. r_restaurantId r \<noteq> rid) xs"
    if "set xs \<subseteq> set (entries d)" for xs
    using that assms(1) by (induction xs) auto
  with assms(2) show ?thesis by (simp add: spares_def)
qed

lemma spares_replaced:
  assumes inv: "db_inv d" and r: "r \<in> set (entries d)" "r_id r = e_id e" "r_restaurantId r = rid"
    and e: "e_restaurantId e = rid" and rep: "row_replaced e d d'"
  shows "spares rid d d'"
proof (rule spares_map)
  show "entries d' = map (at_id (e_id e) (\<lambda>_. toPersistence e)) (entries d)" using rep by (simp add: row_replaced_def)
  fix q assume q: "q \<in> set (entries d)"
  have "q = r" if "r_id q = e_id e" using db_inv_row_eq [OF inv q r(1)] r(2) that by simp
  then show "r_restaurantId (at_id (e_id e) (\<lambda>_. toPersistence e) q) = r_restaurantId q \<and>
      (r_restaurantId q \<noteq> rid \<longrightarrow> at_id (e_id e) (\<lambda>_. toPersistence e) q = q)"
    using r(3) e by (auto simp: at_id_def)
qed

text \<open>
  An entry has left the queue of its restaurant: its row is stored, the others follow in their order
  at the positions 1, 2, 3, and so on, and every row outside this queue is as it was, those of other
  restaurants in the same order.
\<close>

definition left_queue :: "uuid \<Rightarrow> queue_entry \<Rightarrow> database \<Rightarrow> database \<Rightarrow> bool" where
  "left_queue rid e d d' \<longleftrightarrow>
     toPersistence e \<in> set (entries d') \<and> contiguous rid d' \<and>
     queue_ids rid d' = filter (\<lambda>i. i \<noteq> e_id e) (queue_ids rid d) \<and>
     (\<forall>r \<in> set (entries d). r_id r \<noteq> e_id e \<and> \<not> waiting_at rid r \<longrightarrow> r \<in> set (entries d')) \<and>
     spares rid d d'"

lemma others_kept_in:
  "others_kept rid d d' \<Longrightarrow> r \<in> set (entries d) \<Longrightarrow> \<not> waiting_at rid r \<Longrightarrow> r \<in> set (entries d')"
proof -
  assume "others_kept rid d d'" "r \<in> set (entries d)" "\<not> waiting_at rid r"
  then have "r \<in> set (filter (\<lambda>r. \<not> waiting_at rid r) (entries d'))" by (simp add: others_kept_def)
  then show ?thesis by simp
qed

lemma left_queueI:
  assumes inv: "db_inv d" and rep: "row_replaced e d d1" and r: "r \<in> set (entries d)" "r_id r = e_id e"
    and rest: "r_restaurantId r = rid" "e_restaurantId e = rid" and out: "e_status e \<noteq> WAITING" and rec: "recalculated rid d1 d'"
  shows "left_queue rid e d d'"
proof -
  have kept: "others_kept rid d1 d'" using rec by (simp add: recalculated_def)
  have "toPersistence e \<in> set (entries d')"
    by (rule others_kept_in [OF kept row_replaced_in [OF rep r]]) (simp add: waiting_at_def out)
  moreover have "q \<in> set (entries d')" if "q \<in> set (entries d)" "r_id q \<noteq> e_id e" "\<not> waiting_at rid q" for q
    by (rule others_kept_in [OF kept row_replaced_other [OF rep that(1,2)] that(3)])
  moreover have "spares rid d d'"
    by (rule spares_trans [OF spares_replaced [OF inv r rest rep] spares_recalculated [OF rec]])
  ultimately show ?thesis
    using rec queue_ids_leave [OF rep out] by (simp add: left_queue_def recalculated_def)
qed

lemma spares_left: "left_queue rid e d d' \<Longrightarrow> spares rid d d'"
  by (simp add: left_queue_def)

text \<open>What follows the commit in the use cases.\<close>

definition refresh_queue :: "uuid \<Rightarrow> uuid \<Rightarrow> recalculation_result io" where
  "refresh_queue restaurantId queueEntryId =
     bindE (removeLiveEntry queueEntryId) (\<lambda>_. recalculate predictEta restaurantId)"

lemma wp_refresh_queue:
  assumes inv: "db_inv (db w)"
    and commit: "\<And>res w'. db_inv (db w') \<Longrightarrow> db_evolves (db w) (db w') \<Longrightarrow>
      recalculated rid (db w) (db w') \<Longrightarrow> Q res w'"
    and reject: "\<And>e w'. db w' = db w \<Longrightarrow> E e w'"
  shows "wp (refresh_queue rid i) Q E w"
  unfolding refresh_queue_def wp_bindE
  by (rule wp_quiet [OF quiet_removeLiveEntry], rule ml_eta.recalculate_wp) (use assms in auto)

text \<open>A last part that only sends messages and returns a value.\<close>

lemma wp_messages:
  assumes "stays same_db m" and "\<And>x w'. db w' = db w \<Longrightarrow> Q x w'" and "\<And>e w'. db w' = db w \<Longrightarrow> E e w'"
  shows "wp m Q E w"
  by (rule wp_same_db) (use assms in auto)

text \<open>\<open>value ?? new Date()\<close>.\<close>

definition or_now :: "millis option \<Rightarrow> millis io" where
  "or_now v = (case v of Some t \<Rightarrow> retE t | None \<Rightarrow> new_date)"

lemma or_now_same_db [db_rules]: "stays same_db (or_now v)"
  by (cases v) (simp_all add: or_now_def new_date_same_db)

lemma or_now_Some [simp]: "or_now (Some t) = retE t"
  by (simp add: or_now_def)

subsection \<open>Sharing a party between tables\<close>

text \<open>The JavaScript remainder takes the sign of the dividend.\<close>

definition js_rem :: "int \<Rightarrow> int \<Rightarrow> int" where
  "js_rem a n = (if 0 \<le> a then a mod n else - ((- a) mod n))"

fun share :: "int \<Rightarrow> int \<Rightarrow> 'a list \<Rightarrow> ('a \<times> int) list" where
  "share base remainder [] = []"
| "share base remainder (x # xs) =
     (let count = base + (if remainder > 0 then 1 else 0);
          rest = (if remainder > 0 then remainder - 1 else remainder)
      in (x, max 1 count) # share base rest xs)"

definition share_party :: "int \<Rightarrow> 'a list \<Rightarrow> ('a \<times> int) list" where
  "share_party partySize tables =
     (let n = int (length tables) in share (partySize div n) (js_rem partySize n) tables)"

lemma map_fst_share [simp]: "map fst (share b r xs) = xs"
  by (induction xs arbitrary: r) (simp_all add: Let_def)

lemma share_seats:
  assumes "0 \<le> b" "0 \<le> r" "r \<le> int (length xs)"
  shows "set (map snd (share b r xs)) \<subseteq> {max 1 b, max 1 (b + 1)}" and
    "1 \<le> b \<Longrightarrow> sum_list (map snd (share b r xs)) = b * int (length xs) + r"
    "b = 0 \<Longrightarrow> sum_list (map snd (share b r xs)) = int (length xs)"
proof -
  show "set (map snd (share b r xs)) \<subseteq> {max 1 b, max 1 (b + 1)}"
    by (induction xs arbitrary: r) (auto simp: Let_def)
  show "1 \<le> b \<Longrightarrow> sum_list (map snd (share b r xs)) = b * int (length xs) + r"
    using assms(2,3)
  proof (induction xs arbitrary: r)
    case Nil
    then show ?case by simp
  next
    case (Cons x xs)
    then show ?case
      using Cons.IH [of "r - 1"] Cons.IH [of 0] by (cases "r = 0") (simp_all add: Let_def algebra_simps)
  qed
  show "b = 0 \<Longrightarrow> sum_list (map snd (share b r xs)) = int (length xs)"
    by (induction xs arbitrary: r) (simp_all add: Let_def)
qed

lemma share_party_fst [simp]: "map fst (share_party p ts) = ts"
  by (simp add: share_party_def Let_def)

text \<open>
  Every table gets at least one guest, the shares differ by at most one, and together they are the
  party, or one per table when there are more tables than guests.
\<close>

lemma share_party_seats:
  assumes "1 \<le> p" and "ts \<noteq> []"
  shows "sum_list (map snd (share_party p ts)) = max p (int (length ts))"
    and "x \<in> set (map snd (share_party p ts)) \<Longrightarrow> 1 \<le> x"
    and "x \<in> set (map snd (share_party p ts)) \<Longrightarrow> y \<in> set (map snd (share_party p ts)) \<Longrightarrow> x \<le> y + 1"
proof -
  let ?n = "int (length ts)"
  have n: "0 < ?n" using assms(2) by simp
  have b: "0 \<le> p div ?n" and r: "0 \<le> p mod ?n" "p mod ?n < ?n"
    using assms(1) n by (simp_all add: pos_imp_zdiv_nonneg_iff)
  have eq: "share_party p ts = share (p div ?n) (p mod ?n) ts"
    using assms(1) by (simp add: share_party_def js_rem_def Let_def)
  note seats = share_seats [OF b r(1), of ts]
  show "sum_list (map snd (share_party p ts)) = max p ?n"
  proof (cases "p < ?n")
    case True
    with assms(1) have "p div ?n = 0" by (simp add: div_pos_pos_trivial)
    with True seats(3) r show ?thesis by (simp add: eq)
  next
    case False
    with n have "1 \<le> p div ?n" using zdiv_mono1 [of ?n p ?n] by simp
    moreover have "p div ?n * ?n + p mod ?n = p" by simp
    ultimately show ?thesis using seats(2) r False by (simp add: eq)
  qed
  show "x \<in> set (map snd (share_party p ts)) \<Longrightarrow> 1 \<le> x"
    using seats(1) r by (auto simp: eq)
  show "x \<in> set (map snd (share_party p ts)) \<Longrightarrow> y \<in> set (map snd (share_party p ts)) \<Longrightarrow> x \<le> y + 1"
    using seats(1) r b unfolding eq by (smt (verit, best) insertE singletonD subsetD)
qed

end
