(* ===== verification/Seating.thy ===== *)
theory Seating
  imports Departure
begin

text \<open>
  The two ways a party is seated: \<open>AssignTableUseCase\<close> (\<open>assign-table.use-case.ts\<close>), where staff give
  the number of seats per table, and \<open>SeatPartyUseCase\<close> (\<open>queue/seat-party.use-case.ts\<close>), which
  shares the party between the tables and recalculates the queue.
\<close>

subsection \<open>Assigning tables\<close>

record assign_input =
  ai_restaurantId :: uuid
  ai_queueEntryId :: uuid
  ai_staffUserId :: string
  ai_tables :: "assign_item list"

record seated_output =
  so_queueEntryId :: uuid
  so_restaurantId :: uuid
  so_tableIds :: "uuid list"
  so_status :: queue_status
  so_seatedAt :: millis

definition assign_toOutputDTO :: "queue_entry \<Rightarrow> uuid list \<Rightarrow> seated_output io" where
  "assign_toOutputDTO entry tableIds =
     bindE (or_now (e_seatedAt entry)) (\<lambda>t.
     retE \<lparr> so_queueEntryId = e_id entry, so_restaurantId = e_restaurantId entry,
            so_tableIds = tableIds, so_status = e_status entry, so_seatedAt = t \<rparr>)"

definition toMlEtaTrainingEvent :: "queue_entry \<Rightarrow> int \<Rightarrow> training_event io" where
  "toMlEtaTrainingEvent entry totalPeopleAheadAtJoin =
     bindE (or_now (e_seatedAt entry)) (\<lambda>t.
     retE \<lparr> te_queue_entry_id = e_id entry, te_restaurant_id = e_restaurantId entry,
            te_party_size = e_partySize entry, te_joined_at = e_joinedAt entry, te_seated_at = t,
            te_total_people_ahead_at_join = totalPeopleAheadAtJoin \<rparr>)"

text \<open>The event goes to the RabbitMQ client; a failure is only logged.\<close>

definition publishToMlEta :: "training_event \<Rightarrow> unit io" where
  "publishToMlEta event = attempt mq_fault (\<lambda>w. w\<lparr> mlqueue := mlqueue w @ [event] \<rparr>)"

definition publish_training :: "queue_entry \<Rightarrow> int option \<Rightarrow> unit io" where
  "publish_training persisted ahead =
     (case ahead of
        None \<Rightarrow> retE ()
      | Some n \<Rightarrow> bindE (toMlEtaTrainingEvent persisted n) (\<lambda>ev. guarded (publishToMlEta ev)))"

definition ticket_seated_messages :: "uuid \<Rightarrow> uuid \<Rightarrow> uuid list \<Rightarrow> queue_entry \<Rightarrow> unit io" where
  "ticket_seated_messages restaurantId queueEntryId tableIds persisted =
     guarded
       (bindE (broadcastToRestaurant restaurantId EV_TICKET_SEATED
          \<lparr> d_event = EV_TICKET_SEATED,
            d_body = P_ticket_seated (Some restaurantId) queueEntryId tableIds (e_status persisted)
              (e_seatedAt persisted) \<rparr>) (\<lambda>_.
        sendToTicket queueEntryId EV_TICKET_SEATED
          \<lparr> d_event = EV_TICKET_SEATED,
            d_body = P_ticket_seated None queueEntryId tableIds (e_status persisted)
              (e_seatedAt persisted) \<rparr>))"

text \<open>After the entry was loaded.\<close>

definition assign_loaded :: "assign_input \<Rightarrow> queue_entry \<Rightarrow> seated_output io" where
  "assign_loaded input queueEntry =
     (let restaurantId = ai_restaurantId input; queueEntryId = ai_queueEntryId input;
          tables = ai_tables input in
      let totalAssignedSeats = sum_list (map at_count tables) in
      if totalAssignedSeats < e_partySize queueEntry
      then throwE (DomainError (InsufficientTableCapacityError (e_partySize queueEntry) totalAssignedSeats))
      else
        bindE (catchE (bindE (countPeopleAheadAtJoin restaurantId (e_joinedAt queueEntry))
            (\<lambda>n. retE (Some n))) (\<lambda>_. retE None)) (\<lambda>totalPeopleAheadAtJoin.
        bindE new_date (\<lambda>t1. bindE new_date (\<lambda>t2.
        bindE (liftE DomainError (seat t1 t2 queueEntry)) (\<lambda>seated.
        bindE (assignTables restaurantId tables) (\<lambda>_.
        let tableIds = map at_tableId tables in
        bindE (assignTablesWithHistory seated tableIds (ai_staffUserId input) (e_status queueEntry)) (\<lambda>persisted.
        bindE (guarded (removeLiveEntry queueEntryId)) (\<lambda>_.
        bindE (ticket_seated_messages restaurantId queueEntryId tableIds persisted) (\<lambda>_.
        bindE (publish_training persisted totalPeopleAheadAtJoin) (\<lambda>_.
        assign_toOutputDTO persisted tableIds))))))))))"

definition assign_execute :: "assign_input \<Rightarrow> seated_output io" where
  "assign_execute input =
     bindE (load_entry (ai_restaurantId input) (ai_queueEntryId input)) (assign_loaded input)"

lemmas assign_execute_unfold = assign_execute_def [unfolded assign_loaded_def [abs_def]]

subsection \<open>Seating a party\<close>

record seat_input =
  sp_restaurantId :: uuid
  sp_queueEntryId :: uuid
  sp_staffUserId :: string
  sp_tableIds :: "uuid list"

definition seat_payload :: "int \<Rightarrow> uuid list \<Rightarrow> assign_item list" where
  "seat_payload partySize tableIds =
     map (\<lambda>(t, n). \<lparr> at_tableId = t, at_count = n \<rparr>) (share_party partySize tableIds)"

definition seat_messages :: "seat_input \<Rightarrow> queue_entry \<Rightarrow> seated_output io" where
  "seat_messages input persisted =
     bindE (or_now (e_seatedAt persisted)) (\<lambda>seatedAtIso.
     let data = \<lparr> d_event = EV_ENTRY_SEATED,
                  d_body = P_seated (e_id persisted) (e_restaurantId persisted) (e_status persisted)
                    (sp_tableIds input) seatedAtIso \<rparr>
     in bindE (broadcastToRestaurant (sp_restaurantId input) EV_ENTRY_SEATED data) (\<lambda>_.
        bindE (sendToTicket (sp_queueEntryId input) EV_ENTRY_SEATED data) (\<lambda>_.
        retE \<lparr> so_queueEntryId = e_id persisted, so_restaurantId = e_restaurantId persisted,
               so_tableIds = sp_tableIds input, so_status = e_status persisted,
               so_seatedAt = seatedAtIso \<rparr>)))"

text \<open>After the entry was loaded.\<close>

definition seat_loaded :: "seat_input \<Rightarrow> queue_entry \<Rightarrow> seated_output io" where
  "seat_loaded input queueEntry =
     (let restaurantId = sp_restaurantId input; queueEntryId = sp_queueEntryId input in
      bindE new_date (\<lambda>t1. bindE new_date (\<lambda>t2.
      bindE (liftE DomainError (seat t1 t2 queueEntry)) (\<lambda>seated.
      bindE (assignTables restaurantId (seat_payload (e_partySize seated) (sp_tableIds input))) (\<lambda>_.
      bindE (assignTablesWithHistory seated (sp_tableIds input) (sp_staffUserId input)
        (e_status queueEntry)) (\<lambda>persisted.
      bindE (refresh_queue restaurantId queueEntryId) (\<lambda>_.
      seat_messages input persisted)))))))"

definition seat_execute :: "seat_input \<Rightarrow> seated_output io" where
  "seat_execute input =
     bindE (load_entry (sp_restaurantId input) (sp_queueEntryId input)) (seat_loaded input)"

lemmas seat_execute_unfold = seat_execute_def [unfolded seat_loaded_def [abs_def]]

subsection \<open>What seating does\<close>

text \<open>The entry that is seated: the stored one, waiting until now, after the entity's \<open>seat\<close>.\<close>

definition seats :: "uuid \<Rightarrow> uuid \<Rightarrow> database \<Rightarrow> queue_entry \<Rightarrow> bool" where
  "seats rid i d e \<longleftrightarrow>
     (\<exists>r \<in> set (entries d). \<exists>t1 t2. r_id r = i \<and> r_restaurantId r = rid \<and> r_status r = WAITING \<and>
        seat t1 t2 (toDomain r) = Inr e)"

lemma seatsD:
  assumes "seats rid i d e"
  shows "e_id e = i" "e_restaurantId e = rid" "e_status e = SEATED" "\<exists>t. e_seatedAt e = Some t"
  using assms by (auto simp: seats_def seat_Inr)

definition seated_as :: "queue_entry \<Rightarrow> uuid list \<Rightarrow> seated_output \<Rightarrow> bool" where
  "seated_as e ts out \<longleftrightarrow>
     so_queueEntryId out = e_id e \<and> so_restaurantId out = e_restaurantId e \<and> so_tableIds out = ts \<and>
     so_status out = SEATED \<and> e_seatedAt e = Some (so_seatedAt out)"

text \<open>The common core: load, seat, request the tables upstream, commit.\<close>

lemma wp_seat_core:
  assumes inv: "db_inv (db w)"
    and r: "r \<in> set (entries (db w))" "r_id r = i" "r_restaurantId r = rid"
    and commit: "\<And>e w'. seats rid i (db w) e \<Longrightarrow> db_inv (db w') \<Longrightarrow> db_evolves (db w) (db w') \<Longrightarrow>
      row_replaced e (db w) (db w') \<Longrightarrow> map ta_tableId (active_assignments i (db w')) = ts \<Longrightarrow>
      wp (k e) Q E w'"
    and reject: "\<And>err w'. db w' = db w \<Longrightarrow> E err w'"
  shows "wp (bindE new_date (\<lambda>t1. bindE new_date (\<lambda>t2.
      bindE (liftE DomainError (seat t1 t2 (toDomain r))) (\<lambda>seated.
      bindE (assignTables rid (payload seated)) (\<lambda>_.
      bindE (assignTablesWithHistory seated ts staff (e_status (toDomain r))) k))))) Q E w"
proof (cases "r_status r = WAITING")
  case False
  then show ?thesis by (simp add: wp_simps new_date_def seat_def reject)
next
  case True
  have core: "wp (bindE (assignTables rid (payload e))
      (\<lambda>_. bindE (assignTablesWithHistory e ts staff WAITING) k)) Q E w'"
    if seat: "seat t1 t2 (toDomain r) = Inr e" and w': "db w' = db w" for t1 t2 e w'
  proof (rule restaurants.assign_then)
    fix w1 :: world assume w1: "db w1 = db w'"
    have id: "e_id e = i" and st: "e_status e = SEATED" using seat r by (auto simp: seat_Inr)
    have s: "seats rid i (db w) e" unfolding seats_def using r True seat by blast
    show "wp (bindE (assignTablesWithHistory e ts staff WAITING) k) Q E w1"
      unfolding wp_bindE
      by (rule wp_assignTablesWithHistory [of w1 r])
        (use inv r True w1 w' s id st commit reject life_one [OF life_step.life_seat [OF seat]] in simp_all)
  qed (use reject w' in simp)
  show ?thesis
    by (simp add: wp_simps(1-3) wp_liftE wp_ask new_date_def True split: sum.split)
      (use core [unfolded wp_bindE] reject in auto)
qed

lemma seat_messages_same_db [db_rules]: "stays same_db (seat_messages i e)"
  unfolding seat_messages_def Let_def by (intro same_db.stays_bindE same_db.stays_retE db_rules)

text \<open>Seating through the staff queue: the party left the queue, the rest moved up.\<close>

definition party_seated :: "seat_input \<Rightarrow> seated_output \<Rightarrow> database \<Rightarrow> database \<Rightarrow> bool" where
  "party_seated input out d d' \<longleftrightarrow>
     (\<exists>e. seats (sp_restaurantId input) (sp_queueEntryId input) d e \<and>
        left_queue (sp_restaurantId input) e d d' \<and>
        map ta_tableId (active_assignments (sp_queueEntryId input) d') = sp_tableIds input \<and>
        seated_as e (sp_tableIds input) out)"

text \<open>
  When the use case rejects, nothing was stored, or the party is seated with its tables and only
  the later steps failed.
\<close>

definition seat_rejected :: "seat_input \<Rightarrow> database \<Rightarrow> database \<Rightarrow> bool" where
  "seat_rejected input d d' \<longleftrightarrow>
     d' = d \<or>
     (\<exists>e. seats (sp_restaurantId input) (sp_queueEntryId input) d e \<and> toPersistence e \<in> set (entries d') \<and>
        map ta_tableId (active_assignments (sp_queueEntryId input) d') = sp_tableIds input \<and>
        queue_ids (sp_restaurantId input) d' = filter (\<lambda>i. i \<noteq> e_id e) (queue_ids (sp_restaurantId input) d) \<and>
        spares (sp_restaurantId input) d d')"

lemma wp_seat:
  assumes inv: "db_inv (db w)"
    and commit: "\<And>out w'. db_inv (db w') \<Longrightarrow> db_evolves (db w) (db w') \<Longrightarrow> party_seated input out (db w) (db w') \<Longrightarrow> Q out w'"
    and reject: "\<And>err w'. db_inv (db w') \<Longrightarrow> db_evolves (db w) (db w') \<Longrightarrow> seat_rejected input (db w) (db w') \<Longrightarrow> E err w'"
  shows "wp (seat_execute input) Q E w"
  unfolding seat_execute_unfold Let_def
proof (subst wp_bindE, rule wp_load_entry, rule wp_seat_core)
  let ?rid = "sp_restaurantId input" and ?i = "sp_queueEntryId input" and ?ts = "sp_tableIds input"
  fix r and w1 w2 :: world and e
  assume r: "r \<in> set (entries (db w))" "r_id r = ?i" "r_restaurantId r = ?rid" and w1: "db w1 = db w"
    and s: "seats ?rid ?i (db w1) e" and w2: "db_inv (db w2)" "db_evolves (db w1) (db w2)"
      "row_replaced e (db w1) (db w2)" "map ta_tableId (active_assignments ?i (db w2)) = ?ts"
  have id: "r_id r = e_id e" and out: "e_status e \<noteq> WAITING" using seatsD [OF s] r by simp_all
  have stored: "toPersistence e \<in> set (entries (db w2))"
    by (rule row_replaced_in [OF w2(3)]) (use r id w1 in simp_all)
  obtain t where t: "e_seatedAt e = Some t" using seatsD(4) [OF s] by auto
  have spares2: "spares ?rid (db w) (db w2)"
    by (rule spares_replaced [OF inv r(1) id r(3) seatsD(2) [OF s] w2(3) [unfolded w1]])
  have rejected: "E err w'" if "db w' = db w2" for err w'
    by (rule reject) (use that w2 w1 s stored spares2 queue_ids_leave [OF w2(3) out] in \<open>auto simp: seat_rejected_def\<close>)
  show "wp (bindE (refresh_queue ?rid ?i) (\<lambda>_. seat_messages input e)) Q E w2"
    unfolding wp_bindE
  proof (rule wp_refresh_queue [OF w2(1)])
    fix res :: recalculation_result and w3 :: world
    assume w3: "db_inv (db w3)" "db_evolves (db w2) (db w3)" "recalculated ?rid (db w2) (db w3)"
    have left: "left_queue ?rid e (db w) (db w3)"
      by (rule left_queueI [OF inv w2(3) [unfolded w1] r(1) id r(3) seatsD(2) [OF s] out w3(3)])
    have assigns: "active_assignments ?i (db w3) = active_assignments ?i (db w2)"
      using w3(3) by (simp add: recalculated_def others_kept_def active_assignments_def)
    have ev: "db_evolves (db w) (db w3)" using db_evolves_trans [OF w2(2) w3(2)] w1 by simp
    have msgs: "wp (seat_messages input e) (\<lambda>out w'. db w' = db w3 \<and> seated_as e ?ts out) (\<lambda>_ w'. db w' = db w3) w3"
      unfolding seat_messages_def Let_def t or_now_Some wp_bindE wp_retE
      by (intro wp_messages broadcast_same_db) (use seatsD [OF s] t in \<open>simp_all add: seated_as_def\<close>)
    show "wp (seat_messages input e) Q E w3"
    proof (rule wp_mono [OF msgs])
      fix out and w4 :: world assume "db w4 = db w3 \<and> seated_as e ?ts out"
      then show "Q out w4"
        by (intro commit) (use w3 ev left assigns w2 s w1 in \<open>auto simp: party_seated_def\<close>)
    next
      fix err and w4 :: world assume "db w4 = db w3"
      then show "E err w4"
        by (intro reject) (use w3 ev left assigns w2 s w1 spares_left [OF left]
          in \<open>auto simp: seat_rejected_def left_queue_def\<close>)
    qed
  qed (rule rejected)
qed (use inv reject in \<open>auto simp: seat_rejected_def\<close>)

text \<open>Assigning tables: the row is replaced, the positions of the others stay as they are.\<close>

definition tables_assigned :: "assign_input \<Rightarrow> seated_output \<Rightarrow> database \<Rightarrow> database \<Rightarrow> bool" where
  "tables_assigned input out d d' \<longleftrightarrow>
     (\<exists>e. seats (ai_restaurantId input) (ai_queueEntryId input) d e \<and>
        e_partySize e \<le> sum_list (map at_count (ai_tables input)) \<and> row_replaced e d d' \<and>
        map ta_tableId (active_assignments (ai_queueEntryId input) d') = map at_tableId (ai_tables input) \<and>
        seated_as e (map at_tableId (ai_tables input)) out)"

lemma publish_training_quiet [intro]: "e_seatedAt e = Some t \<Longrightarrow> quiet (publish_training e n)"
  by (cases n)
    (auto simp: publish_training_def toMlEtaTrainingEvent_def publishToMlEta_def
      intro!: quiet_bindE quiet_guarded attempt_same_db)

lemma ticket_seated_quiet [intro]: "quiet (ticket_seated_messages r i ts e)"
  unfolding ticket_seated_messages_def by (intro quiet_guarded same_db.stays_bindE broadcast_same_db)

lemma wp_assign:
  assumes inv: "db_inv (db w)"
    and commit: "\<And>out w'. db_inv (db w') \<Longrightarrow> db_evolves (db w) (db w') \<Longrightarrow> tables_assigned input out (db w) (db w') \<Longrightarrow> Q out w'"
    and reject: "\<And>err w'. db w' = db w \<Longrightarrow> E err w'"
  shows "wp (assign_execute input) Q E w"
  unfolding assign_execute_unfold Let_def
proof (subst wp_bindE, rule wp_load_entry)
  let ?rid = "ai_restaurantId input" and ?i = "ai_queueEntryId input" and ?ts = "map at_tableId (ai_tables input)"
  let ?seats = "sum_list (map at_count (ai_tables input))"
  fix r and w1 :: world
  assume r: "r \<in> set (entries (db w))" "r_id r = ?i" "r_restaurantId r = ?rid" and w1: "db w1 = db w"
  have tail: "wp (bindE (guarded (removeLiveEntry ?i)) (\<lambda>_.
      bindE (ticket_seated_messages ?rid ?i ?ts e) (\<lambda>_.
      bindE (publish_training e n) (\<lambda>_. assign_toOutputDTO e ?ts)))) Q E w'"
    if s: "seats ?rid ?i (db w) e" and size: "e_partySize e \<le> ?seats"
      and w': "db_inv (db w')" "db_evolves (db w) (db w')" "row_replaced e (db w) (db w')"
        "map ta_tableId (active_assignments ?i (db w')) = ?ts" for e w' n
  proof -
    obtain t where t: "e_seatedAt e = Some t" using seatsD(4) [OF s] by auto
    have "quiet (guarded (removeLiveEntry ?i))" by (intro quiet_guarded quiet_same_db quiet_removeLiveEntry)
    then show ?thesis
      unfolding wp_bindE assign_toOutputDTO_def t or_now_Some wp_retE
      by (elim wp_quiet, intro wp_quiet [OF ticket_seated_quiet] wp_quiet [OF publish_training_quiet [OF t]] commit)
        (use that seatsD [OF s] t in \<open>auto simp: tables_assigned_def seated_as_def\<close>)
  qed
  have core: "wp (bindE new_date (\<lambda>t1. bindE new_date (\<lambda>t2.
      bindE (liftE DomainError (seat t1 t2 (toDomain r))) (\<lambda>seated.
      bindE (assignTables ?rid (ai_tables input)) (\<lambda>_.
      bindE (assignTablesWithHistory seated ?ts (ai_staffUserId input) (e_status (toDomain r))) (\<lambda>persisted.
      bindE (guarded (removeLiveEntry ?i)) (\<lambda>_.
      bindE (ticket_seated_messages ?rid ?i ?ts persisted) (\<lambda>_.
      bindE (publish_training persisted n) (\<lambda>_. assign_toOutputDTO persisted ?ts)))))))) ) Q E w2"
    if w2: "db w2 = db w" and size: "r_partySize r \<le> ?seats" for w2 n
  proof (rule wp_seat_core [where payload = "\<lambda>_. ai_tables input"])
    fix e and w' :: world
    assume s: "seats ?rid ?i (db w2) e"
      and w': "db_inv (db w')" "db_evolves (db w2) (db w')" "row_replaced e (db w2) (db w')"
        "map ta_tableId (active_assignments ?i (db w')) = ?ts"
    from s obtain q where q: "q \<in> set (entries (db w))" "r_id q = ?i" "e_partySize e = r_partySize q"
      by (auto simp: seats_def seat_Inr w2)
    then have "q = r" using db_inv_row_eq [OF inv q(1) r(1)] r(2) by simp
    with q have "e_partySize e = r_partySize r" by simp
    then show "wp (bindE (guarded (removeLiveEntry ?i)) (\<lambda>_.
      bindE (ticket_seated_messages ?rid ?i ?ts e) (\<lambda>_.
      bindE (publish_training e n) (\<lambda>_. assign_toOutputDTO e ?ts)))) Q E w'"
      by (intro tail) (use s w' w2 size in simp_all)
  qed (use inv r w2 reject in auto)
  have count: "stays same_db (catchE (bindE (countPeopleAheadAtJoin ?rid (e_joinedAt (toDomain r)))
      (\<lambda>n. retE (Some n))) (\<lambda>_. retE None))"
    by (intro same_db.stays_catchE same_db.stays_bindE same_db.stays_retE queries_same_db)
  show "wp (if ?seats < e_partySize (toDomain r)
      then throwE (DomainError (InsufficientTableCapacityError (e_partySize (toDomain r)) ?seats))
      else bindE (catchE (bindE (countPeopleAheadAtJoin ?rid (e_joinedAt (toDomain r)))
            (\<lambda>n. retE (Some n))) (\<lambda>_. retE None)) (\<lambda>ahead.
        bindE new_date (\<lambda>t1. bindE new_date (\<lambda>t2.
        bindE (liftE DomainError (seat t1 t2 (toDomain r))) (\<lambda>seated.
        bindE (assignTables ?rid (ai_tables input)) (\<lambda>_.
        bindE (assignTablesWithHistory seated ?ts (ai_staffUserId input) (e_status (toDomain r))) (\<lambda>persisted.
        bindE (guarded (removeLiveEntry ?i)) (\<lambda>_.
        bindE (ticket_seated_messages ?rid ?i ?ts persisted) (\<lambda>_.
        bindE (publish_training persisted ahead) (\<lambda>_.
        assign_toOutputDTO persisted ?ts)))))))))) Q E w1"
  proof (cases "?seats < e_partySize (toDomain r)")
    case True
    then show ?thesis using w1 reject by (simp add: wp_throwE)
  next
    case False
    then have size: "r_partySize r \<le> ?seats" by simp
    show ?thesis
      unfolding if_not_P [OF False]
      by (subst wp_bindE, rule wp_same_db [OF count], rule core) (use w1 size reject in simp_all)
  qed
qed (use reject in auto)

end
