(* ===== verification/SkipParty.thy ===== *)
theory SkipParty
  imports Departure
begin

text \<open>
  \<open>SkipPartyUseCase\<close> (\<open>queue/skip-party.use-case.ts\<close>). With a positive number of positions the
  party moves back in the line and keeps waiting; without one it leaves the queue as skipped.
\<close>

record skip_input =
  sk_restaurantId :: uuid
  sk_queueEntryId :: uuid
  sk_staffUserId :: string
  sk_reason :: string
  sk_skipPositions :: "int option"

record skip_output =
  ko_queueEntryId :: uuid
  ko_restaurantId :: uuid
  ko_status :: queue_status
  ko_reason :: string
  ko_position :: "int option"

subsection \<open>Moving an entry in a list\<close>

fun find_index :: "('a \<Rightarrow> bool) \<Rightarrow> 'a list \<Rightarrow> nat option" where
  "find_index p [] = None"
| "find_index p (x # xs) = (if p x then Some 0 else map_option Suc (find_index p xs))"

text \<open>\<open>splice(i, 1)\<close> and \<open>splice(j, 0, removed)\<close>.\<close>

definition move_item :: "nat \<Rightarrow> nat \<Rightarrow> 'a list \<Rightarrow> 'a list" where
  "move_item i j xs =
     (let rest = take i xs @ drop (Suc i) xs in take j rest @ [xs ! i] @ drop j rest)"

definition skip_target :: "nat \<Rightarrow> int \<Rightarrow> nat \<Rightarrow> nat" where
  "skip_target currentIndex skipPositions len = nat (min (int currentIndex + skipPositions) (int len - 1))"

lemma find_index_Some: "find_index p xs = Some i \<Longrightarrow> i < length xs \<and> p (xs ! i)"
  by (induction xs arbitrary: i) (auto split: if_splits)

lemma find_index_None: "find_index p xs = None \<longleftrightarrow> (\<forall>x \<in> set xs. \<not> p x)"
  by (induction xs) auto

lemma mset_move_item: "i < length xs \<Longrightarrow> mset (move_item i j xs) = mset xs"
proof -
  assume i: "i < length xs"
  have "mset (move_item i j xs) = add_mset (xs ! i) (mset (take i xs @ drop (Suc i) xs))"
    unfolding move_item_def Let_def by (metis append_take_drop_id mset_append union_mset_add_mset_right
        append.simps(1,2) mset.simps(2) union_mset_add_mset_left)
  also have "\<dots> = mset (take i xs @ xs ! i # drop (Suc i) xs)" by simp
  finally show ?thesis using i by (simp add: id_take_nth_drop [symmetric])
qed

lemma length_move_item [simp]: "i < length xs \<Longrightarrow> length (move_item i j xs) = length xs"
  by (metis mset_move_item size_mset)

lemma nth_move_item: "i < length xs \<Longrightarrow> j < length xs \<Longrightarrow> move_item i j xs ! j = xs ! i"
  by (simp add: move_item_def Let_def nth_append min_def)

lemma map_move_item: "i < length xs \<Longrightarrow> map f (move_item i j xs) = move_item i j (map f xs)"
  by (simp add: move_item_def Let_def take_map drop_map)

lemma filter_move_item:
  assumes "i < length xs"
  shows "filter (\<lambda>x. x \<noteq> xs ! i) (move_item i j xs) = filter (\<lambda>x. x \<noteq> xs ! i) xs"
proof -
  have "filter P (take j ys @ drop j ys) = filter P ys" for P and ys :: "'a list" by simp
  then have "filter (\<lambda>x. x \<noteq> xs ! i) (move_item i j xs) = filter (\<lambda>x. x \<noteq> xs ! i) (take i xs @ drop (Suc i) xs)"
    unfolding move_item_def Let_def by (metis (mono_tags, lifting) append.simps filter.simps(2) filter_append)
  also have "\<dots> = filter (\<lambda>x. x \<noteq> xs ! i) (take i xs @ xs ! i # drop (Suc i) xs)" by simp
  finally show ?thesis by (simp only: id_take_nth_drop [OF assms, symmetric])
qed

subsection \<open>The use case\<close>

text \<open>\<open>`${reason} (shifted by ${skipPositions} positions)`\<close>.\<close>

definition shifted_reason :: "string \<Rightarrow> int \<Rightarrow> string" where
  "shifted_reason reason n = reason @ '' (shifted by '' @ show_int n @ '' positions)''"

definition index_updates :: "queue_entry list \<Rightarrow> position_update list" where
  "index_updates es = map (\<lambda>(idx, e). \<lparr> pu_id = e_id e, pu_position = Some (int idx + 1),
     pu_estimatedWaitMinutes = None \<rparr>) (List.enumerate 0 es)"

definition skip_params :: "skip_input \<Rightarrow> queue_status \<Rightarrow> queue_entry \<Rightarrow> string \<Rightarrow> update_status_params" where
  "skip_params input previousStatus e reason =
     \<lparr> us_queueEntry = e, us_previousStatus = previousStatus, us_changedBy = sk_staffUserId input,
       us_reason = Some reason, us_notes = None \<rparr>"

definition skip_messages :: "skip_input \<Rightarrow> queue_entry \<Rightarrow> string \<Rightarrow> int option \<Rightarrow> skip_output io" where
  "skip_messages input e reason position =
     (let data = \<lparr> d_event = EV_ENTRY_SKIPPED,
                   d_body = P_skipped (e_id e) (e_restaurantId e) (e_status e) reason position \<rparr>
      in bindE (broadcastToRestaurant (sk_restaurantId input) EV_ENTRY_SKIPPED data) (\<lambda>_.
         bindE (sendToTicket (sk_queueEntryId input) EV_ENTRY_SKIPPED data) (\<lambda>_.
         retE \<lparr> ko_queueEntryId = e_id e, ko_restaurantId = e_restaurantId e, ko_status = e_status e,
                ko_reason = sk_reason input, ko_position = position \<rparr>)))"

text \<open>The branch that moves the entry back in the line.\<close>

definition skip_shift :: "skip_input \<Rightarrow> queue_entry \<Rightarrow> int \<Rightarrow> queue_entry list \<Rightarrow> nat \<Rightarrow> skip_output io" where
  "skip_shift input queueEntry n activeEntries currentIndex =
     (let targetIndex = skip_target currentIndex n (length activeEntries);
          moved = move_item currentIndex targetIndex activeEntries;
          reason = shifted_reason (sk_reason input) n in
      bindE new_date (\<lambda>t.
      let shifted = updatePosition t (int targetIndex + 1) None queueEntry in
      bindE (batchUpdatePositions (index_updates moved)) (\<lambda>_.
      bindE (updateStatusWithHistory (skip_params input (e_status queueEntry) shifted reason)) (\<lambda>_.
      bindE (recalculate predictEta (sk_restaurantId input)) (\<lambda>_.
      skip_messages input shifted reason (Some (int targetIndex + 1)))))))"

text \<open>The branch that takes the entry out of the queue.\<close>

definition skip_leave :: "skip_input \<Rightarrow> queue_entry \<Rightarrow> skip_output io" where
  "skip_leave input queueEntry =
     bindE new_date (\<lambda>t.
     bindE (liftE DomainError (skip t queueEntry)) (\<lambda>skipped.
     bindE (updateStatusWithHistory
       (skip_params input (e_status queueEntry) skipped (sk_reason input))) (\<lambda>persisted.
     bindE (refresh_queue (sk_restaurantId input) (sk_queueEntryId input)) (\<lambda>_.
     skip_messages input persisted (sk_reason input) None))))"

text \<open>After the entry was loaded.\<close>

definition skip_loaded :: "skip_input \<Rightarrow> queue_entry \<Rightarrow> skip_output io" where
  "skip_loaded input queueEntry =
     (let restaurantId = sk_restaurantId input; queueEntryId = sk_queueEntryId input in
      if e_status queueEntry \<noteq> WAITING
      then throwE (DomainError (QueueEntryNotWaitingError queueEntryId (e_status queueEntry)))
      else
        (case sk_skipPositions input of
           Some n \<Rightarrow>
             if n > 0 then
               bindE (findActiveEntries restaurantId) (\<lambda>activeEntries.
               case find_index (\<lambda>e. e_id e = queueEntryId) activeEntries of
                 Some currentIndex \<Rightarrow> skip_shift input queueEntry n activeEntries currentIndex
               | None \<Rightarrow> skip_leave input queueEntry)
             else skip_leave input queueEntry
         | None \<Rightarrow> skip_leave input queueEntry))"

definition skip_execute :: "skip_input \<Rightarrow> skip_output io" where
  "skip_execute input =
     bindE (load_entry (sk_restaurantId input) (sk_queueEntryId input)) (skip_loaded input)"

lemmas skip_execute_unfold = skip_execute_def [unfolded skip_loaded_def [abs_def]]

subsection \<open>What moving back does\<close>

lemma set_index_updates:
  "u \<in> set (index_updates es) \<longleftrightarrow>
     (\<exists>k < length es. u = \<lparr> pu_id = e_id (es ! k), pu_position = Some (int k + 1), pu_estimatedWaitMinutes = None \<rparr>)"
  by (auto simp: index_updates_def in_set_enumerate_eq image_iff Bex_def)

lemma ids_index_updates [simp]: "map pu_id (index_updates es) = map e_id es"
  by (rule nth_equalityI) (simp_all add: index_updates_def nth_enumerate_eq)

lemma distinct_active_ids: "db_inv d \<Longrightarrow> distinct (map r_id (active_rows rid d))"
  using db_invD(5) [of d] by (simp add: active_rows_def distinct_map_filter distinct_map inj_on_def)

lemma index_updates_applied:
  assumes ids: "distinct (map r_id ys)" and timed: "map fst timed = index_updates (map toDomain ys)"
    and k: "k < length ys"
  shows "\<exists>t. apply_updates timed (ys ! k) = apply_position
    \<lparr> pu_id = r_id (ys ! k), pu_position = Some (int k + 1), pu_estimatedWaitMinutes = None \<rparr> t (ys ! k)"
proof (cases "find (\<lambda>(u, t). pu_id u = r_id (ys ! k)) timed")
  case None
  have "\<lparr> pu_id = r_id (ys ! k), pu_position = Some (int k + 1), pu_estimatedWaitMinutes = None \<rparr>
      \<in> set (map fst timed)"
    unfolding timed set_index_updates using k by auto
  then obtain t where "(\<lparr> pu_id = r_id (ys ! k), pu_position = Some (int k + 1),
      pu_estimatedWaitMinutes = None \<rparr>, t) \<in> set timed"
    by auto
  with None show ?thesis by (auto simp: find_None_iff)
next
  case (Some ut)
  obtain u t where ut: "ut = (u, t)" by (cases ut)
  with Some have u: "(u, t) \<in> set timed" "pu_id u = r_id (ys ! k)" by (auto dest: find_Some_D)
  then have "u \<in> set (map fst timed)" by force
  then obtain j where j: "j < length ys"
    "u = \<lparr> pu_id = r_id (ys ! j), pu_position = Some (int j + 1), pu_estimatedWaitMinutes = None \<rparr>"
    unfolding timed set_index_updates by auto
  with u(2) k ids have "j = k" by (auto simp: distinct_conv_nth)
  with Some ut j show ?thesis by (auto simp: apply_updates_def)
qed

lemma index_updates_run:
  assumes inv: "db_inv d" and perm: "mset ys = mset (active_rows rid d)"
    and timed: "map fst timed = index_updates (map toDomain ys)" and run: "tx_positions timed d = Inr d'"
  shows "db_inv d'" "db_evolves d d'" "entries d' = map (apply_updates timed) (entries d)"
    "active_rows rid d' = map (apply_updates timed) ys" "distinct (map r_id ys)"
    "spares rid d d'"
proof -
  show ids: "distinct (map r_id ys)"
    using distinct_active_ids [OF inv, of rid] perm by (metis mset_eq_imp_distinct_iff mset_map)
  have members: "set ys = set (active_rows rid d)" using perm by (metis mset_eq_setD)
  have "map (\<lambda>(u, t). pu_id u) timed = map pu_id (map fst timed)" by (simp add: case_prod_unfold)
  then have "distinct (map (\<lambda>(u, t). pu_id u) timed)" using ids by (simp add: timed comp_def)
  from tx_positions_closed [OF this run] show d': "entries d' = map (apply_updates timed) (entries d)"
    by (simp add: map_rows_def)
  have untouched: "apply_updates timed q = q" if q: "q \<in> set (entries d)" "r_restaurantId q \<noteq> rid" for q
  proof -
    have "pu_id u \<noteq> r_id q" if ut: "(u, t) \<in> set timed" for u t
    proof
      assume eq: "pu_id u = r_id q"
      have "u \<in> set (map fst timed)" using ut by force
      then obtain k where "k < length ys" "pu_id u = r_id (ys ! k)"
        unfolding timed set_index_updates by auto
      then obtain p where "p \<in> set ys" "pu_id u = r_id p" using nth_mem by blast
      with members have p: "p \<in> set (entries d)" "r_restaurantId p = rid" "r_id p = r_id q"
        using eq by (auto simp: set_active_rows waiting_at_def)
      with q show False using db_inv_row_eq [OF inv p(1) q(1)] by auto
    qed
    then have "find (\<lambda>(u, t). pu_id u = r_id q) timed = None" by (auto simp: find_None_iff)
    then show ?thesis by (simp add: apply_updates_def)
  qed
  then show "spares rid d d'" by (intro spares_map [OF _ d']) (auto simp: apply_updates_def split: option.split)
  have safe: "update_safe d u" if ut: "(u, t) \<in> set timed" for u t
  proof -
    have "u \<in> set (map fst timed)" using ut by force
    then obtain j where j: "j < length ys" "pu_id u = r_id (ys ! j)" "pu_position u = Some (int j + 1)"
      unfolding timed set_index_updates by auto
    have "ys ! j \<in> set (active_rows rid d)" using nth_mem [OF j(1)] members by simp
    then have "ys ! j \<in> set (entries d)" "r_status (ys ! j) = WAITING"
      by (auto simp: set_active_rows waiting_at_def)
    with j show ?thesis unfolding update_safe_def using db_inv_row_eq [OF inv] by (metis option.distinct(1))
  qed
  then show "db_inv d'" and "db_evolves d d'" using tx_positions_inv [OF inv _ run] by auto
  show "active_rows rid d' = map (apply_updates timed) ys"
  proof (rule active_rows_renumbered [OF d' _ perm])
    fix i assume "i < length ys"
    from index_updates_applied [OF ids timed this] show "r_position (apply_updates timed (ys ! i)) = Some (int i + 1)"
      by auto
  qed simp
qed

text \<open>The status transaction rewrites the moved entry with the position it already has.\<close>

lemma rewrite_moved:
  assumes act: "active_rows rid d1 = ys1" and ids: "distinct (map r_id ys1)" and k: "k < length ys1"
    and pos: "\<And>j. j < length ys1 \<Longrightarrow> r_position (ys1 ! j) = Some (int j + 1)"
    and e: "e_id e = r_id (ys1 ! k)" "e_position e = Some (int k + 1)" "e_status e = WAITING" "e_restaurantId e = rid"
    and unique: "\<And>q. q \<in> set (entries d1) \<Longrightarrow> r_id q = r_id (ys1 ! k) \<Longrightarrow> q = ys1 ! k"
    and rep: "row_replaced e d1 d2"
  shows "queue_ids rid d2 = queue_ids rid d1"
proof -
  let ?f = "at_id (e_id e) (\<lambda>_. toPersistence e)"
  have member: "ys1 ! k \<in> set (active_rows rid d1)" using act k by simp
  have "active_rows rid d2 = map ?f ys1"
  proof (rule active_rows_renumbered [OF rep [unfolded row_replaced_def]])
    fix q assume "q \<in> set (entries d1)"
    then show "waiting_at rid (?f q) = waiting_at rid q"
      using unique [of q] e member by (auto simp: at_id_def waiting_at_def set_active_rows)
  next
    fix j assume j: "j < length ys1"
    then have "j = k" if "r_id (ys1 ! j) = r_id (ys1 ! k)"
      using ids k that by (simp add: distinct_conv_nth) metis
    with pos [OF j] e show "r_position (?f (ys1 ! j)) = Some (int j + 1)" by (auto simp: at_id_def)
  qed (simp add: act)
  moreover have "r_id (?f q) = r_id q" for q by (simp add: at_id_def)
  ultimately show ?thesis using act by (simp add: queue_ids_def)
qed

subsection \<open>What the use case does\<close>

definition skips :: "skip_input \<Rightarrow> database \<Rightarrow> queue_entry \<Rightarrow> bool" where
  "skips input d e \<longleftrightarrow>
     (\<exists>r \<in> set (entries d). \<exists>t. r_id r = sk_queueEntryId input \<and>
        r_restaurantId r = sk_restaurantId input \<and> skip t (toDomain r) = Inr e)"

text \<open>The party left the queue as skipped, and the rest moved up.\<close>

definition party_skipped :: "skip_input \<Rightarrow> skip_output \<Rightarrow> database \<Rightarrow> database \<Rightarrow> bool" where
  "party_skipped input out d d' \<longleftrightarrow>
     (\<forall>n. sk_skipPositions input = Some n \<longrightarrow> n \<le> 0) \<and>
     (\<exists>e. skips input d e \<and> left_queue (sk_restaurantId input) e d d' \<and>
        ko_queueEntryId out = e_id e \<and> ko_status out = SKIPPED \<and> ko_position out = None)"

text \<open>
  When the use case rejects: the line is as it was, or the party left it or has moved in it, and the
  rows of other restaurants are untouched.
\<close>

definition line_skipped :: "uuid \<Rightarrow> uuid list \<Rightarrow> uuid list \<Rightarrow> bool" where
  "line_skipped i xs ys \<longleftrightarrow>
     ys = filter (\<lambda>j. j \<noteq> i) xs \<or>
     mset ys = mset xs \<and> filter (\<lambda>j. j \<noteq> i) ys = filter (\<lambda>j. j \<noteq> i) xs"

definition skip_rejected :: "skip_input \<Rightarrow> database \<Rightarrow> database \<Rightarrow> bool" where
  "skip_rejected input d d' \<longleftrightarrow>
     spares (sk_restaurantId input) d d' \<and>
     line_skipped (sk_queueEntryId input) (queue_ids (sk_restaurantId input) d) (queue_ids (sk_restaurantId input) d')"

lemma skip_rejected_refl [simp]: "skip_rejected input d d"
  by (simp add: skip_rejected_def line_skipped_def)

lemma line_skipped_move: "k < length xs \<Longrightarrow> line_skipped (xs ! k) xs (move_item k j xs)"
  by (simp add: line_skipped_def mset_move_item filter_move_item)

text \<open>
  The party moved back by the given number of positions, or to the end of the line, and every
  other entry of the restaurant kept its place relative to the rest.
\<close>

definition party_shifted :: "skip_input \<Rightarrow> skip_output \<Rightarrow> database \<Rightarrow> database \<Rightarrow> bool" where
  "party_shifted input out d d' \<longleftrightarrow>
     (let rid = sk_restaurantId input; ids = queue_ids rid d in
      \<exists>n i. sk_skipPositions input = Some n \<and> 0 < n \<and> i < length ids \<and> ids ! i = sk_queueEntryId input \<and>
        queue_ids rid d' = move_item i (min (i + nat n) (length ids - 1)) ids \<and> contiguous rid d' \<and>
        spares rid d d' \<and> ko_queueEntryId out = sk_queueEntryId input \<and> ko_status out = WAITING \<and>
        ko_position out = Some (int (min (i + nat n) (length ids - 1)) + 1))"

lemma skip_messages_same_db [db_rules]: "stays same_db (skip_messages i e s p)"
  unfolding skip_messages_def Let_def by (intro same_db.stays_bindE same_db.stays_retE db_rules)

lemma wp_skip_messages:
  assumes "\<And>w'. db w' = db w \<Longrightarrow> Q \<lparr> ko_queueEntryId = e_id e, ko_restaurantId = e_restaurantId e,
      ko_status = e_status e, ko_reason = sk_reason input, ko_position = p \<rparr> w'"
    and "\<And>err w'. db w' = db w \<Longrightarrow> E err w'"
  shows "wp (skip_messages input e s p) Q E w"
  unfolding skip_messages_def Let_def wp_bindE wp_retE
  by (intro wp_messages [OF broadcast_same_db(2)] wp_messages [OF broadcast_same_db(4)]) (use assms in auto)

lemma wp_skip_leave:
  assumes inv: "db_inv (db w)" and r: "r \<in> set (entries (db w))" "r_id r = sk_queueEntryId input"
      "r_restaurantId r = sk_restaurantId input" and waiting: "r_status r = WAITING"
    and leave: "\<forall>n. sk_skipPositions input = Some n \<longrightarrow> n \<le> 0"
    and commit: "\<And>out w'. db_inv (db w') \<Longrightarrow> db_evolves (db w) (db w') \<Longrightarrow> party_skipped input out (db w) (db w') \<Longrightarrow> Q out w'"
    and reject: "\<And>err w'. db_inv (db w') \<Longrightarrow> db_evolves (db w) (db w') \<Longrightarrow> skip_rejected input (db w) (db w') \<Longrightarrow> E err w'"
  shows "wp (skip_leave input (toDomain r)) Q E w"
proof -
  let ?rid = "sk_restaurantId input" and ?i = "sk_queueEntryId input"
  have core: "wp (updateStatusWithHistory (skip_params input WAITING e (sk_reason input))) (\<lambda>x.
      wp (refresh_queue ?rid ?i) (\<lambda>_. wp (skip_messages input x (sk_reason input) None) Q E) E) E w1"
    if run: "skip t (toDomain r) = Inr e" and w1: "db w1 = db w" for t e w1
  proof (rule wp_updateStatusWithHistory [of w1 r], goal_cases)
    case 4
    then show ?case using life_one [OF life_step.life_skip [OF run]] by (simp add: skip_params_def)
  next
    case (6 w2)
    have e: "e_id e = r_id r" "e_status e = SKIPPED" and rest: "e_restaurantId e = ?rid"
      using run r(3) by (auto simp: skip_Inr)
    have s: "skips input (db w) e" unfolding skips_def using r run by blast
    from 6 w1 have w2: "db_inv (db w2)" "db_evolves (db w) (db w2)" "row_replaced e (db w) (db w2)"
      by (simp_all add: skip_params_def)
    show ?case
      unfolding skip_params_def update_status_params.simps
    proof (rule wp_refresh_queue [OF w2(1)])
      fix res :: recalculation_result and w3 :: world
      assume w3: "db_inv (db w3)" "db_evolves (db w2) (db w3)" "recalculated ?rid (db w2) (db w3)"
      have ev: "db_evolves (db w) (db w3)" by (rule db_evolves_trans [OF w2(2) w3(2)])
      have left: "left_queue ?rid e (db w) (db w3)"
        by (rule left_queueI [OF inv w2(3) r(1) e(1) [symmetric] r(3) rest _ w3(3)]) (simp add: e)
      have spares3: "skip_rejected input (db w) (db w3)"
        using spares_left [OF left] left e(1) r(2)
        by (simp add: skip_rejected_def line_skipped_def left_queue_def)
      from left have fin: "party_skipped input out (db w) (db w3)"
        if "ko_queueEntryId out = e_id e" "ko_status out = SKIPPED" "ko_position out = None" for out
        using that s leave by (auto simp: party_skipped_def)
      show "wp (skip_messages input e (sk_reason input) None) Q E w3"
        by (rule wp_skip_messages) (use w3(1) ev fin e spares3 commit reject in simp_all)
    next
      fix err :: js_error and w' :: world
      assume "db w' = db w2"
      then show "E err w'"
        by (intro reject) (use w2 spares_replaced [OF inv r(1) e(1) [symmetric] r(3) rest w2(3)]
            queue_ids_leave [OF w2(3)] e r(2) in \<open>auto simp: skip_rejected_def line_skipped_def\<close>)
    qed
  qed (use inv r w1 waiting reject in \<open>auto simp: skip_params_def\<close>)
  show ?thesis
    unfolding skip_leave_def new_date_def wp_bindE wp_ask wp_liftE
    using core reject inv waiting by (auto simp: skip_def split: sum.split)
qed

lemma skip_target_less: "0 < n \<Longrightarrow> i < len \<Longrightarrow> skip_target i n len < len"
  by (auto simp: skip_target_def)

lemma skip_target_eq: "0 < n \<Longrightarrow> i < len \<Longrightarrow> skip_target i n len = min (i + nat n) (len - 1)"
  by (auto simp: skip_target_def)

lemma wp_skip_shift:
  assumes inv: "db_inv (db w)" and r: "r \<in> set (entries (db w))" "r_id r = sk_queueEntryId input"
      "r_restaurantId r = sk_restaurantId input" and waiting: "r_status r = WAITING"
    and n: "sk_skipPositions input = Some n" "0 < n"
    and i: "i < length (active_rows (sk_restaurantId input) (db w))"
      "active_rows (sk_restaurantId input) (db w) ! i = r"
    and commit: "\<And>out w'. db_inv (db w') \<Longrightarrow> db_evolves (db w) (db w') \<Longrightarrow> party_shifted input out (db w) (db w') \<Longrightarrow> Q out w'"
    and reject: "\<And>err w'. db_inv (db w') \<Longrightarrow> db_evolves (db w) (db w') \<Longrightarrow> skip_rejected input (db w) (db w') \<Longrightarrow> E err w'"
  shows "wp (skip_shift input (toDomain r) n (map toDomain (active_rows (sk_restaurantId input) (db w))) i) Q E w"
proof -
  let ?rid = "sk_restaurantId input" and ?d = "db w"
  let ?a = "active_rows ?rid ?d"
  define tgt where "tgt = skip_target i n (length ?a)"
  define ys where "ys = move_item i tgt ?a"
  have tgt: "tgt < length ?a" unfolding tgt_def by (rule skip_target_less [OF n(2) i(1)])
  have perm: "mset ys = mset ?a" unfolding ys_def by (rule mset_move_item [OF i(1)])
  have len: "length ys = length ?a" using i by (simp add: ys_def)
  have at: "ys ! tgt = r" using nth_move_item [OF i(1) tgt] i(2) by (simp add: ys_def)
  have moved: "move_item i tgt (map toDomain ?a) = map toDomain ys" using i by (simp add: ys_def map_move_item)
  have core: "wp (batchUpdatePositions (index_updates (map toDomain ys))) (\<lambda>_.
      wp (updateStatusWithHistory (skip_params input WAITING e reason)) (\<lambda>_.
      wp (recalculate predictEta ?rid) (\<lambda>_.
      wp (skip_messages input e reason (Some (int tgt + 1))) Q E) E) E) E w1"
    if e_def: "e = updatePosition t (int tgt + 1) None (toDomain r)" and w1: "db w1 = ?d" for t e w1 reason
  proof (rule wp_batchUpdatePositions)
    fix timed and w2 :: world
    assume timed: "map fst timed = index_updates (map toDomain ys)" and run: "tx_positions timed (db w1) = Inr (db w2)"
    let ?f = "apply_updates timed"
    note d1 = index_updates_run [OF inv perm timed run [unfolded w1]]
    have k: "tgt < length ys" using tgt len by simp
    obtain t1 where fr: "?f r = apply_position \<lparr> pu_id = r_id r, pu_position = Some (int tgt + 1),
        pu_estimatedWaitMinutes = None \<rparr> t1 r"
      using index_updates_applied [OF d1(5) timed k] at by auto
    have fr_dom: "toDomain (?f r) = updatePosition t1 (int tgt + 1) None (toDomain r)"
      using apply_position_eq [OF waiting, of "\<lparr> pu_id = r_id r, pu_position = Some (int tgt + 1),
        pu_estimatedWaitMinutes = None \<rparr>"] by (simp add: fr)
    have e: "e = updatePosition t (int tgt + 1) None (toDomain (?f r))" "e_id e = r_id r" "e_status e = WAITING"
      "e_restaurantId e = ?rid" "e_position e = Some (int tgt + 1)"
      unfolding fr_dom e_def using waiting r by (simp_all add: updatePosition_eq)
    have fr_in: "?f r \<in> set (entries (db w2))" using r(1) d1(3) by simp
    have moved_id: "queue_ids ?rid ?d ! i = sk_queueEntryId input" "i < length (queue_ids ?rid ?d)"
      using i r(2) by (simp_all add: queue_ids_def)
    have ids2: "queue_ids ?rid (db w2) = move_item i tgt (queue_ids ?rid ?d)"
      using i by (simp add: queue_ids_def d1(4) comp_def ys_def map_move_item)
    have stopped2: "skip_rejected input ?d (db w2)"
      using d1(6) line_skipped_move [OF moved_id(2), of tgt] ids2 moved_id(1) by (simp add: skip_rejected_def)
    have fr_st: "r_status (?f r) = WAITING" and fr_id: "r_id (?f r) = r_id r"
      using waiting by (simp_all add: fr)
    show "wp (updateStatusWithHistory (skip_params input WAITING e reason)) (\<lambda>_.
      wp (recalculate predictEta ?rid) (\<lambda>_.
      wp (skip_messages input e reason (Some (int tgt + 1))) Q E) E) E w2"
    proof (rule wp_updateStatusWithHistory [of w2 "?f r"], goal_cases)
      case 4
      have "life (toDomain (?f r)) e" unfolding e(1) by (rule life_one [OF life_step.life_move])
      then show ?case by (simp add: skip_params_def)
    next
      case (6 w3)
      then have w3: "db_inv (db w3)" "db_evolves (db w2) (db w3)" "row_replaced e (db w2) (db w3)"
        by (simp_all add: skip_params_def)
      have ids3: "queue_ids ?rid (db w3) = queue_ids ?rid (db w2)"
      proof (rule rewrite_moved [OF d1(4), of tgt e])
        show "distinct (map r_id (map ?f ys))" using d1(5) by (simp add: comp_def)
        show "r_position (map ?f ys ! j) = Some (int j + 1)" if "j < length (map ?f ys)" for j
          using index_updates_applied [OF d1(5) timed, of j] that by auto
        show "q = map ?f ys ! tgt" if "q \<in> set (entries (db w2))" "r_id q = r_id (map ?f ys ! tgt)" for q
          using db_inv_row_eq [OF d1(1) that(1) fr_in] that(2) k at fr_id by simp
      qed (use k at e w3 fr_id in simp_all)
      have ev3: "db_evolves ?d (db w3)" by (rule db_evolves_trans [OF d1(2) w3(2)])
      have spares3: "spares ?rid ?d (db w3)"
        by (rule spares_trans [OF d1(6) spares_replaced [OF d1(1) fr_in _ _ e(4) w3(3)]]) (use fr_id e(2) r apply_position_rest in \<open>simp_all add: fr\<close>)
      have stopped3: "skip_rejected input ?d (db w3)"
        using spares3 line_skipped_move [OF moved_id(2), of tgt] ids2 ids3 moved_id(1) by (simp add: skip_rejected_def)
      show ?case
      proof (rule ml_eta.recalculate_wp [OF w3(1)])
        fix res :: recalculation_result and w4 :: world
        assume w4: "db_inv (db w4)" "db_evolves (db w3) (db w4)" "recalculated ?rid (db w3) (db w4)"
        have ev: "db_evolves ?d (db w4)" by (rule db_evolves_trans [OF ev3 w4(2)])
        have spares4: "spares ?rid ?d (db w4)"
          by (rule spares_trans [OF spares3 spares_recalculated [OF w4(3)]])
        have "queue_ids ?rid (db w4) = move_item i tgt (queue_ids ?rid ?d)"
          using w4(3) ids2 ids3 by (simp add: recalculated_def)
        then have stopped4: "skip_rejected input ?d (db w4)"
          using spares4 line_skipped_move [OF moved_id(2), of tgt] moved_id(1) by (simp add: skip_rejected_def)
        from \<open>queue_ids ?rid (db w4) = _\<close> have fin: "party_shifted input out ?d (db w4)"
          if "ko_queueEntryId out = r_id r" "ko_status out = WAITING" "ko_position out = Some (int tgt + 1)" for out
          using that n i r tgt w4(3) spares4 unfolding party_shifted_def Let_def
          by (intro exI [of _ n] exI [of _ i]) (simp add: queue_ids_def tgt_def recalculated_def skip_target_eq)
        show "wp (skip_messages input e reason (Some (int tgt + 1))) Q E w4"
          by (rule wp_skip_messages) (use w4(1) ev fin e stopped4 commit reject in simp_all)
      next
        fix err :: js_error and w' :: world
        assume "db w' = db w3"
        then show "E err w'" by (intro reject) (use w3 ev3 stopped3 in auto)
      qed
    next
      case (7 err w')
      then show ?case by (intro reject) (use d1 stopped2 in auto)
    qed (use d1 fr_in fr_st in \<open>simp_all add: skip_params_def\<close>)
  next
    fix err :: js_error and w' :: world
    assume "db w' = db w1"
    then show "E err w'" by (intro reject) (use inv w1 in auto)
  qed
  have goal: "wp (skip_shift input (toDomain r) n (map toDomain ?a) i) Q E w =
      wp (batchUpdatePositions (index_updates (map toDomain ys))) (\<lambda>_.
      wp (updateStatusWithHistory (skip_params input WAITING
          (updatePosition (clock (ext w) (tick w)) (int tgt + 1) None (toDomain r))
          (shifted_reason (sk_reason input) n))) (\<lambda>_.
      wp (recalculate predictEta ?rid) (\<lambda>_.
      wp (skip_messages input (updatePosition (clock (ext w) (tick w)) (int tgt + 1) None (toDomain r))
          (shifted_reason (sk_reason input) n) (Some (int tgt + 1))) Q E) E) E) E (w\<lparr> tick := Suc (tick w) \<rparr>)"
    unfolding skip_shift_def Let_def new_date_def wp_bindE wp_ask
    by (simp add: tgt_def [symmetric] moved waiting)
  show ?thesis unfolding goal by (rule core [OF refl]) simp
qed

lemma wp_skip:
  assumes inv: "db_inv (db w)"
    and commit: "\<And>out w'. db_inv (db w') \<Longrightarrow> db_evolves (db w) (db w') \<Longrightarrow>
      party_skipped input out (db w) (db w') \<or> party_shifted input out (db w) (db w') \<Longrightarrow> Q out w'"
    and reject: "\<And>err w'. db_inv (db w') \<Longrightarrow> db_evolves (db w) (db w') \<Longrightarrow> skip_rejected input (db w) (db w') \<Longrightarrow> E err w'"
  shows "wp (skip_execute input) Q E w"
  unfolding skip_execute_unfold Let_def wp_bindE
proof (rule wp_load_entry)
  let ?rid = "sk_restaurantId input" and ?i = "sk_queueEntryId input"
  fix r and w1 :: world
  assume r: "r \<in> set (entries (db w))" "r_id r = ?i" "r_restaurantId r = ?rid" and w1: "db w1 = db w"
  let ?branch = "case sk_skipPositions input of
           Some n \<Rightarrow>
             if n > 0 then
               bindE (findActiveEntries ?rid) (\<lambda>activeEntries.
               case find_index (\<lambda>e. e_id e = ?i) activeEntries of
                 Some currentIndex \<Rightarrow> skip_shift input (toDomain r) n activeEntries currentIndex
               | None \<Rightarrow> skip_leave input (toDomain r))
             else skip_leave input (toDomain r)
         | None \<Rightarrow> skip_leave input (toDomain r)"
  have branch: "wp ?branch Q E w1" if waiting: "r_status r = WAITING"
  proof -
    have leave: "wp (skip_leave input (toDomain r)) Q E w1"
      if "\<forall>n. sk_skipPositions input = Some n \<longrightarrow> n \<le> 0"
      by (rule wp_skip_leave) (use inv r w1 waiting that commit reject in auto)
    have shift: "wp (bindE (findActiveEntries ?rid) (\<lambda>activeEntries.
        case find_index (\<lambda>e. e_id e = ?i) activeEntries of
          Some currentIndex \<Rightarrow> skip_shift input (toDomain r) n activeEntries currentIndex
        | None \<Rightarrow> skip_leave input (toDomain r))) Q E w1"
      if n: "sk_skipPositions input = Some n" "0 < n" for n
      unfolding wp_bindE
    proof (rule wp_findActiveEntries)
      fix w2 :: world
      assume w2: "db w2 = db w1"
      let ?a = "active_rows ?rid (db w1)"
      have "r \<in> set ?a" using r w1 waiting by (simp add: set_active_rows waiting_at_def)
      then obtain k where k: "find_index (\<lambda>e. e_id e = ?i) (map toDomain ?a) = Some k"
        using find_index_None [of "\<lambda>e. e_id e = ?i" "map toDomain ?a"] r by (cases "find_index (\<lambda>e. e_id e = ?i) (map toDomain ?a)") auto
      then have "k < length ?a" "r_id (?a ! k) = r_id r" using find_index_Some [OF k] r by auto
      moreover have "?a ! k \<in> set (entries (db w))"
        using nth_mem [OF \<open>k < length ?a\<close>] w1 by (simp add: set_active_rows)
      ultimately have at: "k < length ?a" "?a ! k = r" using db_inv_row_eq [OF inv _ r(1)] by auto
      show "wp (case find_index (\<lambda>e. e_id e = ?i) (map toDomain ?a) of
          Some currentIndex \<Rightarrow> skip_shift input (toDomain r) n (map toDomain ?a) currentIndex
        | None \<Rightarrow> skip_leave input (toDomain r)) Q E w2"
        unfolding k option.case
        by (subst w2 [symmetric], rule wp_skip_shift) (use inv r w1 w2 waiting n at commit reject in auto)
    qed (use inv w1 reject in auto)
    show ?thesis
      using leave shift by (cases "sk_skipPositions input") (auto simp: not_less)
  qed
  show "wp (if e_status (toDomain r) \<noteq> WAITING
      then throwE (DomainError (QueueEntryNotWaitingError ?i (e_status (toDomain r)))) else ?branch) Q E w1"
    using branch reject inv w1 by (simp add: wp_throwE)
qed (use inv reject in auto)

end
