(* ===== verification/CancelEntry.thy ===== *)
theory CancelEntry
  imports Departure
begin

text \<open>
  \<open>CancelQueueEntryUseCase\<close> (\<open>queue/cancel-queue-entry.use-case.ts\<close>): a waiting entry becomes
  cancelled or a no-show, its tables are released where it has any, and the queue is recalculated.
\<close>

record cancel_input =
  ci_restaurantId :: uuid
  ci_queueEntryId :: uuid
  ci_staffUserId :: string
  ci_reason :: string
  ci_notes :: "string option"

record cancel_output =
  co_queueEntryId :: uuid
  co_restaurantId :: uuid
  co_status :: queue_status
  co_reason :: string
  co_notes :: "string option"
  co_cancelledAt :: millis

definition is_no_show :: "string \<Rightarrow> bool" where
  "is_no_show reason \<longleftrightarrow> js_upper (js_trim reason) = status_string NO_SHOW"

definition cancel_target :: "string \<Rightarrow> queue_status" where
  "cancel_target reason = (if is_no_show reason then NO_SHOW else CANCELLED)"

definition release_payload :: "int \<Rightarrow> table_assignment list \<Rightarrow> release_item list" where
  "release_payload partySize activeAssignments =
     map (\<lambda>(a, n). \<lparr> rt_tableId = ta_tableId a, rt_occupancyToRelease = n \<rparr>)
       (share_party partySize activeAssignments)"

definition release_assignments :: "cancel_input \<Rightarrow> queue_entry \<Rightarrow> unit io" where
  "release_assignments input cancelled =
     bindE (findActiveTableAssignments (ci_queueEntryId input)) (\<lambda>activeAssignments.
       if activeAssignments \<noteq> [] then
         bindE (releaseTables (ci_restaurantId input)
           (release_payload (e_partySize cancelled) activeAssignments)) (\<lambda>_.
         releaseTableAssignments (ci_queueEntryId input))
       else retE ())"

definition cancel_messages :: "cancel_input \<Rightarrow> queue_entry \<Rightarrow> cancel_output io" where
  "cancel_messages input persisted =
     bindE (or_now (e_cancelledAt persisted)) (\<lambda>cancelledAtIso.
     let isNoShow = is_no_show (ci_reason input);
         event = (if isNoShow then EV_ENTRY_NO_SHOW else EV_ENTRY_CANCELLED);
         data = \<lparr> d_event = event,
                  d_body = P_cancelled (e_id persisted) (e_restaurantId persisted) (e_status persisted)
                    (ci_reason input) (ci_notes input) cancelledAtIso \<rparr>
     in bindE (broadcastToRestaurant (ci_restaurantId input) event data) (\<lambda>_.
        bindE (sendToTicket (ci_queueEntryId input) event data) (\<lambda>_.
        bindE (if isNoShow then sendToTicket (ci_queueEntryId input) EV_ENTRY_CANCELLED data
               else retE ()) (\<lambda>_.
        retE \<lparr> co_queueEntryId = e_id persisted, co_restaurantId = e_restaurantId persisted,
               co_status = e_status persisted, co_reason = ci_reason input,
               co_notes = ci_notes input, co_cancelledAt = cancelledAtIso \<rparr>))))"

definition cancel_params :: "cancel_input \<Rightarrow> queue_status \<Rightarrow> queue_entry \<Rightarrow> update_status_params" where
  "cancel_params input previousStatus cancelled =
     \<lparr> us_queueEntry = cancelled, us_previousStatus = previousStatus,
       us_changedBy = ci_staffUserId input, us_reason = Some (ci_reason input),
       us_notes = ci_notes input \<rparr>"

text \<open>After the entry was loaded.\<close>

definition cancel_loaded :: "cancel_input \<Rightarrow> queue_entry \<Rightarrow> cancel_output io" where
  "cancel_loaded input queueEntry =
     (let restaurantId = ci_restaurantId input; queueEntryId = ci_queueEntryId input in
      bindE new_date (\<lambda>t1. bindE new_date (\<lambda>t2.
      bindE (liftE DomainError (cancel (cancel_target (ci_reason input)) t1 t2 queueEntry)) (\<lambda>cancelled.
      bindE (release_assignments input cancelled) (\<lambda>_.
      bindE (updateStatusWithHistory (cancel_params input (e_status queueEntry) cancelled)) (\<lambda>persisted.
      bindE (refresh_queue restaurantId queueEntryId) (\<lambda>_.
      cancel_messages input persisted)))))))"

definition cancel_execute :: "cancel_input \<Rightarrow> cancel_output io" where
  "cancel_execute input =
     bindE (load_entry (ci_restaurantId input) (ci_queueEntryId input)) (cancel_loaded input)"

lemmas cancel_execute_unfold = cancel_execute_def [unfolded cancel_loaded_def [abs_def]]

subsection \<open>What cancelling does\<close>

definition cancels :: "cancel_input \<Rightarrow> database \<Rightarrow> queue_entry \<Rightarrow> bool" where
  "cancels input d e \<longleftrightarrow>
     (\<exists>r \<in> set (entries d). \<exists>t1 t2. r_id r = ci_queueEntryId input \<and>
        r_restaurantId r = ci_restaurantId input \<and> r_status r = WAITING \<and>
        cancel (cancel_target (ci_reason input)) t1 t2 (toDomain r) = Inr e)"

lemma cancelsD:
  assumes "cancels input d e"
  shows "e_id e = ci_queueEntryId input" "e_restaurantId e = ci_restaurantId input"
    "e_status e = cancel_target (ci_reason input)" "\<exists>t. e_cancelledAt e = Some t"
  using assms by (auto simp: cancels_def cancel_Inr)

lemma cancel_target_out [simp]: "cancel_target s \<noteq> WAITING" "cancel_target s \<in> {CANCELLED, NO_SHOW}"
  by (simp_all add: cancel_target_def)

definition entry_cancelled :: "cancel_input \<Rightarrow> cancel_output \<Rightarrow> database \<Rightarrow> database \<Rightarrow> bool" where
  "entry_cancelled input out d d' \<longleftrightarrow>
     (\<exists>e. cancels input d e \<and> left_queue (ci_restaurantId input) e d d' \<and> assigns d' = assigns d \<and>
        co_queueEntryId out = e_id e \<and> co_restaurantId out = e_restaurantId e \<and>
        co_status out = (if js_upper (js_trim (ci_reason input)) = ''NO_SHOW'' then NO_SHOW else CANCELLED) \<and>
        e_status e = co_status out \<and> e_cancelledAt e = Some (co_cancelledAt out) \<and>
        co_reason out = ci_reason input \<and> co_notes out = ci_notes input)"

definition cancel_rejected :: "cancel_input \<Rightarrow> database \<Rightarrow> database \<Rightarrow> bool" where
  "cancel_rejected input d d' \<longleftrightarrow>
     d' = d \<or>
     (\<exists>e. cancels input d e \<and> toPersistence e \<in> set (entries d') \<and>
        queue_ids (ci_restaurantId input) d' = filter (\<lambda>i. i \<noteq> e_id e) (queue_ids (ci_restaurantId input) d) \<and>
        spares (ci_restaurantId input) d d')"

text \<open>Only waiting entries get here, and those have no tables: nothing is released.\<close>

lemma wp_release_assignments:
  assumes none: "active_assignments (ci_queueEntryId input) (db w) = []"
    and "\<And>w'. db w' = db w \<Longrightarrow> Q () w'" and "\<And>e w'. db w' = db w \<Longrightarrow> E e w'"
  shows "wp (release_assignments input e) Q E w"
  unfolding release_assignments_def wp_bindE
  by (rule wp_findActiveTableAssignments) (use assms in \<open>simp_all add: wp_simps\<close>)

lemma wp_cancel:
  assumes inv: "db_inv (db w)"
    and commit: "\<And>out w'. db_inv (db w') \<Longrightarrow> db_evolves (db w) (db w') \<Longrightarrow> entry_cancelled input out (db w) (db w') \<Longrightarrow> Q out w'"
    and reject: "\<And>err w'. db_inv (db w') \<Longrightarrow> db_evolves (db w) (db w') \<Longrightarrow> cancel_rejected input (db w) (db w') \<Longrightarrow> E err w'"
  shows "wp (cancel_execute input) Q E w"
  unfolding cancel_execute_unfold Let_def
proof (subst wp_bindE, rule wp_load_entry)
  let ?rid = "ci_restaurantId input" and ?i = "ci_queueEntryId input"
  fix r and w1 :: world
  assume r: "r \<in> set (entries (db w))" "r_id r = ?i" "r_restaurantId r = ?rid" and w1: "db w1 = db w"
  have same: "E err w'" if "db w' = db w" for err w'
    by (rule reject) (use inv that in \<open>auto simp: cancel_rejected_def\<close>)
  have core: "wp (bindE (release_assignments input e) (\<lambda>_.
      bindE (updateStatusWithHistory (cancel_params input (r_status r) e)) (\<lambda>persisted.
      bindE (refresh_queue ?rid ?i) (\<lambda>_. cancel_messages input persisted)))) Q E w2"
    if run: "cancel (cancel_target (ci_reason input)) t1 t2 (toDomain r) = Inr e" and w2: "db w2 = db w" for t1 t2 e w2
  proof -
    have waiting: "r_status r = WAITING" using run by (auto simp: cancel_Inr)
    have c: "cancels input (db w) e" unfolding cancels_def using r waiting run by blast
    have id: "r_id r = e_id e" and out: "e_status e \<noteq> WAITING" using cancelsD [OF c] r by simp_all
    obtain t where t: "e_cancelledAt e = Some t" using cancelsD(4) [OF c] by auto
    show ?thesis
      unfolding wp_bindE
    proof (rule wp_release_assignments, goal_cases)
      case 1
      then show ?case using waiting_no_assignments [OF inv r(1) waiting] r w2 by simp
    next
      case (2 w3)
      then have w3: "db w3 = db w" using w2 by simp
      show ?case
      proof (rule wp_updateStatusWithHistory [of w3 r], goal_cases)
        case 4
        then show ?case
          using life_one [OF life_step.life_cancel [OF cancel_target_out(2) run]] by (simp add: cancel_params_def)
      next
        case (6 w4)
        then have w4: "db_inv (db w4)" "db_evolves (db w) (db w4)" "row_replaced e (db w) (db w4)"
          "assigns (db w4) = assigns (db w)"
          by (simp_all add: cancel_params_def w3)
        have stored: "toPersistence e \<in> set (entries (db w4))" by (rule row_replaced_in [OF w4(3) r(1) id])
        show ?case
          unfolding cancel_params_def update_status_params.simps
        proof (rule wp_refresh_queue [OF w4(1)])
          fix res :: recalculation_result and w5 :: world
          assume w5: "db_inv (db w5)" "db_evolves (db w4) (db w5)" "recalculated ?rid (db w4) (db w5)"
          have left: "left_queue ?rid e (db w) (db w5)" by (rule left_queueI [OF inv w4(3) r(1) id r(3) cancelsD(2) [OF c] out w5(3)])
          have assigns: "assigns (db w5) = assigns (db w)"
            using w5(3) w4(4) by (simp add: recalculated_def others_kept_def)
          have ev: "db_evolves (db w) (db w5)" by (rule db_evolves_trans [OF w4(2) w5(2)])
          have late: "E err w'" if "db w' = db w5" for err w'
            by (rule reject) (use that w5 ev left c spares_left [OF left]
              in \<open>auto simp: cancel_rejected_def left_queue_def\<close>)
          have fin: "Q out w'" if "db w' = db w5" "co_queueEntryId out = e_id e" "co_restaurantId out = e_restaurantId e"
            "co_status out = e_status e" "co_cancelledAt out = t" "co_reason out = ci_reason input"
            "co_notes out = ci_notes input" for out w'
            by (rule commit) (use that w5 ev left c assigns t cancelsD [OF c] in \<open>auto simp: entry_cancelled_def cancel_target_def is_no_show_def\<close>)
          show "wp (cancel_messages input e) Q E w5"
            unfolding cancel_messages_def Let_def t or_now_Some wp_bindE wp_retE
            by (intro wp_messages [OF broadcast_same_db(2)] wp_messages [OF broadcast_same_db(4)]
                wp_messages [OF same_db.stays_if [OF broadcast_same_db(4) same_db.stays_retE]])
              (use late fin in auto)
        next
          fix err :: js_error and w' :: world
          assume "db w' = db w4"
          then show "E err w'"
            by (intro reject) (use w4 c stored spares_replaced [OF inv r(1) id r(3) cancelsD(2) [OF c] w4(3)] queue_ids_leave [OF w4(3) out]
              in \<open>auto simp: cancel_rejected_def\<close>)
        qed
      qed (use inv r w3 waiting same in \<open>auto simp: cancel_params_def\<close>)
    qed (use w2 same in auto)
  qed
  show "wp (bindE new_date (\<lambda>t1. bindE new_date (\<lambda>t2.
      bindE (liftE DomainError (cancel (cancel_target (ci_reason input)) t1 t2 (toDomain r))) (\<lambda>e.
      bindE (release_assignments input e) (\<lambda>_.
      bindE (updateStatusWithHistory (cancel_params input (e_status (toDomain r)) e)) (\<lambda>persisted.
      bindE (refresh_queue ?rid ?i) (\<lambda>_. cancel_messages input persisted))))))) Q E w1"
    unfolding new_date_def wp_bindE [of "ask clock"] wp_ask wp_bindE [of "liftE DomainError _"] wp_liftE
    using w1 core same by (auto split: sum.split)
qed (use inv reject in \<open>auto simp: cancel_rejected_def\<close>)

end
