(* ===== verification/RingCustomer.thy ===== *)
theory RingCustomer
  imports Departure
begin

text \<open>
  \<open>RingCustomerUseCase\<close> (\<open>ring-customer.use-case.ts\<close>) with the BullMQ service's \<open>addJob\<close> and the
  notification texts. The pictograph of the title is given by its UTF-8 bytes.
\<close>

record ring_input =
  rg_restaurantId :: uuid
  rg_queueEntryId :: uuid
  rg_staffUserId :: string

record ring_output =
  go_queueEntryId :: uuid
  go_restaurantId :: uuid
  go_guestName :: string
  go_ringCount :: int
  go_lastRingedAt :: millis
  go_notificationDispatched :: bool

definition TABLE_READY_TITLE :: string where
  "TABLE_READY_TITLE =
     ''Your Table is Ready! '' @ map char_of [0xF0, 0x9F, 0x8D, 0xBD, 0xEF, 0xB8, 0x8F :: nat]"

definition TABLE_READY_BODY :: "string \<Rightarrow> string" where
  "TABLE_READY_BODY guestName = guestName @ '', your table is ready! Please proceed to the host stand.''"

definition TABLE_READY_ALERT :: string where
  "TABLE_READY_ALERT = ''Your table is ready! Please proceed to the host stand.''"

definition strip_trailing_slashes :: "string \<Rightarrow> string" where
  "strip_trailing_slashes s = rev (dropWhile (\<lambda>c. c = CHR ''/'') (rev s))"

definition deep_link :: "string option \<Rightarrow> uuid \<Rightarrow> string option" where
  "deep_link base i =
     (let deepLinkBase = map_option strip_trailing_slashes base
      in if truthy deepLinkBase then Some (the deepLinkBase @ ''/'' @ i) else None)"

definition PUSH_NOTIFICATIONS :: string where "PUSH_NOTIFICATIONS = ''push-notifications''"
definition SEND_PUSH_NOTIFICATION :: string where "SEND_PUSH_NOTIFICATION = ''send-push-notification''"

text \<open>\<open>addJob\<close> with the options of push notifications: three attempts, exponential backoff.\<close>

definition addJob :: "string \<Rightarrow> string \<Rightarrow> push_payload \<Rightarrow> unit io" where
  "addJob queueName jobName data =
     attempt bull_fault (\<lambda>w. w\<lparr> jobs := jobs w @
       [\<lparr> j_queue = queueName, j_name = jobName, j_data = data, j_attempts = 3,
          j_backoffDelay = 1000 \<rparr>] \<rparr>)"

definition push_data :: "queue_entry \<Rightarrow> string option \<Rightarrow> push_payload" where
  "push_data entry deepLink =
     \<lparr> pp_fid = the (e_fid entry), pp_title = TABLE_READY_TITLE,
       pp_body = TABLE_READY_BODY (e_guestName entry), pp_deepLink = deepLink,
       pp_data = [(''queueEntryId'', e_id entry), (''restaurantId'', e_restaurantId entry)] @
         (if truthy deepLink then [(''click_action'', the deepLink), (''deepLink'', the deepLink)] else []) \<rparr>"

definition dispatch_notification :: "queue_entry \<Rightarrow> string option \<Rightarrow> bool io" where
  "dispatch_notification entry deepLink =
     (if truthy (e_fid entry) then
        catchE
          (bindE (addJob PUSH_NOTIFICATIONS SEND_PUSH_NOTIFICATION (push_data entry deepLink)) (\<lambda>_. retE True))
          (\<lambda>_. retE False)
      else retE False)"

definition called_message :: "queue_entry \<Rightarrow> string option \<Rightarrow> unit io" where
  "called_message entry deepLink =
     guarded (sendToTicket (e_id entry) EV_TICKET_CALLED
       \<lparr> d_event = EV_TICKET_CALLED,
         d_body = P_called (e_id entry) (e_restaurantId entry) (e_ringCount entry)
           (e_lastRingedAt entry) deepLink TABLE_READY_ALERT \<rparr>)"

text \<open>After the entry was loaded.\<close>

definition ring_loaded :: "ring_input \<Rightarrow> queue_entry \<Rightarrow> ring_output io" where
  "ring_loaded input loaded =
     bindE new_date (\<lambda>t1. bindE new_date (\<lambda>t2.
     bindE (liftE DomainError (ring t1 t2 loaded)) (\<lambda>entry.
     bindE (save queue_repo entry) (\<lambda>_.
     bindE (ask_cfg cfg_ticketDeepLinkBaseUrl) (\<lambda>base.
     let deepLink = deep_link base (e_id entry) in
     bindE (dispatch_notification entry deepLink) (\<lambda>notificationDispatched.
     bindE (called_message entry deepLink) (\<lambda>_.
     bindE (or_now (e_lastRingedAt entry)) (\<lambda>t.
     retE \<lparr> go_queueEntryId = e_id entry, go_restaurantId = e_restaurantId entry,
            go_guestName = e_guestName entry, go_ringCount = e_ringCount entry, go_lastRingedAt = t,
            go_notificationDispatched = notificationDispatched \<rparr>))))))))"

definition ring_execute :: "ring_input \<Rightarrow> ring_output io" where
  "ring_execute input =
     bindE (load_entry (rg_restaurantId input) (rg_queueEntryId input)) (ring_loaded input)"

lemmas ring_execute_unfold = ring_execute_def [unfolded ring_loaded_def [abs_def]]

subsection \<open>What ringing does\<close>

lemma dispatch_quiet [intro]: "quiet (dispatch_notification e l)"
  unfolding dispatch_notification_def addJob_def
  by (intro quiet_if quiet_catchE quiet_retE same_db.stays_bindE same_db.stays_retE attempt_same_db) simp

lemma called_quiet [intro]: "quiet (called_message e l)"
  unfolding called_message_def by (intro quiet_guarded broadcast_same_db)

text \<open>
  The ringing of a waiting online guest: one more ring in the row of the entry, every other row and
  the other tables as they were.
\<close>

definition rung :: "ring_input \<Rightarrow> ring_output \<Rightarrow> database \<Rightarrow> database \<Rightarrow> bool" where
  "rung input out d d' \<longleftrightarrow>
     (\<exists>r \<in> set (entries d). \<exists>e t1 t2.
        r_id r = rg_queueEntryId input \<and> r_restaurantId r = rg_restaurantId input \<and>
        r_status r = WAITING \<and> r_registrationType r = ONLINE \<and>
        ring t1 t2 (toDomain r) = Inr e \<and> row_replaced e d d' \<and>
        assigns d' = assigns d \<and> history d' = history d \<and>
        go_queueEntryId out = r_id r \<and> go_ringCount out = r_ringCount r + 1 \<and> go_lastRingedAt out = t1)"

lemma wp_ring:
  assumes inv: "db_inv (db w)"
    and commit: "\<And>out w'. db_inv (db w') \<Longrightarrow> db_evolves (db w) (db w') \<Longrightarrow> rung input out (db w) (db w') \<Longrightarrow> Q out w'"
    and reject: "\<And>err w'. db w' = db w \<Longrightarrow> E err w'"
  shows "wp (ring_execute input) Q E w"
  unfolding ring_execute_unfold
proof (subst wp_bindE, rule wp_load_entry)
  fix r and w1 :: world
  assume r: "r \<in> set (entries (db w))" "r_id r = rg_queueEntryId input" "r_restaurantId r = rg_restaurantId input"
    and w1: "db w1 = db w"
  have core: "wp (bindE (save queue_repo e) (\<lambda>_.
     bindE (ask_cfg cfg_ticketDeepLinkBaseUrl) (\<lambda>base.
     let deepLink = deep_link base (e_id e) in
     bindE (dispatch_notification e deepLink) (\<lambda>notificationDispatched.
     bindE (called_message e deepLink) (\<lambda>_.
     bindE (or_now (e_lastRingedAt e)) (\<lambda>t.
     retE \<lparr> go_queueEntryId = e_id e, go_restaurantId = e_restaurantId e,
            go_guestName = e_guestName e, go_ringCount = e_ringCount e, go_lastRingedAt = t,
            go_notificationDispatched = notificationDispatched \<rparr>)))))) Q E w2"
    if run: "ring t1 t2 (toDomain r) = Inr e" and w2: "db w2 = db w" for t1 t2 e w2
    unfolding wp_bindE
  proof (rule wp_save [of w2 r])
    fix w3 :: world
    assume w3: "db_inv (db w3)" "db_evolves (db w2) (db w3)" "row_replaced e (db w2) (db w3)"
      "assigns (db w3) = assigns (db w2)" "history (db w3) = history (db w2)"
    have e: "e_id e = r_id r" "e_ringCount e = r_ringCount r + 1" "e_lastRingedAt e = Some t1"
      "r_status r = WAITING" "r_registrationType r = ONLINE"
      using run by (auto simp: ring_Inr)
    have fin: "Q out w'" if "db w' = db w3" "go_queueEntryId out = e_id e" "go_ringCount out = e_ringCount e"
      "go_lastRingedAt out = t1" for out w'
    proof (rule commit)
      show "rung input out (db w) (db w')"
        unfolding rung_def
        by (rule bexI [OF _ r(1)], rule exI [of _ e], rule exI [of _ t1], rule exI [of _ t2])
          (use that w3 w2 r run e in simp)
    qed (use that w3 w2 in simp_all)
    show "wp (ask_cfg cfg_ticketDeepLinkBaseUrl) (\<lambda>base. wp (let deepLink = deep_link base (e_id e) in
       bindE (dispatch_notification e deepLink) (\<lambda>notificationDispatched.
       bindE (called_message e deepLink) (\<lambda>_.
       bindE (or_now (e_lastRingedAt e)) (\<lambda>t.
       retE \<lparr> go_queueEntryId = e_id e, go_restaurantId = e_restaurantId e,
              go_guestName = e_guestName e, go_ringCount = e_ringCount e, go_lastRingedAt = t,
              go_notificationDispatched = notificationDispatched \<rparr>)))) Q E) E w3"
      unfolding Let_def e(3) or_now_Some wp_bindE wp_ask_cfg wp_retE
      by (intro wp_quiet [OF dispatch_quiet] wp_quiet [OF called_quiet] fin) simp_all
  next
    show "life (toDomain r) e" by (rule life_one [OF life_step.life_ring [OF run]])
    show "e_status e = r_status r" using run by (auto simp: ring_Inr)
  qed (use r w2 inv reject in auto)
  show "wp (bindE new_date (\<lambda>t1. bindE new_date (\<lambda>t2.
     bindE (liftE DomainError (ring t1 t2 (toDomain r))) (\<lambda>e. bindE (save queue_repo e) (\<lambda>_.
     bindE (ask_cfg cfg_ticketDeepLinkBaseUrl) (\<lambda>base.
     let deepLink = deep_link base (e_id e) in
     bindE (dispatch_notification e deepLink) (\<lambda>notificationDispatched.
     bindE (called_message e deepLink) (\<lambda>_.
     bindE (or_now (e_lastRingedAt e)) (\<lambda>t.
     retE \<lparr> go_queueEntryId = e_id e, go_restaurantId = e_restaurantId e,
            go_guestName = e_guestName e, go_ringCount = e_ringCount e, go_lastRingedAt = t,
            go_notificationDispatched = notificationDispatched \<rparr>))))))))) Q E w1"
    unfolding new_date_def wp_bindE [of "ask clock"] wp_ask wp_bindE [of "liftE DomainError _"] wp_liftE
    using w1 core reject by (auto split: sum.split)
qed (use reject in auto)

text \<open>A deep link ends in one slash and the id, whatever number of slashes the base ends in.\<close>

lemma strip_append_slash: "strip_trailing_slashes (s @ ''/'') = strip_trailing_slashes s"
  by (simp add: strip_trailing_slashes_def)

lemma strip_replicate_slashes:
  "strip_trailing_slashes (s @ replicate n (CHR ''/'')) = strip_trailing_slashes s"
proof (induction n)
  case (Suc n)
  then show ?case
    using strip_append_slash [of "s @ replicate n (CHR ''/'')"]
    by (simp add: replicate_append_same [symmetric])
qed simp

end
