(* ===== verification/Queries.thy ===== *)
theory Queries
  imports RepositoryRules "HOL-Library.Multiset"
begin

text \<open>
  The read-only use cases: \<open>GetStaffQueueUseCase\<close>, \<open>GetActiveQueueByUserUseCase\<close> and
  \<open>GetCustomerQueueStatusUseCase\<close>. (The ETA query is in \<open>RegisterQueue\<close>, whose opening checks it
  shares.)
\<close>

subsection \<open>The staff view of a queue\<close>

datatype party_size_bucket = B_ALL | B_SMALL | B_MEDIUM | B_LARGE

text \<open>\<open>PARTY_SIZE_RANGE_MAP\<close>: the least and the greatest party size of a bucket.\<close>

fun party_size_range :: "party_size_bucket \<Rightarrow> int option \<times> int option" where
  "party_size_range B_ALL = (None, None)"
| "party_size_range B_SMALL = (Some 1, Some 2)"
| "party_size_range B_MEDIUM = (Some 3, Some 4)"
| "party_size_range B_LARGE = (Some 5, None)"

record staff_queue_input =
  sq_restaurantId :: uuid
  sq_status :: "queue_status option"
  sq_partySizeBucket :: "party_size_bucket option"

record staff_entry =
  se_queueEntryId :: uuid
  se_queueNumber :: string
  se_position :: "int option"
  se_guestName :: string
  se_guestPhone :: string
  se_partySize :: int
  se_specialNotes :: "string option"
  se_registrationType :: registration_type
  se_status :: queue_status
  se_assignedTableId :: "uuid option"
  se_joinedAt :: millis
  se_ringCount :: int
  se_lastRingAt :: "millis option"
  se_responseDeadline :: "millis option"
  se_waitDurationMinutes :: int

record staff_queue_output =
  sv_restaurantId :: uuid
  sv_totalWaiting :: int
  sv_entries :: "staff_entry list"

definition live_queue_entry :: "millis \<Rightarrow> int option \<Rightarrow> snapshot_item \<Rightarrow> staff_entry" where
  "live_queue_entry now position item =
     (let entry = si_entry item in
      \<lparr> se_queueEntryId = e_id entry, se_queueNumber = e_queueNumber entry, se_position = position,
        se_guestName = e_guestName entry, se_guestPhone = e_phone entry,
        se_partySize = e_partySize entry, se_specialNotes = e_specialNotes entry,
        se_registrationType = e_registrationType entry, se_status = e_status entry,
        se_assignedTableId = si_assignedTableId item, se_joinedAt = e_joinedAt entry,
        se_ringCount = e_ringCount entry, se_lastRingAt = e_lastRingedAt entry,
        se_responseDeadline = calculateResponseDeadline entry DEFAULT_RESPONSE_TIMEOUT_MS,
        se_waitDurationMinutes = calculateWaitDurationMinutes entry now \<rparr>)"

fun mapToLiveQueueEntries :: "int \<Rightarrow> millis \<Rightarrow> snapshot_item list \<Rightarrow> staff_entry list" where
  "mapToLiveQueueEntries waitingLinePosition now [] = []"
| "mapToLiveQueueEntries waitingLinePosition now (item # rest) =
     (if e_status (si_entry item) = WAITING
      then live_queue_entry now (Some waitingLinePosition) item
             # mapToLiveQueueEntries (waitingLinePosition + 1) now rest
      else live_queue_entry now None item # mapToLiveQueueEntries waitingLinePosition now rest)"

definition staff_filters :: "staff_queue_input \<Rightarrow> snapshot_filters" where
  "staff_filters input =
     (let range = (case sq_partySizeBucket input of None \<Rightarrow> (None, None) | Some b \<Rightarrow> party_size_range b)
      in \<lparr> f_status = Some (nullish (sq_status input) WAITING),
           f_minPartySize = fst range, f_maxPartySize = snd range \<rparr>)"

definition staff_queue_execute :: "staff_queue_input \<Rightarrow> staff_queue_output io" where
  "staff_queue_execute input =
     bindE (getStaffQueueSnapshot (sq_restaurantId input) (staff_filters input)) (\<lambda>snapshot.
     bindE new_date (\<lambda>now.
     retE \<lparr> sv_restaurantId = sq_restaurantId input, sv_totalWaiting = sr_totalWaiting snapshot,
            sv_entries = mapToLiveQueueEntries INITIAL_WAITING_POSITION now (sr_entries snapshot) \<rparr>))"

subsection \<open>The queue of a user\<close>

record active_queue_details =
  aq_queueEntryId :: uuid
  aq_restaurantId :: uuid
  aq_userId :: "uuid option"
  aq_queueNumber :: string
  aq_partySize :: int
  aq_status :: queue_status
  aq_position :: "int option"
  aq_estimatedWaitMinutes :: "int option"
  aq_joinedAt :: millis

record active_queue_output =
  ao_hasActiveQueue :: bool
  ao_queueEntry :: "active_queue_details option"

definition active_details :: "queue_entry \<Rightarrow> active_queue_details" where
  "active_details e =
     \<lparr> aq_queueEntryId = e_id e, aq_restaurantId = e_restaurantId e, aq_userId = e_userId e,
       aq_queueNumber = e_queueNumber e, aq_partySize = e_partySize e, aq_status = e_status e,
       aq_position = e_position e, aq_estimatedWaitMinutes = e_estimatedWaitMinutes e,
       aq_joinedAt = e_joinedAt e \<rparr>"

definition active_queue_execute :: "uuid \<Rightarrow> uuid \<Rightarrow> active_queue_output io" where
  "active_queue_execute restaurantId userId =
     bindE (findActiveByUserIdAndRestaurantId restaurantId userId) (\<lambda>activeEntry.
       case activeEntry of
         None \<Rightarrow> retE \<lparr> ao_hasActiveQueue = False, ao_queueEntry = None \<rparr>
       | Some e \<Rightarrow> retE \<lparr> ao_hasActiveQueue = True, ao_queueEntry = Some (active_details e) \<rparr>)"

text \<open>The answer to other services: the restaurant and the entry of a waiting user.\<close>

definition customer_status_execute :: "uuid \<Rightarrow> (uuid \<times> uuid) option io" where
  "customer_status_execute userId =
     bindE (findActiveByUserId userId) (\<lambda>queueEntry.
       case queueEntry of
         None \<Rightarrow> retE None
       | Some e \<Rightarrow>
           if e_status e \<noteq> WAITING then retE None
           else retE (Some (e_restaurantId e, e_id e)))"

lemma query_use_cases_same_db [db_rules]:
  "stays same_db (staff_queue_execute si)" "stays same_db (active_queue_execute rid u)"
  "stays same_db (customer_status_execute u)"
  unfolding staff_queue_execute_def active_queue_execute_def customer_status_execute_def
  by (intro same_db.stays_bindE same_db.stays_case_option same_db.stays_if same_db.stays_retE db_rules)+

subsection \<open>What the queries return\<close>

text \<open>
  What the staff view lists, written without the filters and the mapping: the rows of the restaurant with
  the status asked for, or waiting, and a party size of the bucket, by time of joining; positions number
  them from one when they wait, and there are none otherwise.
\<close>

definition in_bucket :: "party_size_bucket option \<Rightarrow> int \<Rightarrow> bool" where
  "in_bucket bucket n \<longleftrightarrow>
     (bucket = Some B_SMALL \<longrightarrow> n = 1 \<or> n = 2) \<and> (bucket = Some B_MEDIUM \<longrightarrow> n = 3 \<or> n = 4) \<and>
     (bucket = Some B_LARGE \<longrightarrow> 5 \<le> n)"

definition staff_listing :: "staff_queue_input \<Rightarrow> database \<Rightarrow> staff_entry list \<Rightarrow> bool" where
  "staff_listing input d xs \<longleftrightarrow>
     (let wanted = (case sq_status input of None \<Rightarrow> WAITING | Some st \<Rightarrow> st);
          rows = filter (\<lambda>r. r_restaurantId r = sq_restaurantId input \<and> r_status r = wanted \<and>
            in_bucket (sq_partySizeBucket input) (r_partySize r)) (entries d)
      in mset (map (\<lambda>x. (se_queueEntryId x, se_queueNumber x, se_guestName x, se_guestPhone x, se_partySize x,
             se_registrationType x, se_status x, se_joinedAt x, se_ringCount x)) xs) =
           mset (map (\<lambda>r. (r_id r, r_queueNumber r, r_guestName r, r_phone r, r_partySize r,
             r_registrationType r, r_status r, r_joinedAt r, r_ringCount r)) rows) \<and>
         sorted (map (\<lambda>x. (se_joinedAt x, se_queueEntryId x)) xs) \<and>
         map se_position xs =
           (if wanted = WAITING then map (\<lambda>i. Some (int i + 1)) [0..<length rows] else replicate (length rows) None))"

lemma live_shown:
  "map (\<lambda>x. (se_queueEntryId x, se_queueNumber x, se_guestName x, se_guestPhone x, se_partySize x,
     se_registrationType x, se_status x, se_joinedAt x, se_ringCount x)) (mapToLiveQueueEntries k now items) =
   map (\<lambda>e. (e_id e, e_queueNumber e, e_guestName e, e_phone e, e_partySize e,
     e_registrationType e, e_status e, e_joinedAt e, e_ringCount e)) (map si_entry items)"
  by (induction items arbitrary: k) (simp_all add: live_queue_entry_def Let_def)

lemma live_order:
  "map (\<lambda>x. (se_joinedAt x, se_queueEntryId x)) (mapToLiveQueueEntries k now items) =
   map (\<lambda>e. (e_joinedAt e, e_id e)) (map si_entry items)"
  by (induction items arbitrary: k) (simp_all add: live_queue_entry_def Let_def)

lemma live_positions:
  assumes "\<forall>x \<in> set items. e_status (si_entry x) = st"
  shows "map se_position (mapToLiveQueueEntries k now items) =
    (if st = WAITING then map (\<lambda>i. Some (int i + k)) [0..<length items] else replicate (length items) None)"
  using assms
proof (induction items arbitrary: k)
  case (Cons item items)
  have shift: "map (\<lambda>i. Some (int i + k)) [0..<Suc n] = Some k # map (\<lambda>i. Some (int i + (k + 1))) [0..<n]" for n
    by (simp add: upt_conv_Cons map_Suc_upt [symmetric] add.commute add.left_commute del: upt_Suc)
  show ?case
    using Cons.IH [of "k + 1"] Cons.IH [of k] Cons.prems shift by (simp add: live_queue_entry_def Let_def del: upt_Suc)
qed simp

lemma snapshot_match_staff:
  "snapshot_match (sq_restaurantId input) (staff_filters input) r \<longleftrightarrow>
     r_restaurantId r = sq_restaurantId input \<and> r_status r = (case sq_status input of None \<Rightarrow> WAITING | Some st \<Rightarrow> st) \<and>
     in_bucket (sq_partySizeBucket input) (r_partySize r)"
proof (cases "sq_partySizeBucket input")
  case None
  then show ?thesis
    by (auto simp: snapshot_match_def staff_filters_def in_bucket_def nullish_def split: option.split)
next
  case (Some b)
  have "(case party_size_range b of (lo, hi) \<Rightarrow> (case lo of None \<Rightarrow> True | Some l \<Rightarrow> l \<le> n) \<and>
      (case hi of None \<Rightarrow> True | Some h \<Rightarrow> n \<le> h)) = in_bucket (Some b) n" for n :: int
    by (cases b) (auto simp: in_bucket_def)
  then show ?thesis
    by (cases "sq_status input")
      (simp_all add: Some snapshot_match_def staff_filters_def Let_def nullish_def case_prod_unfold)
qed

lemma staff_listing_view:
  "staff_listing input d (mapToLiveQueueEntries 1 now
     (map (\<lambda>r. \<lparr> si_entry = toDomain r, si_assignedTableId = f r \<rparr>)
       (snapshot_rows (sq_restaurantId input) (staff_filters input) d)))"
proof -
  let ?st = "case sq_status input of None \<Rightarrow> WAITING | Some st \<Rightarrow> st"
  let ?rows = "filter (\<lambda>r. r_restaurantId r = sq_restaurantId input \<and> r_status r = ?st \<and>
      in_bucket (sq_partySizeBucket input) (r_partySize r)) (entries d)"
  have rows: "snapshot_rows (sq_restaurantId input) (staff_filters input) d = sort_key (\<lambda>r. (r_joinedAt r, r_id r)) ?rows"
    by (simp add: snapshot_rows_def snapshot_match_staff [abs_def])
  have all: "\<forall>x \<in> set (map (\<lambda>r. \<lparr> si_entry = toDomain r, si_assignedTableId = f r \<rparr>)
      (sort_key (\<lambda>r. (r_joinedAt r, r_id r)) ?rows)). e_status (si_entry x) = ?st"
    by auto
  show ?thesis
    unfolding staff_listing_def Let_def rows live_shown live_order live_positions [OF all]
    by (simp add: comp_def)
qed

lemma find_latest_joined:
  assumes "latest_joined rows = Some r"
  shows "r \<in> set rows \<and> (\<forall>s \<in> set rows. r_joinedAt s \<le> r_joinedAt r)"
proof -
  let ?s = "sort_key (\<lambda>r. - r_joinedAt r) rows"
  obtain rest where s: "?s = r # rest" using assms by (simp add: latest_joined_def split: list.splits)
  have "sorted (map (\<lambda>r. - r_joinedAt r) ?s)" by (rule sorted_sort_key)
  then have "\<forall>x \<in> set rest. r_joinedAt x \<le> r_joinedAt r" by (simp add: s)
  moreover have "set rows = insert r (set rest)" using s by (metis list.simps(15) set_sort)
  ultimately show ?thesis by auto
qed

lemma latest_joined_None: "latest_joined rows = None \<longleftrightarrow> rows = []"
proof -
  have "sort_key (\<lambda>r. - r_joinedAt r) rows = [] \<longleftrightarrow> rows = []" by (metis length_0_conv length_sort)
  then show ?thesis
    by (cases "sort_key (\<lambda>r. - r_joinedAt r) rows") (auto simp: latest_joined_def)
qed

lemma wp_staff_queue:
  "wp (staff_queue_execute input)
     (\<lambda>out w'. db w' = db w \<and> sv_restaurantId out = sq_restaurantId input \<and>
        sv_totalWaiting out = count_waiting (sq_restaurantId input) (db w) \<and>
        staff_listing input (db w) (sv_entries out))
     (\<lambda>_ w'. db w' = db w) w"
  unfolding staff_queue_execute_def getStaffQueueSnapshot_def wp_bindE
  by (rule qrun_db_read)
    (simp_all add: wp_simps new_date_def staff_listing_view INITIAL_WAITING_POSITION_def)

lemma wp_customer_status:
  "wp (customer_status_execute u)
     (\<lambda>out w'. db w' = db w \<and> (case out of
        None \<Rightarrow> \<not> list_ex (\<lambda>r. r_userId r = Some u \<and> r_status r = WAITING) (entries (db w))
      | Some (rid, i) \<Rightarrow> list_ex (\<lambda>r. r_id r = i \<and> r_restaurantId r = rid \<and> r_userId r = Some u \<and>
          r_status r = WAITING) (entries (db w))))
     (\<lambda>_ w'. db w' = db w) w"
  unfolding customer_status_execute_def findActiveByUserId_def wp_bindE
proof (rule qrun_db_read_map)
  fix w' :: world
  assume w': "db w' = db w"
  let ?rows = "filter (\<lambda>r. r_userId r = Some u \<and> r_status r = WAITING) (entries (db w))"
  show "wp (case map_option toDomain (latest_joined ?rows) of None \<Rightarrow> retE None
      | Some e \<Rightarrow> if e_status e \<noteq> WAITING then retE None else retE (Some (e_restaurantId e, e_id e)))
     (\<lambda>out w'. db w' = db w \<and> (case out of
        None \<Rightarrow> \<not> list_ex (\<lambda>r. r_userId r = Some u \<and> r_status r = WAITING) (entries (db w))
      | Some (rid, i) \<Rightarrow> list_ex (\<lambda>r. r_id r = i \<and> r_restaurantId r = rid \<and> r_userId r = Some u \<and>
          r_status r = WAITING) (entries (db w))))
     (\<lambda>_ w'. db w' = db w) w'"
  proof (cases "latest_joined ?rows")
    case None
    then have "?rows = []" by (simp only: latest_joined_None)
    with w' show ?thesis
      unfolding None option.map option.case wp_retE by (auto simp: filter_empty_conv list_ex_iff)
  next
    case (Some r)
    with w' find_latest_joined [OF Some] show ?thesis by (auto simp: wp_simps list_ex_iff)
  qed
qed simp

lemma wp_active_queue:
  "wp (active_queue_execute rid u)
     (\<lambda>out w'. db w' = db w \<and> (case ao_queueEntry out of
        None \<Rightarrow> \<not> ao_hasActiveQueue out \<and>
          \<not> list_ex (\<lambda>r. waiting_at rid r \<and> r_userId r = Some u) (entries (db w))
      | Some a \<Rightarrow> ao_hasActiveQueue out \<and>
          list_ex (\<lambda>r. waiting_at rid r \<and> r_userId r = Some u \<and> a = active_details (toDomain r)) (entries (db w)) \<and>
          list_all (\<lambda>r. \<not> (waiting_at rid r \<and> r_userId r = Some u \<and> aq_joinedAt a < r_joinedAt r)) (entries (db w))))
     (\<lambda>_ w'. db w' = db w) w"
  unfolding active_queue_execute_def findActiveByUserIdAndRestaurantId_def wp_bindE
proof (rule qrun_db_read_map)
  fix w' :: world
  assume w': "db w' = db w"
  let ?rows = "filter (\<lambda>r. waiting_at rid r \<and> r_userId r = Some u) (entries (db w))"
  show "wp (case map_option toDomain (latest_joined ?rows) of
         None \<Rightarrow> retE \<lparr> ao_hasActiveQueue = False, ao_queueEntry = None \<rparr>
       | Some e \<Rightarrow> retE \<lparr> ao_hasActiveQueue = True, ao_queueEntry = Some (active_details e) \<rparr>)
     (\<lambda>out w'. db w' = db w \<and> (case ao_queueEntry out of
        None \<Rightarrow> \<not> ao_hasActiveQueue out \<and>
          \<not> list_ex (\<lambda>r. waiting_at rid r \<and> r_userId r = Some u) (entries (db w))
      | Some a \<Rightarrow> ao_hasActiveQueue out \<and>
          list_ex (\<lambda>r. waiting_at rid r \<and> r_userId r = Some u \<and> a = active_details (toDomain r)) (entries (db w)) \<and>
          list_all (\<lambda>r. \<not> (waiting_at rid r \<and> r_userId r = Some u \<and> aq_joinedAt a < r_joinedAt r)) (entries (db w))))
     (\<lambda>_ w'. db w' = db w) w'"
  proof (cases "latest_joined ?rows")
    case None
    then have "?rows = []" by (simp only: latest_joined_None)
    with w' show ?thesis
      unfolding None option.map option.case wp_retE by (auto simp: filter_empty_conv list_ex_iff)
  next
    case (Some r)
    with w' find_latest_joined [OF Some] show ?thesis
      by (auto simp: wp_simps list_ex_iff list_all_iff active_details_def not_less)
  qed
qed simp

end
