(* ===== verification/Service.thy ===== *)
theory Service
  imports RegisterQueue Seating SkipParty CancelEntry RingCustomer Queries
begin

text \<open>
  The service as a whole: a request runs one use case, and the world after a list of requests is
  reached by serving them one after the other. \<open>reachable\<close> is the same as a step relation. The
  lemmas show that every request keeps the database invariant and evolves the database, so every
  reachable world has both.
\<close>

datatype request =
    RegisterReq register_input
  | AssignReq assign_input
  | SeatReq seat_input
  | SkipReq skip_input
  | CancelReq cancel_input
  | RingReq ring_input
  | EtaReq uuid int
  | StaffQueueReq staff_queue_input
  | ActiveQueueReq uuid uuid
  | CustomerStatusReq uuid

datatype response =
    RegisterRes register_output
  | SeatedRes seated_output
  | SkipRes skip_output
  | CancelRes cancel_output
  | RingRes ring_output
  | EtaRes eta_output
  | StaffQueueRes staff_queue_output
  | ActiveQueueRes active_queue_output
  | CustomerStatusRes "(uuid \<times> uuid) option"

definition answer :: "('a \<Rightarrow> response) \<Rightarrow> 'a io \<Rightarrow> response io" where
  "answer f m = bindE m (\<lambda>x. retE (f x))"

fun handle :: "request \<Rightarrow> response io" where
  "handle (RegisterReq i) = answer RegisterRes (register_execute i)"
| "handle (AssignReq i) = answer SeatedRes (assign_execute i)"
| "handle (SeatReq i) = answer SeatedRes (seat_execute i)"
| "handle (SkipReq i) = answer SkipRes (skip_execute i)"
| "handle (CancelReq i) = answer CancelRes (cancel_execute i)"
| "handle (RingReq i) = answer RingRes (ring_execute i)"
| "handle (EtaReq r n) = answer EtaRes (eta_execute_query r n)"
| "handle (StaffQueueReq i) = answer StaffQueueRes (staff_queue_execute i)"
| "handle (ActiveQueueReq r u) = answer ActiveQueueRes (active_queue_execute r u)"
| "handle (CustomerStatusReq u) = answer CustomerStatusRes (customer_status_execute u)"

definition serve :: "request list \<Rightarrow> world \<Rightarrow> world" where
  "serve reqs w = foldl (\<lambda>w req. snd (handle req w)) w reqs"

definition after :: "env \<Rightarrow> request list \<Rightarrow> world" where
  "after en reqs = serve reqs (start_world en)"

inductive reachable :: "env \<Rightarrow> world \<Rightarrow> bool" for en where
  reach_start: "reachable en (start_world en)"
| reach_step: "reachable en w \<Longrightarrow> handle req w = (res, w') \<Longrightarrow> reachable en w'"

lemma serve_append: "serve (xs @ ys) w = serve ys (serve xs w)"
  by (simp add: serve_def)

lemma reachable_iff: "reachable en w \<longleftrightarrow> (\<exists>reqs. w = after en reqs)"
proof
  show "reachable en w \<Longrightarrow> \<exists>reqs. w = after en reqs"
  proof (induction rule: reachable.induct)
    case reach_start
    show ?case by (rule exI [of _ "[]"]) (simp add: after_def serve_def)
  next
    case (reach_step w req res w')
    then obtain reqs where "w = after en reqs" by auto
    with reach_step(2) show ?case
      by (intro exI [of _ "reqs @ [req]"]) (simp add: after_def serve_def)
  qed
next
  have "reachable en (after en reqs)" for reqs
    by (induction reqs rule: rev_induct)
      (auto simp: after_def serve_def intro: reachable.intros reach_step [OF _ prod.collapse [symmetric]])
  then show "\<exists>reqs. w = after en reqs \<Longrightarrow> reachable en w" by auto
qed

subsection \<open>Every request is a step of the database\<close>

lemma ok_stepI:
  assumes "db_inv (db w) \<Longrightarrow> wp m (\<lambda>_ w'. db_inv (db w') \<and> db_evolves (db w) (db w'))
      (\<lambda>_ w'. db_inv (db w') \<and> db_evolves (db w) (db w')) w"
  shows "ok_step w (snd (m w))"
  using assms unfolding ok_step_def db_step_def wp_snd [where P = "\<lambda>w'. db_inv (db w') \<and> db_evolves (db w) (db w')"]
  by simp

lemma use_cases_ok_step:
  "stays ok_step (register_execute ri)" "stays ok_step (assign_execute ai)"
  "stays ok_step (seat_execute si)" "stays ok_step (skip_execute ki)"
  "stays ok_step (cancel_execute ci)" "stays ok_step (ring_execute gi)"
  unfolding stays_def
  by (intro allI ok_stepI wp_register wp_assign wp_seat wp_skip wp_cancel wp_ring; simp)+

lemma answer_stays: "stays ok_step m \<Longrightarrow> stays ok_step (answer f m)"
  unfolding answer_def by (intro ok_step.stays_bindE ok_step.stays_retE)

lemmas queries_ok_step = eta_query_same_db [THEN same_db_ok_step]
  query_use_cases_same_db [THEN same_db_ok_step]

lemma handle_ok_step: "stays ok_step (handle req)"
  by (cases req)
    (auto intro!: answer_stays use_cases_ok_step queries_ok_step)

lemma serve_ok_step: "ok_step w (serve reqs w)"
proof (induction reqs rule: rev_induct)
  case Nil
  then show ?case by (simp add: serve_def ok_step.R_refl)
next
  case (snoc req reqs)
  have "ok_step (serve reqs w) (serve (reqs @ [req]) w)"
    using handle_ok_step [of req] by (simp add: serve_def stays_def)
  with snoc show ?case by (rule ok_step.R_trans)
qed

text \<open>The invariant of every run, and the evolution from any point of a run to any later one.\<close>

lemma after_inv: "db_inv (db (after en reqs))"
  using serve_ok_step [of "start_world en" reqs] by (simp add: after_def ok_step_def db_step_def start_world_def)

lemma after_evolves: "db_evolves (db (after en xs)) (db (after en (xs @ ys)))"
  using serve_ok_step [of "after en xs" ys] after_inv [of en xs]
  by (simp add: after_def serve_append ok_step_def db_step_def)

lemma reachable_inv: "reachable en w \<Longrightarrow> db_inv (db w)"
  by (auto simp: reachable_iff after_inv)

lemmas after_facts = db_invD [OF after_inv]

subsection \<open>Facts about lists of rows\<close>

lemma length_filter_one:
  assumes "distinct (map k xs)" and "\<And>x y. x \<in> set xs \<Longrightarrow> y \<in> set xs \<Longrightarrow> P x \<Longrightarrow> P y \<Longrightarrow> k x = k y"
  shows "length (filter P xs) \<le> 1"
proof (rule ccontr)
  assume "\<not> ?thesis"
  then obtain x y rest where f: "filter P xs = x # y # rest"
    by (cases "filter P xs"; cases "tl (filter P xs)") auto
  then have "x \<in> set (filter P xs)" "y \<in> set (filter P xs)" by simp_all
  then have "k x = k y" using assms(2) by simp
  moreover have "distinct (map k (filter P xs))" using assms(1) by (rule distinct_map_filter)
  ultimately show False by (simp add: f)
qed

lemma unique_waiting:
  "active_unique d \<Longrightarrow> r \<in> set (entries d) \<Longrightarrow> s \<in> set (entries d) \<Longrightarrow> r_status r = WAITING \<Longrightarrow>
   r_status s = WAITING \<Longrightarrow> conflicting r s \<Longrightarrow> r_id r = r_id s"
  unfolding active_unique_def by blast

text \<open>What never changes in a row: its identity, in the order of the table.\<close>

definition identity_of :: "entry_row \<Rightarrow> uuid \<times> uuid \<times> uuid option \<times> string \<times> string \<times> string \<times> int \<times> millis \<times> millis" where
  "identity_of r = (r_id r, r_restaurantId r, r_userId r, r_guestName r, r_phone r, r_queueNumber r,
     r_partySize r, r_joinedAt r, r_createdAt r)"

lemma row_evolves_identity: "row_evolves r r' \<Longrightarrow> identity_of r' = identity_of r"
  using life_identity [of "toDomain r" "toDomain r'"]
  by (simp add: row_evolves_def same_identity_def identity_of_def)

lemma list_all2_map_eq: "list_all2 R xs ys \<Longrightarrow> (\<And>x y. R x y \<Longrightarrow> f y = f x) \<Longrightarrow> map f ys = map f xs"
  by (induction rule: list_all2_induct) auto

lemma db_evolves_facts:
  assumes "db_evolves d d'"
  shows "take (length (entries d)) (map identity_of (entries d')) = map identity_of (entries d)"
    and "take (length (history d)) (history d') = history d"
    and "set (filter (\<lambda>r. r_status r \<noteq> WAITING) (entries d)) \<subseteq> set (entries d')"
proof -
  from assms obtain rows new hs
    where d': "entries d' = rows @ new" "list_all2 row_evolves (entries d) rows" "history d' = history d @ hs"
    by (auto simp: db_evolves_def)
  then show "take (length (entries d)) (map identity_of (entries d')) = map identity_of (entries d)"
    using list_all2_map_eq [OF d'(2), of identity_of] row_evolves_identity
    by (simp add: list_all2_lengthD [OF d'(2)])
  show "take (length (history d)) (history d') = history d" by (simp add: d'(3))
  show "set (filter (\<lambda>r. r_status r \<noteq> WAITING) (entries d)) \<subseteq> set (entries d')"
  proof
    fix r assume "r \<in> set (filter (\<lambda>r. r_status r \<noteq> WAITING) (entries d))"
    then have r: "r \<in> set (entries d)" "r_status r \<noteq> WAITING" by auto
    from db_evolves_row [OF assms r(1)] obtain r' where "r' \<in> set (entries d')" "row_evolves r r'" .
    with row_evolves_D(6) r(2) show "r \<in> set (entries d')" by metis
  qed
qed

end
