(* ===== verification/Frames.thy ===== *)
theory Frames
  imports Service
begin

text \<open>
  Frame rules for the whole service. \<open>frame\<close> is what a relation between worlds has to allow for every
  component below the use cases to stay in it: the tick, the database, the cache, the training
  events and the messages to the rooms of a restaurant and of a ticket. The locales that extend it
  add the logs the remaining use cases write, up to \<open>full_frame\<close>, in which every request stays.
  Instances: the environment never changes and time goes on; messages only go to staff and tickets.
\<close>

locale frame = effect_order R for R :: "world \<Rightarrow> world \<Rightarrow> bool" +
  assumes R_tick: "R w (w\<lparr> tick := Suc (tick w) \<rparr>)"
    and R_db: "R w (w\<lparr> db := d \<rparr>)"
    and R_redis: "R w (w\<lparr> redis := m \<rparr>)"
    and R_mlqueue: "R w (w\<lparr> mlqueue := q \<rparr>)"
    and R_to_restaurant: "R w (w\<lparr> outbox := outbox w @
      [\<lparr> em_rooms = [room_restaurant i, room_restaurantQueue i], em_event = ev, em_data = x \<rparr>] \<rparr>)"
    and R_to_ticket: "R w (w\<lparr> outbox := outbox w @
      [\<lparr> em_rooms = [room_ticket i, room_queueEntry i], em_event = ev, em_data = x \<rparr>] \<rparr>)"
begin

lemma st_ask: "stays R (ask f)"
  by (simp add: stays_def ask_def R_tick)

lemma st_dates: "stays R new_date" "stays R random_id" "stays R (ask_cfg g)"
  by (simp_all add: new_date_def random_id_def st_ask) (simp add: stays_def ask_cfg_def R_refl)

lemma st_attempt: "(\<And>w. R w (h w)) \<Longrightarrow> stays R (attempt fault h)"
  by (auto simp: stays_def attempt_def R_tick split: option.splits intro: R_trans [OF R_tick])

lemma st_db_run: "stays R (db_run q)"
proof -
  have "R w (w\<lparr> db := d, tick := Suc (tick w) \<rparr>)" for w d
    using R_trans [OF R_db [of w d] R_tick [of "w\<lparr> db := d \<rparr>"]] by simp
  then show ?thesis
    by (auto simp: stays_def db_run_def R_tick split: option.splits sum.splits)
qed

lemma st_db_read: "stays R (db_read q)"
  unfolding db_read_def by (rule st_db_run)

lemma st_run: "stays R m \<Longrightarrow> stays R (run A m)"
  unfolding run_def run_with_def by (intro stays_catchE stays_throwE)

lemma st_guarded: "stays R m \<Longrightarrow> stays R (guarded m)"
  unfolding guarded_def by (intro stays_catchE stays_retE)

lemma st_or_now: "stays R (or_now v)"
  by (cases v) (simp_all add: or_now_def st_dates)

lemma st_redis_get: "stays R (redis_get k)"
  by (simp add: stays_def redis_get_def R_tick split: option.splits)

lemma st_cache: "stays R (saveLiveEntry i r p e)" "stays R (getLiveEntry i)" "stays R (removeLiveEntry i)"
  unfolding saveLiveEntry_def getLiveEntry_def removeLiveEntry_def
  by (intro stays_catchE stays_bindE stays_retE st_dates st_redis_get st_attempt;
      simp add: redis_set_def redis_del_def R_redis)+

lemma st_broadcast: "stays R (broadcastToRestaurant i ev x)" "stays R (sendToTicket i ev x)"
  unfolding broadcastToRestaurant_def sendToTicket_def emit_def
  by (intro stays_bindE stays_if stays_retE st_ask st_attempt R_to_restaurant R_to_ticket)+

lemmas st_basic = st_ask st_dates st_db_run st_db_read st_run st_guarded st_or_now st_cache st_broadcast

lemma st_find: "stays R (findById queue_repo i)" "stays R (load_entry rid i)"
proof -
  show find: "stays R (findById queue_repo i)"
    unfolding findById_def by (intro stays_bindE stays_retE st_basic)
  show "stays R (load_entry rid i)"
    unfolding load_entry_def
    by (intro find stays_bindE stays_case_option stays_if stays_retE stays_throwE)
qed

lemma st_queries:
  "stays R (findActiveEntries rid)" "stays R (countPeopleAheadAtJoin rid t)"
  "stays R (getActiveQueueMetrics rid)" "stays R (getRegistrationMetrics rid)"
  "stays R (findActiveByPhone rid ph)" "stays R (findActiveByUserId u)"
  "stays R (findActiveByUserIdAndRestaurantId rid u)" "stays R (findActiveTableAssignments i)"
  "stays R (getStaffQueueSnapshot rid fs)"
  unfolding findActiveEntries_def countPeopleAheadAtJoin_def getActiveQueueMetrics_def getRegistrationMetrics_def
    findActiveByPhone_def findActiveByUserId_def findActiveByUserIdAndRestaurantId_def
    findActiveTableAssignments_def getStaffQueueSnapshot_def start_of_day_def
  by (intro stays_bindE stays_retE st_basic)+

lemma st_transactions:
  "stays R (createWithHistory e cb)" "stays R (updateStatusWithHistory p)"
  "stays R (assignTablesWithHistory e ts c st)" "stays R (batchUpdatePositions us)"
  "stays R (releaseTableAssignments i)" "stays R (save queue_repo e)"
  unfolding createWithHistory_def create_checks_def create_insert_def updateStatusWithHistory_def assignTablesWithHistory_def
    assignment_rows_def batchUpdatePositions_def releaseTableAssignments_def save_def Let_def
  by (intro stays_bindE stays_mapE stays_if stays_case_option stays_retE st_basic)+

lemma st_http: "stays R (http g)"
  unfolding http_def by (intro stays_bindE stays_liftE st_basic)

lemma st_predictEta: "stays R (predictEta r n p)"
proof -
  have call: "stays R (callPredictionApi r n p)"
    unfolding callPredictionApi_def
    by (intro stays_bindE st_http) (auto split: option.split json_field.split)
  have fb: "stays R (or_fallback n e)" for e
    unfolding or_fallback_def by (intro stays_bindE stays_if stays_retE stays_throwE st_basic)
  have "stays R (case g of Pass \<Rightarrow> catchE (callPredictionApi r n p) (or_fallback n)
       | Open \<Rightarrow> or_fallback n e
       | TimedOut limit \<Rightarrow>
           bindE (catchE (bindE (callPredictionApi r n p) (\<lambda>_. retE ())) (\<lambda>_. retE ())) (\<lambda>_. or_fallback n (h limit)))" for g e h
    by (cases g) (auto intro!: stays_catchE stays_bindE call fb)
  then show ?thesis
    unfolding predictEta_def eta_execute_def by (intro stays_catchE stays_bindE stays_retE st_basic)
qed

lemma st_recalculate: "stays R (recalculate predictEta rid)" "stays R (refresh_queue rid i)"
proof -
  show rec: "stays R (recalculate predictEta rid)"
    unfolding recalculate_def Let_def save_live_deltas_def notify_tickets_def notify_restaurant_def
    by (intro stays_bindE stays_mapE stays_if stays_retE st_basic st_queries st_transactions st_predictEta)
  show "stays R (refresh_queue rid i)"
    unfolding refresh_queue_def by (intro stays_bindE st_basic rec)
qed

lemmas frame_rules = st_basic st_find st_queries st_transactions st_http st_predictEta st_recalculate

lemma st_breaker:
  assumes m: "stays R m"
  shows "stays R (executeWithBreaker m)"
proof -
  have gated: "stays R (case g of Pass \<Rightarrow> m | Open \<Rightarrow> throwE e
      | TimedOut limit \<Rightarrow> bindE (catchE (bindE m (\<lambda>_. retE ())) (\<lambda>_. retE ())) (\<lambda>_. throwE (h limit)))" for g e h
    by (cases g) (auto intro!: stays_catchE stays_bindE m)
  have exec: "stays R (breaker_execute m)"
    unfolding breaker_execute_def by (rule stays_bindE, rule st_ask, rule gated)
  show ?thesis
    unfolding executeWithBreaker_def
    by (rule stays_catchE, rule exec) (auto split: js_error.split intro!: stays_bindE st_basic)
qed

lemma st_envelope: "stays R (open_envelope m x)" "stays R (check_envelope m x)"
  by (auto simp: open_envelope_def check_envelope_def split: option.split bool.split)

lemma st_restaurant: "stays R (getRestaurantStatus r)" "stays R (checkAvailability r n)"
  unfolding getRestaurantStatus_def checkAvailability_def
  by (intro stays_bindE stays_if stays_retE stays_catchE stays_throwE st_breaker frame_rules st_envelope)+

lemma st_register: "stays R (register_execute i)"
  unfolding register_execute_unfold register_persist_def Let_def
  by (intro stays_bindE stays_if stays_retE stays_throwE stays_liftE frame_rules st_restaurant)

lemma st_query_use_cases:
  "stays R (eta_execute_query r n)" "stays R (staff_queue_execute si)"
  "stays R (active_queue_execute rid u)" "stays R (customer_status_execute u)"
  unfolding eta_execute_query_def staff_queue_execute_def active_queue_execute_def customer_status_execute_def
  by (intro stays_bindE stays_if stays_case_option stays_retE stays_throwE stays_liftE frame_rules st_restaurant)+

lemma st_skip: "stays R (skip_execute i)"
proof -
  have leave: "stays R (skip_leave i e)" for e
    unfolding skip_leave_def skip_messages_def Let_def
    by (intro stays_bindE stays_retE stays_liftE frame_rules)
  have shift: "stays R (skip_shift i e n es k)" for e n es k
    unfolding skip_shift_def skip_messages_def Let_def by (intro stays_bindE stays_retE frame_rules)
  show ?thesis
    unfolding skip_execute_unfold Let_def
    by (intro stays_bindE stays_if stays_case_option stays_throwE leave shift frame_rules)
qed

lemma st_skip_messages: "stays R (skip_messages i e s p)"
  unfolding skip_messages_def Let_def by (intro stays_bindE stays_retE frame_rules)

text \<open>The last parts of seating and cancelling.\<close>

lemma st_tails:
  "stays R (ticket_seated_messages r i ts e)" "stays R (publish_training e n)"
  "stays R (assign_toOutputDTO e ts)" "stays R (seat_messages si e)" "stays R (cancel_messages ci e)"
  unfolding ticket_seated_messages_def publish_training_def toMlEtaTrainingEvent_def publishToMlEta_def
    assign_toOutputDTO_def seat_messages_def cancel_messages_def Let_def
  by (intro stays_bindE stays_if stays_case_option stays_retE frame_rules st_attempt R_mlqueue)+

end

subsection \<open>With push jobs\<close>

locale ring_frame = frame +
  assumes R_jobs: "R w (w\<lparr> jobs := jobs w @ [j] \<rparr>)"
begin

lemma st_ring: "stays R (ring_execute i)"
  unfolding ring_execute_unfold Let_def dispatch_notification_def addJob_def called_message_def
  by (intro stays_bindE stays_if stays_catchE stays_retE stays_liftE frame_rules st_attempt R_jobs)

end

subsection \<open>With table requests\<close>

locale seat_frame = frame +
  assumes R_assign: "R w (w\<lparr> upstream := upstream w @ [AssignTables r ts] \<rparr>)"
begin

lemma st_assignTables: "stays R (assignTables r ts)"
proof -
  have log: "stays R (log_upstream (AssignTables r ts))"
    by (simp add: stays_def log_upstream_def R_assign)
  show ?thesis
    unfolding assignTables_def
    by (intro st_breaker stays_catchE stays_bindE stays_throwE log st_http st_envelope)
qed

lemma st_seating: "stays R (assign_execute ai)" "stays R (seat_execute si)"
  unfolding assign_execute_unfold seat_execute_unfold Let_def
  by (intro stays_bindE stays_if stays_throwE stays_liftE stays_catchE stays_retE frame_rules st_tails
      st_assignTables)+

end

locale full_frame = ring_frame + seat_frame +
  assumes R_release: "R w (w\<lparr> upstream := upstream w @ [ReleaseTables r rs] \<rparr>)"
begin

lemma st_releaseTables: "stays R (releaseTables r rs)"
proof -
  have log: "stays R (log_upstream (ReleaseTables r rs))"
    by (simp add: stays_def log_upstream_def R_release)
  show ?thesis
    unfolding releaseTables_def
    by (intro st_breaker stays_catchE stays_bindE stays_throwE log st_http st_envelope)
qed

lemma st_release: "stays R (release_assignments ci e)"
  unfolding release_assignments_def by (intro stays_bindE stays_if stays_retE frame_rules st_releaseTables)

lemma st_cancel: "stays R (cancel_execute ci)"
  unfolding cancel_execute_unfold Let_def
  by (intro stays_bindE stays_liftE frame_rules st_tails st_release)

lemma st_handle: "stays R (handle req)"
  by (cases req)
    (auto simp: answer_def intro!: stays_bindE st_register st_query_use_cases st_skip st_ring st_seating st_cancel)

lemma st_serve: "R w (serve reqs w)"
proof (induction reqs rule: rev_induct)
  case Nil
  then show ?case by (simp add: serve_def R_refl)
next
  case (snoc req reqs)
  have "R (serve reqs w) (serve (reqs @ [req]) w)"
    using st_handle [of req] by (simp add: serve_def stays_def)
  with snoc show ?case by (rule R_trans)
qed

end

subsection \<open>The environment stays, and time goes on\<close>

interpretation same_env: full_frame same_env
  by unfold_locales (auto simp: same_env_def)

lemma after_ext [simp]: "ext (after en reqs) = en"
  using same_env.st_serve [of "start_world en" reqs] by (simp add: same_env_def after_def start_world_def)

end
