(* ===== verification/Messages.thy ===== *)
theory Messages
  imports Frames
begin

text \<open>
  What the service sends. \<open>kept f\<close> says that an effect leaves the log \<open>f\<close> of the world alone; with
  the frame rules, every component that does not write the table requests or the push jobs keeps
  them. With that: no run sends a release request, a ring sends at most one push job, messages go
  only to the rooms of staff and of tickets, and the messages of a cancellation.
\<close>

subsection \<open>Logs\<close>

definition kept :: "(world \<Rightarrow> 'l) \<Rightarrow> world \<Rightarrow> world \<Rightarrow> bool" where
  "kept f w w' \<longleftrightarrow> f w' = f w"

interpretation kept_upstream: ring_frame "kept upstream"
  by unfold_locales (simp_all add: kept_def)

interpretation kept_jobs: seat_frame "kept jobs"
  by unfold_locales (simp_all add: kept_def)

text \<open>A specification may use that the effect keeps a log.\<close>

lemma wp_kept:
  assumes "stays (kept f) m"
    and "wp m (\<lambda>x w'. f w' = f w \<longrightarrow> Q x w') (\<lambda>e w'. f w' = f w \<longrightarrow> E e w') w"
  shows "wp m Q E w"
proof -
  have "wp m (\<lambda>_ w'. f w' = f w) (\<lambda>_ w'. f w' = f w) w"
    using assms(1) unfolding stays_wp kept_def [abs_def] by blast
  from wp_conj [OF this assms(2)] show ?thesis by (rule wp_mono) auto
qed

subsection \<open>Table requests\<close>

text \<open>An effect that sends no table request other than assignments.\<close>

definition assigns_only :: "world \<Rightarrow> world \<Rightarrow> bool" where
  "assigns_only w w' \<longleftrightarrow> (\<exists>xs. upstream w' = upstream w @ map (\<lambda>(r, ts). AssignTables r ts) xs)"

interpretation assigns_only: effect_order assigns_only
proof
  show "assigns_only w w" for w unfolding assigns_only_def by (rule exI [of _ "[]"]) simp
  show "assigns_only u w" if "assigns_only u v" "assigns_only v w" for u v w
  proof -
    from that obtain xs ys where "upstream v = upstream u @ map (\<lambda>(r, ts). AssignTables r ts) xs"
      "upstream w = upstream v @ map (\<lambda>(r, ts). AssignTables r ts) ys"
      by (auto simp: assigns_only_def)
    then show ?thesis unfolding assigns_only_def by (intro exI [of _ "xs @ ys"]) simp
  qed
qed

lemma assigns_only_same: "upstream w' = upstream w \<Longrightarrow> assigns_only w w'"
  unfolding assigns_only_def by (rule exI [of _ "[]"]) simp

lemma assigns_only_assign: "assigns_only w (w\<lparr> upstream := upstream w @ [AssignTables r ts] \<rparr>)"
  unfolding assigns_only_def by (rule exI [of _ "[(r, ts)]"]) simp

interpretation assigns_only_ring: ring_frame assigns_only
  by unfold_locales (auto intro: assigns_only_same)

interpretation assigns_only_seat: seat_frame assigns_only
  by unfold_locales (rule assigns_only_assign)

text \<open>
  In a database that keeps the invariant, cancelling sends no request about tables: the branch that
  releases them is not taken, since a waiting entry has none.
\<close>

lemma cancel_keeps_upstream:
  assumes inv: "db_inv (db w)"
  shows "wp (cancel_execute input) (\<lambda>_ w'. upstream w' = upstream w) (\<lambda>_ w'. upstream w' = upstream w) w"
  unfolding cancel_execute_unfold Let_def
proof (subst wp_bindE, rule wp_kept [where f = upstream], goal_cases)
  case 1
  show ?case by (intro kept_upstream.frame_rules)
next
  case 2
  let ?Q = "\<lambda>_ w'. upstream w' = upstream w"
  show ?case
  proof (rule wp_load_entry)
    fix r and w1 :: world
    assume r: "r \<in> set (entries (db w))" "r_id r = ci_queueEntryId input" and w1: "db w1 = db w"
    have rest: "stays (kept upstream) (bindE (updateStatusWithHistory (cancel_params input (r_status r) e)) (\<lambda>persisted.
        bindE (refresh_queue (ci_restaurantId input) (ci_queueEntryId input)) (\<lambda>_. cancel_messages input persisted)))" for e
      by (intro kept_upstream.stays_bindE kept_upstream.frame_rules kept_upstream.st_tails)
    have core: "wp (bindE (release_assignments input e) (\<lambda>_.
        bindE (updateStatusWithHistory (cancel_params input (r_status r) e)) (\<lambda>persisted.
        bindE (refresh_queue (ci_restaurantId input) (ci_queueEntryId input)) (\<lambda>_. cancel_messages input persisted)))) ?Q ?Q w2"
      if run: "cancel st t1 t2 (toDomain r) = Inr e" and w2: "db w2 = db w" "upstream w2 = upstream w" for st t1 t2 e w2
    proof -
      have "r_status r = WAITING" using run by (auto simp: cancel_Inr)
      then have none: "active_assignments (ci_queueEntryId input) (db w2) = []"
        using waiting_no_assignments [OF inv r(1)] r(2) w2 by simp
      have "wp (release_assignments input e) (\<lambda>_ w'. upstream w' = upstream w2) (\<lambda>_ w'. upstream w' = upstream w2) w2"
        unfolding release_assignments_def wp_bindE
        by (rule wp_kept [where f = upstream], intro kept_upstream.frame_rules, rule wp_findActiveTableAssignments)
          (simp_all add: none wp_simps)
      then show ?thesis
        unfolding wp_bindE [of "release_assignments input e"]
      proof (rule wp_mono)
        fix x and w3 :: world
        assume "upstream w3 = upstream w2"
        then show "wp (bindE (updateStatusWithHistory (cancel_params input (r_status r) e)) (\<lambda>persisted.
            bindE (refresh_queue (ci_restaurantId input) (ci_queueEntryId input)) (\<lambda>_. cancel_messages input persisted))) ?Q ?Q w3"
          by (intro wp_stays [OF rest]) (use w2 in \<open>auto simp: kept_def\<close>)
      qed (use w2 in simp)
    qed
    show "upstream w1 = upstream w \<longrightarrow> wp (bindE new_date (\<lambda>t1. bindE new_date (\<lambda>t2.
        bindE (liftE DomainError (cancel (cancel_target (ci_reason input)) t1 t2 (toDomain r))) (\<lambda>e.
        bindE (release_assignments input e) (\<lambda>_.
        bindE (updateStatusWithHistory (cancel_params input (e_status (toDomain r)) e)) (\<lambda>persisted.
        bindE (refresh_queue (ci_restaurantId input) (ci_queueEntryId input)) (\<lambda>_. cancel_messages input persisted))))))) ?Q ?Q w1"
      unfolding new_date_def wp_bindE [of "ask clock"] wp_ask wp_bindE [of "liftE DomainError _"] wp_liftE
      using w1 core by (auto split: sum.split)
  qed simp
qed

definition is_assign :: "upstream_call \<Rightarrow> bool" where
  "is_assign c = (case c of AssignTables _ _ \<Rightarrow> True | ReleaseTables _ _ \<Rightarrow> False)"

lemma handle_assigns_only:
  assumes inv: "db_inv (db w)"
  shows "assigns_only w (snd (handle req w))"
proof -
  have ans: "assigns_only w (snd (answer f m w))" if "stays assigns_only m" for m f
  proof (rule staysD [where R = assigns_only])
    show "stays assigns_only (answer f m)"
      unfolding answer_def by (intro assigns_only.stays_bindE assigns_only.stays_retE that)
  qed
  show ?thesis
  proof (cases req)
    case (CancelReq i)
    have "wp (answer CancelRes (cancel_execute i)) (\<lambda>_ w'. upstream w' = upstream w) (\<lambda>_ w'. upstream w' = upstream w) w"
      unfolding answer_def wp_bindE wp_retE by (rule cancel_keeps_upstream [OF inv])
    then show ?thesis using CancelReq by (simp add: wp_snd assigns_only_def exI [of _ "[]"])
  qed (auto intro!: ans assigns_only_seat.st_seating assigns_only_ring.st_register assigns_only_ring.st_query_use_cases assigns_only_ring.st_skip assigns_only_ring.st_ring)
qed

lemma after_assigns_only: "list_all is_assign (upstream (after en reqs))"
proof (induction reqs rule: rev_induct)
  case Nil
  then show ?case by (simp add: after_def serve_def start_world_def)
next
  case (snoc req reqs)
  have "assigns_only (after en reqs) (after en (reqs @ [req]))"
    using handle_assigns_only [OF after_inv, of en reqs req] by (simp add: after_def serve_def)
  with snoc show ?case
    by (auto simp: assigns_only_def list_all_iff is_assign_def)
qed

subsection \<open>Rooms\<close>

text \<open>The rooms a message of the service goes to: two of one restaurant, or two of one ticket.\<close>

definition room_pairs :: "string list \<Rightarrow> bool" where
  "room_pairs rs \<longleftrightarrow> (\<exists>i. rs = [room_restaurant i, room_restaurantQueue i] \<or> rs = [room_ticket i, room_queueEntry i])"

lemma room_pairs_simps [simp]:
  "room_pairs [room_restaurant i, room_restaurantQueue i]" "room_pairs [room_ticket i, room_queueEntry i]"
  by (auto simp: room_pairs_def)

definition sends_to_pairs :: "world \<Rightarrow> world \<Rightarrow> bool" where
  "sends_to_pairs w w' \<longleftrightarrow> (\<exists>ms. outbox w' = outbox w @ ms \<and> (\<forall>m \<in> set ms. room_pairs (em_rooms m)))"

lemma sends_same: "outbox w' = outbox w \<Longrightarrow> sends_to_pairs w w'"
  unfolding sends_to_pairs_def by (rule exI [of _ "[]"]) simp

lemma sends_log: "room_pairs (em_rooms m) \<Longrightarrow> sends_to_pairs w (w\<lparr> outbox := outbox w @ [m] \<rparr>)"
  unfolding sends_to_pairs_def by (rule exI [of _ "[m]"]) simp

interpretation sends: full_frame sends_to_pairs
proof
  show "sends_to_pairs u w" if "sends_to_pairs u v" "sends_to_pairs v w" for u v w
  proof -
    from that obtain ms ns where "outbox v = outbox u @ ms" "outbox w = outbox v @ ns"
      "\<forall>m \<in> set ms. room_pairs (em_rooms m)" "\<forall>m \<in> set ns. room_pairs (em_rooms m)"
      by (auto simp: sends_to_pairs_def)
    then show ?thesis unfolding sends_to_pairs_def by (intro exI [of _ "ms @ ns"]) auto
  qed
qed (simp_all add: sends_same sends_log)

lemma after_room_pairs: "m \<in> set (outbox (after en reqs)) \<Longrightarrow> room_pairs (em_rooms m)"
  using sends.st_serve [of "start_world en" reqs] by (auto simp: sends_to_pairs_def after_def start_world_def)

subsection \<open>Push notifications\<close>

lemma wp_dispatch:
  "wp (dispatch_notification e l) (\<lambda>b w'. jobs w' = jobs w @ (if b
      then [\<lparr> j_queue = PUSH_NOTIFICATIONS, j_name = SEND_PUSH_NOTIFICATION, j_data = push_data e l,
              j_attempts = 3, j_backoffDelay = 1000 \<rparr>] else []) \<and> (b \<longrightarrow> truthy (e_fid e)))
     (\<lambda>_ _. False) w"
  by (auto simp: dispatch_notification_def addJob_def wp_simps split: option.split)

text \<open>The push jobs of a ring: one for the device of the entry when the answer says so, else none.\<close>

definition notified :: "ring_input \<Rightarrow> ring_output \<Rightarrow> push_job list \<Rightarrow> push_job list \<Rightarrow> bool" where
  "notified input out js js' \<longleftrightarrow>
     (if go_notificationDispatched out
      then \<exists>e l. e_id e = rg_queueEntryId input \<and> truthy (e_fid e) \<and>
        js' = js @ [\<lparr> j_queue = PUSH_NOTIFICATIONS, j_name = SEND_PUSH_NOTIFICATION,
          j_data = push_data e l, j_attempts = 3, j_backoffDelay = 1000 \<rparr>]
      else js' = js)"

lemma wp_ring_jobs:
  "wp (ring_execute input) (\<lambda>out w'. notified input out (jobs w) (jobs w')) (\<lambda>_ w'. jobs w' = jobs w) w"
proof -
  let ?Q = "\<lambda>out w'. notified input out (jobs w) (jobs w')" and ?E = "\<lambda>_ w'. jobs w' = jobs w"
  have tail: "wp (bindE (dispatch_notification e l) (\<lambda>b. bindE (called_message e l) (\<lambda>_.
      bindE (or_now (e_lastRingedAt e)) (\<lambda>t.
      retE \<lparr> go_queueEntryId = e_id e, go_restaurantId = e_restaurantId e, go_guestName = e_guestName e,
             go_ringCount = e_ringCount e, go_lastRingedAt = t, go_notificationDispatched = b \<rparr>)))) ?Q ?E w'"
    if "jobs w' = jobs w" "e_id e = rg_queueEntryId input" "e_lastRingedAt e = Some t" for e l w' t
    unfolding that(3) or_now_Some wp_bindE wp_retE
  proof (rule wp_mono [OF wp_dispatch])
    fix b and w2 :: world
    assume b: "jobs w2 = jobs w' @ (if b then [\<lparr> j_queue = PUSH_NOTIFICATIONS, j_name = SEND_PUSH_NOTIFICATION,
        j_data = push_data e l, j_attempts = 3, j_backoffDelay = 1000 \<rparr>] else []) \<and> (b \<longrightarrow> truthy (e_fid e))"
    have quiet: "stays (kept jobs) (called_message e l)"
      unfolding called_message_def by (intro kept_jobs.frame_rules)
    have "wp (called_message e l) (\<lambda>_ w'. jobs w' = jobs w2) (\<lambda>_ _. False) w2"
      using called_quiet [of e l] quiet unfolding quiet_def stays_wp kept_def [abs_def] by (blast intro: wp_mono wp_conj)
    then show "wp (called_message e l) (\<lambda>_ . ?Q \<lparr> go_queueEntryId = e_id e, go_restaurantId = e_restaurantId e,
        go_guestName = e_guestName e, go_ringCount = e_ringCount e, go_lastRingedAt = t,
        go_notificationDispatched = b \<rparr>) ?E w2"
      by (rule wp_mono) (use b that in \<open>auto simp: notified_def\<close>)
  qed simp
  have save: "wp (bindE (save queue_repo e) (\<lambda>_. bindE (ask_cfg cfg_ticketDeepLinkBaseUrl) k)) ?Q ?E w'"
    if "jobs w' = jobs w" and "\<And>base w''. jobs w'' = jobs w \<Longrightarrow> wp (k base) ?Q ?E w''" for e k w'
    unfolding wp_bindE
    by (rule wp_stays [of "kept jobs"], intro kept_jobs.frame_rules) (use that in \<open>auto simp: kept_def wp_ask_cfg\<close>)
  show ?thesis
    unfolding ring_execute_unfold
  proof (subst wp_bindE, rule wp_kept [where f = jobs], intro kept_jobs.frame_rules, rule wp_load_entry)
    fix r :: entry_row and w1 :: world
    assume r: "r_id r = rg_queueEntryId input"
    have "wp (bindE (save queue_repo e) (\<lambda>_. bindE (ask_cfg cfg_ticketDeepLinkBaseUrl) (\<lambda>base.
        let deepLink = deep_link base (e_id e) in
        bindE (dispatch_notification e deepLink) (\<lambda>b. bindE (called_message e deepLink) (\<lambda>_.
        bindE (or_now (e_lastRingedAt e)) (\<lambda>t.
        retE \<lparr> go_queueEntryId = e_id e, go_restaurantId = e_restaurantId e, go_guestName = e_guestName e,
               go_ringCount = e_ringCount e, go_lastRingedAt = t, go_notificationDispatched = b \<rparr>)))))) ?Q ?E w'"
      if run: "ring t1 t2 (toDomain r) = Inr e" and w': "jobs w' = jobs w" for t1 t2 e w'
      unfolding Let_def
    proof (rule save [OF w'])
      have e: "e_id e = rg_queueEntryId input" "e_lastRingedAt e = Some t1" using run r by (auto simp: ring_Inr)
      fix base and w2 :: world
      assume "jobs w2 = jobs w"
      from tail [OF this e] show "wp (bindE (dispatch_notification e (deep_link base (e_id e))) (\<lambda>b.
          bindE (called_message e (deep_link base (e_id e))) (\<lambda>_. bindE (or_now (e_lastRingedAt e)) (\<lambda>t.
          retE \<lparr> go_queueEntryId = e_id e, go_restaurantId = e_restaurantId e, go_guestName = e_guestName e,
               go_ringCount = e_ringCount e, go_lastRingedAt = t, go_notificationDispatched = b \<rparr>)))) ?Q ?E w2" .
    qed
    then show "jobs w1 = jobs w \<longrightarrow> wp (bindE new_date (\<lambda>t1. bindE new_date (\<lambda>t2.
        bindE (liftE DomainError (ring t1 t2 (toDomain r))) (\<lambda>e. bindE (save queue_repo e) (\<lambda>_.
        bindE (ask_cfg cfg_ticketDeepLinkBaseUrl) (\<lambda>base. let deepLink = deep_link base (e_id e) in
        bindE (dispatch_notification e deepLink) (\<lambda>b. bindE (called_message e deepLink) (\<lambda>_.
        bindE (or_now (e_lastRingedAt e)) (\<lambda>t.
        retE \<lparr> go_queueEntryId = e_id e, go_restaurantId = e_restaurantId e, go_guestName = e_guestName e,
               go_ringCount = e_ringCount e, go_lastRingedAt = t, go_notificationDispatched = b \<rparr>))))))))) ?Q ?E w1"
      unfolding new_date_def wp_bindE [of "ask clock"] wp_ask wp_bindE [of "liftE DomainError _"] wp_liftE
      by (auto split: sum.split)
  qed simp
qed

end
