(* ===== verification/Sockets.thy ===== *)
theory Sockets
  imports Messages
begin

text \<open>
  The WebSocket side: the handshake (\<open>socket-auth.middleware.ts\<close>), the connection handler
  (\<open>connection.handler.ts\<close>) and the room handlers (\<open>room.handler.ts\<close>) with the roles, events and
  messages of \<open>websocket.constants.ts\<close>. A socket is its user, the rooms it is in and what it was
  sent; Socket.IO keeps a room set per socket. A session mixes the events of one client with
  requests served meanwhile. The lemmas show which rooms a session can be in.
\<close>

subsection \<open>Headers and query values\<close>

text \<open>A header or query value: a string, an array, or something else, \<open>undefined\<close> included.\<close>

datatype js_value = JStr string | JArr "js_value list" | JUndef

definition getHeaderValue :: "js_value \<Rightarrow> string option" where
  "getHeaderValue header =
     (case header of JStr s \<Rightarrow> Some s | JArr (JStr s # _) \<Rightarrow> Some s | _ \<Rightarrow> None)"

definition getParamValue :: "js_value \<Rightarrow> string option" where
  "getParamValue v =
     (case v of
        JStr s \<Rightarrow> if js_trim s \<noteq> [] then Some (js_trim s) else None
      | JArr (JStr s # _) \<Rightarrow> if js_trim s \<noteq> [] then Some (js_trim s) else None
      | _ \<Rightarrow> None)"

text \<open>\<open>a || b\<close> on two values that may be missing.\<close>

definition or_value :: "string option \<Rightarrow> string option \<Rightarrow> string option" where
  "or_value a b = (if truthy a then a else b)"

subsection \<open>Roles\<close>

definition STAFF_ROLE :: string where "STAFF_ROLE = ''STAFF''"
definition RESTAURANT_OWNER_ROLE :: string where "RESTAURANT_OWNER_ROLE = ''RESTAURANT_OWNER''"
definition ADMIN_ROLE :: string where "ADMIN_ROLE = ''ADMIN''"
definition CUSTOMER_ROLE :: string where "CUSTOMER_ROLE = ''CUSTOMER''"
definition STAFF_ROLES :: "string list" where "STAFF_ROLES = [STAFF_ROLE]"

lemmas role_defs = STAFF_ROLE_def RESTAURANT_OWNER_ROLE_def ADMIN_ROLE_def CUSTOMER_ROLE_def STAFF_ROLES_def

record socket_user =
  su_userId :: string
  su_role :: string
  su_restaurantId :: "string option"
  su_ticketId :: "string option"
  su_email :: "string option"

definition isAuthorizedRestaurantMember :: "socket_user option \<Rightarrow> uuid \<Rightarrow> bool" where
  "isAuthorizedRestaurantMember user requestedRestaurantId =
     (case user of
        None \<Rightarrow> False
      | Some u \<Rightarrow>
          if su_role u = ADMIN_ROLE then True
          else (su_role u \<in> set STAFF_ROLES \<or> su_role u = RESTAURANT_OWNER_ROLE) \<and>
               su_restaurantId u = Some requestedRestaurantId)"

subsection \<open>The handshake\<close>

record handshake =
  hs_headers :: "string \<Rightarrow> js_value"
  hs_query :: "string \<Rightarrow> js_value"

definition CREDENTIALS_REQUIRED :: string where
  "CREDENTIALS_REQUIRED = ''Authentication failed: Credentials required''"

definition socketAuth :: "handshake \<Rightarrow> string + socket_user" where
  "socketAuth hs =
     (let headerUserId = getHeaderValue (hs_headers hs ''x-user-id'');
          headerRole = getHeaderValue (hs_headers hs ''x-user-role'');
          headerRestaurantId = getHeaderValue (hs_headers hs ''x-restaurant-id'');
          headerTicketId = getHeaderValue (hs_headers hs ''x-ticket-id'');
          headerEmail = getHeaderValue (hs_headers hs ''x-user-email'')
      in if \<not> truthy headerUserId then Inl CREDENTIALS_REQUIRED
         else
           (let role = js_upper (or_else headerRole CUSTOMER_ROLE);
                isStaffOrOwner = (role = STAFF_ROLE \<or> role = RESTAURANT_OWNER_ROLE);
                trimmedTicketId = map_option js_trim headerTicketId;
                trimmedRestaurantId = map_option js_trim headerRestaurantId
            in Inr \<lparr> su_userId = the headerUserId, su_role = role,
                     su_restaurantId = (if isStaffOrOwner then trimmedRestaurantId
                       else or_value trimmedRestaurantId (getParamValue (hs_query hs ''restaurantId''))),
                     su_ticketId = or_value trimmedTicketId (getParamValue (hs_query hs ''ticketId'')),
                     su_email = headerEmail \<rparr>))"

subsection \<open>Sockets\<close>

record room_ack =
  ack_success :: bool
  ack_room :: "string option"
  ack_error :: "string option"

definition createRoomSuccessResponse :: "string option \<Rightarrow> room_ack" where
  "createRoomSuccessResponse room = \<lparr> ack_success = True, ack_room = room, ack_error = None \<rparr>"

definition createRoomErrorResponse :: "string \<Rightarrow> room_ack" where
  "createRoomErrorResponse error = \<lparr> ack_success = False, ack_room = None, ack_error = Some error \<rparr>"

record socket =
  ss_user :: "socket_user option"
  ss_rooms :: "string set"
  ss_sent :: "(string \<times> room_ack) list"
  ss_handlers :: bool
  ss_connected :: bool

definition join :: "string \<Rightarrow> socket \<Rightarrow> socket" where
  "join room s = s\<lparr> ss_rooms := insert room (ss_rooms s) \<rparr>"

definition leave :: "string \<Rightarrow> socket \<Rightarrow> socket" where
  "leave room s = s\<lparr> ss_rooms := ss_rooms s - {room} \<rparr>"

definition socket_emit :: "string \<Rightarrow> room_ack \<Rightarrow> socket \<Rightarrow> socket" where
  "socket_emit event response s = s\<lparr> ss_sent := ss_sent s @ [(event, response)] \<rparr>"

text \<open>The connection handler, with the registration of the room handlers.\<close>

definition registerRoomHandlers :: "socket \<Rightarrow> socket" where
  "registerRoomHandlers s = (case ss_user s of None \<Rightarrow> s | Some _ \<Rightarrow> s\<lparr> ss_handlers := True \<rparr>)"

definition handleSocketConnection :: "socket \<Rightarrow> socket" where
  "handleSocketConnection s =
     (case ss_user s of
        None \<Rightarrow> s\<lparr> ss_connected := False \<rparr>
      | Some u \<Rightarrow>
          (let s1 = join (room_user (su_userId u)) s;
               s2 = (if truthy (su_ticketId u) then join (room_ticket (the (su_ticketId u))) s1 else s1);
               s3 = (if truthy (su_restaurantId u) \<and>
                        isAuthorizedRestaurantMember (Some u) (the (su_restaurantId u))
                     then join (room_restaurant (the (su_restaurantId u))) s2
                     else if truthy (su_restaurantId u)
                     then join (room_queue (the (su_restaurantId u))) s2
                     else s2)
           in registerRoomHandlers s3))"

definition new_socket :: "socket_user \<Rightarrow> socket" where
  "new_socket u = \<lparr> ss_user = Some u, ss_rooms = {}, ss_sent = [], ss_handlers = False, ss_connected = True \<rparr>"

text \<open>A client connects: the middleware runs first, then the connection handler.\<close>

definition open_socket :: "handshake \<Rightarrow> socket option" where
  "open_socket hs = (case socketAuth hs of Inl _ \<Rightarrow> None | Inr u \<Rightarrow> Some (handleSocketConnection (new_socket u)))"

subsection \<open>The room handlers\<close>

definition EV_ROOM_JOINED :: string where "EV_ROOM_JOINED = ''room:joined''"
definition EV_ROOM_LEFT :: string where "EV_ROOM_LEFT = ''room:left''"
definition EV_ERROR :: string where "EV_ERROR = ''error''"
definition RESTAURANT_ID_REQUIRED :: string where "RESTAURANT_ID_REQUIRED = ''restaurantId is required''"
definition QUEUE_ID_REQUIRED :: string where "QUEUE_ID_REQUIRED = ''queueId is required''"
definition TICKET_ID_REQUIRED :: string where "TICKET_ID_REQUIRED = ''ticketId is required''"
definition UNAUTHORIZED_RESTAURANT :: string where
  "UNAUTHORIZED_RESTAURANT = ''Unauthorized: Cannot access this restaurant queue''"
definition UNAUTHORIZED_QUEUE :: string where
  "UNAUTHORIZED_QUEUE = ''Unauthorized: Cannot access this queue''"
definition UNAUTHORIZED_TICKET :: string where
  "UNAUTHORIZED_TICKET = ''Unauthorized: Cannot access this ticket''"

text \<open>The socket after the answer, and the answer itself, which is also given to the callback.\<close>

definition emitSuccess :: "socket \<Rightarrow> string \<Rightarrow> string \<Rightarrow> socket \<times> room_ack" where
  "emitSuccess s event room =
     (let response = createRoomSuccessResponse (Some room) in (socket_emit event response s, response))"

definition emitError :: "socket \<Rightarrow> string \<Rightarrow> bool \<Rightarrow> socket \<times> room_ack" where
  "emitError s error emitToSocket =
     (let response = createRoomErrorResponse error
      in (if emitToSocket then socket_emit EV_ERROR response s else s, response))"

text \<open>\<open>!id || typeof id !== 'string'\<close>\<close>

definition id_given :: "js_value \<Rightarrow> string option" where
  "id_given v = (case v of JStr s \<Rightarrow> if s \<noteq> [] then Some s else None | _ \<Rightarrow> None)"

definition join_restaurant :: "socket_user \<Rightarrow> js_value \<Rightarrow> socket \<Rightarrow> socket \<times> room_ack" where
  "join_restaurant user data s =
     (case id_given data of
        None \<Rightarrow> emitError s RESTAURANT_ID_REQUIRED True
      | Some restaurantId \<Rightarrow>
          if \<not> isAuthorizedRestaurantMember (Some user) restaurantId
          then emitError s UNAUTHORIZED_RESTAURANT True
          else (let room = room_restaurant restaurantId in emitSuccess (join room s) EV_ROOM_JOINED room))"

definition leave_room :: "string \<Rightarrow> (uuid \<Rightarrow> string) \<Rightarrow> js_value \<Rightarrow> socket \<Rightarrow> socket \<times> room_ack" where
  "leave_room required room_of data s =
     (case id_given data of
        None \<Rightarrow> emitError s required False
      | Some i \<Rightarrow> (let room = room_of i in emitSuccess (leave room s) EV_ROOM_LEFT room))"

definition join_queue :: "socket_user \<Rightarrow> js_value \<Rightarrow> socket \<Rightarrow> socket \<times> room_ack" where
  "join_queue user data s =
     (case id_given data of
        None \<Rightarrow> emitError s QUEUE_ID_REQUIRED True
      | Some queueId \<Rightarrow>
          if \<not> (su_role user = ADMIN_ROLE \<or> su_role user = CUSTOMER_ROLE \<or>
                isAuthorizedRestaurantMember (Some user) queueId)
          then emitError s UNAUTHORIZED_QUEUE True
          else (let room = room_queue queueId in emitSuccess (join room s) EV_ROOM_JOINED room))"

text \<open>
  Whether a user may listen to a ticket, and the user afterwards: the id of a ticket found to be
  the user's own is kept. The repository may be missing from the container, and may fail.
\<close>

definition check_ticket :: "socket_user \<Rightarrow> uuid \<Rightarrow> queue_entry option \<Rightarrow> bool \<times> socket_user" where
  "check_ticket user ticketId found =
     (case found of
        None \<Rightarrow> (False, user)
      | Some ticket \<Rightarrow>
          if (su_role user \<in> set STAFF_ROLES \<or> su_role user = RESTAURANT_OWNER_ROLE) \<and>
             truthy (su_restaurantId user) \<and> su_restaurantId user = Some (e_restaurantId ticket)
          then (True, user)
          else if su_role user = CUSTOMER_ROLE \<and> su_userId user \<noteq> [] \<and> e_userId ticket = Some (su_userId user)
          then (True, user\<lparr> su_ticketId := Some ticketId \<rparr>)
          else (False, user))"

definition authorize_ticket :: "bool \<Rightarrow> socket_user \<Rightarrow> uuid \<Rightarrow> (bool \<times> socket_user) io" where
  "authorize_ticket repo_bound user ticketId =
     (if su_role user = ADMIN_ROLE then retE (True, user)
      else if su_role user = CUSTOMER_ROLE \<and> su_ticketId user = Some ticketId then retE (True, user)
      else if repo_bound then
        catchE (bindE (findById queue_repo ticketId) (\<lambda>ticket. retE (check_ticket user ticketId ticket)))
          (\<lambda>_. retE (False, user))
      else retE (False, user))"

definition join_ticket :: "bool \<Rightarrow> socket_user \<Rightarrow> js_value \<Rightarrow> socket \<Rightarrow> (socket \<times> room_ack) io" where
  "join_ticket repo_bound user data s =
     (case id_given data of
        None \<Rightarrow> retE (emitError s TICKET_ID_REQUIRED True)
      | Some ticketId \<Rightarrow>
          bindE (authorize_ticket repo_bound user ticketId) (\<lambda>(isAuthorized, user').
          let s' = s\<lparr> ss_user := Some user' \<rparr> in
          if \<not> isAuthorized then retE (emitError s' UNAUTHORIZED_TICKET True)
          else (let room = room_ticket ticketId
                in retE (emitSuccess (join room s') EV_ROOM_JOINED room))))"

datatype client_event =
    JoinRestaurant js_value
  | LeaveRestaurant js_value
  | JoinTicket js_value
  | LeaveTicket js_value
  | JoinQueue js_value
  | LeaveQueue js_value

text \<open>An event without a handler, because there is no user, does nothing.\<close>

definition on_event :: "bool \<Rightarrow> client_event \<Rightarrow> socket \<Rightarrow> (socket \<times> room_ack option) io" where
  "on_event repo_bound ev s =
     (case ss_user s of
        None \<Rightarrow> retE (s, None)
      | Some user \<Rightarrow>
          if \<not> ss_handlers s then retE (s, None)
          else bindE
            (case ev of
               JoinRestaurant d \<Rightarrow> retE (join_restaurant user d s)
             | LeaveRestaurant d \<Rightarrow> retE (leave_room RESTAURANT_ID_REQUIRED room_restaurant d s)
             | JoinTicket d \<Rightarrow> join_ticket repo_bound user d s
             | LeaveTicket d \<Rightarrow> retE (leave_room TICKET_ID_REQUIRED room_ticket d s)
             | JoinQueue d \<Rightarrow> retE (join_queue user d s)
             | LeaveQueue d \<Rightarrow> retE (leave_room QUEUE_ID_REQUIRED room_queue d s))
            (\<lambda>(s', a). retE (s', Some a)))"

subsection \<open>Sessions\<close>

text \<open>The events of one client, between which the service answers requests of others.\<close>

datatype session_event = Client client_event | Service request

fun session_step :: "bool \<Rightarrow> session_event \<Rightarrow> socket \<times> world \<Rightarrow> socket \<times> world" where
  "session_step bnd (Client ev) (s, w) =
     (case on_event bnd ev s w of (Inl _, w') \<Rightarrow> (s, w') | (Inr (s', _), w') \<Rightarrow> (s', w'))"
| "session_step bnd (Service req) (s, w) = (s, snd (handle req w))"

definition session :: "bool \<Rightarrow> session_event list \<Rightarrow> socket \<Rightarrow> world \<Rightarrow> socket \<times> world" where
  "session bnd evs s w = foldl (\<lambda>sw ev. session_step bnd ev sw) (s, w) evs"


subsection \<open>Which rooms a session can be in\<close>

lemmas room_defs = room_restaurant_def room_restaurantQueue_def room_queue_def room_ticket_def
  room_queueEntry_def room_user_def

lemma rooms_distinct [simp]:
  "room_restaurant i = room_restaurant j \<longleftrightarrow> i = j" "room_ticket i = room_ticket j \<longleftrightarrow> i = j"
  "room_queue i = room_queue j \<longleftrightarrow> i = j" "room_user i = room_user j \<longleftrightarrow> i = j"
  "room_restaurant i \<noteq> room_ticket j" "room_ticket j \<noteq> room_restaurant i"
  "room_restaurant i \<noteq> room_queue j" "room_queue j \<noteq> room_restaurant i"
  "room_restaurant i \<noteq> room_user j" "room_user j \<noteq> room_restaurant i"
  "room_ticket i \<noteq> room_queue j" "room_queue j \<noteq> room_ticket i"
  "room_ticket i \<noteq> room_user j" "room_user j \<noteq> room_ticket i"
  "room_queue i \<noteq> room_user j" "room_user j \<noteq> room_queue i"
  by (simp_all add: room_defs)

text \<open>
  The tickets a user may listen to: the one named in the handshake, all of them for an admin, the
  entries of the restaurant for its members, the user's own entries for a customer.
\<close>

definition may_hear :: "database \<Rightarrow> socket_user \<Rightarrow> uuid \<Rightarrow> bool" where
  "may_hear d u t \<longleftrightarrow>
     su_ticketId u = Some t \<or> su_role u = ADMIN_ROLE \<or>
     (\<exists>r \<in> set (entries d). r_id r = t \<and>
        ((su_role u = STAFF_ROLE \<or> su_role u = RESTAURANT_OWNER_ROLE) \<and> su_restaurantId u = Some (r_restaurantId r) \<or>
         su_role u = CUSTOMER_ROLE \<and> r_userId r = Some (su_userId u)))"

definition may_join :: "database \<Rightarrow> socket_user \<Rightarrow> string \<Rightarrow> bool" where
  "may_join d u room \<longleftrightarrow>
     room = room_user (su_userId u) \<or>
     (\<exists>i. room = room_restaurant i \<and> isAuthorizedRestaurantMember (Some u) i) \<or>
     (\<exists>i. room = room_queue i \<and> (su_role u = ADMIN_ROLE \<or> su_role u = CUSTOMER_ROLE \<or> su_restaurantId u = Some i)) \<or>
     (\<exists>t. room = room_ticket t \<and> may_hear d u t)"

lemma may_hear_evolves: "may_hear d u t \<Longrightarrow> db_evolves d d' \<Longrightarrow> may_hear d' u t"
proof -
  assume h: "may_hear d u t" and ev: "db_evolves d d'"
  have "\<exists>r' \<in> set (entries d'). r_id r' = r_id r \<and> r_restaurantId r' = r_restaurantId r \<and> r_userId r' = r_userId r"
    if "r \<in> set (entries d)" for r
    using db_evolves_row [OF ev that] row_evolves_D(1-3) by metis
  with h show ?thesis unfolding may_hear_def by fastforce
qed

lemma may_join_evolves: "may_join d u room \<Longrightarrow> db_evolves d d' \<Longrightarrow> may_join d' u room"
  unfolding may_join_def using may_hear_evolves by blast

text \<open>
  The invariant of a session of the user \<open>u\<close>: the user of the socket differs from \<open>u\<close> in the ticket
  at most, and then the ticket is one \<open>u\<close> may hear; every room is one \<open>u\<close> may join.
\<close>

definition socket_ok :: "socket_user \<Rightarrow> socket \<Rightarrow> world \<Rightarrow> bool" where
  "socket_ok u s w \<longleftrightarrow> db_inv (db w) \<and>
     (\<exists>v. ss_user s = Some v \<and> su_userId v = su_userId u \<and> su_role v = su_role u \<and>
        su_restaurantId v = su_restaurantId u \<and> (\<forall>t. su_ticketId v = Some t \<longrightarrow> may_hear (db w) u t)) \<and>
     ss_rooms s \<subseteq> {room. may_join (db w) u room}"

lemma socket_okD:
  assumes "socket_ok u s w" and "ss_user s = Some v"
  shows "su_userId v = su_userId u" "su_role v = su_role u" "su_restaurantId v = su_restaurantId u"
    "su_ticketId v = Some t \<Longrightarrow> may_hear (db w) u t" "db_inv (db w)"
    "isAuthorizedRestaurantMember (Some v) i = isAuthorizedRestaurantMember (Some u) i"
  using assms by (auto simp: socket_ok_def isAuthorizedRestaurantMember_def)

lemma socket_ok_evolves:
  assumes "socket_ok u s w" and "db_evolves (db w) (db w')" and "db_inv (db w')"
  shows "socket_ok u s w'"
  using assms may_hear_evolves [OF _ assms(2)] may_join_evolves [OF _ assms(2)]
  unfolding socket_ok_def by blast

lemma socket_ok_fields:
  "socket_ok u (socket_emit ev a s) w = socket_ok u s w"
  "socket_ok u s w \<Longrightarrow> socket_ok u (leave room s) w"
  "socket_ok u s w \<Longrightarrow> may_join (db w) u room \<Longrightarrow> socket_ok u (join room s) w"
  by (auto simp: socket_ok_def socket_emit_def leave_def join_def)

lemma socket_ok_emit:
  "socket_ok u (fst (emitError s e b)) w = socket_ok u s w"
  "socket_ok u (fst (emitSuccess s ev room)) w = socket_ok u s w"
  by (simp_all add: emitError_def emitSuccess_def socket_ok_fields Let_def)

lemma open_socket_ok:
  assumes "db_inv (db w)"
  shows "socket_ok u (handleSocketConnection (new_socket u)) w"
  using assms unfolding handleSocketConnection_def new_socket_def registerRoomHandlers_def
  by (auto simp: socket_ok_def join_def may_join_def may_hear_def Let_def truthy_conv)

lemma sync_handlers_ok:
  assumes ok: "socket_ok u s w" and v: "ss_user s = Some v"
  shows "socket_ok u (fst (join_restaurant v d s)) w" "socket_ok u (fst (join_queue v d s)) w"
    "socket_ok u (fst (leave_room req f d s)) w"
  using ok socket_okD(2,6) [OF ok v]
  by (auto simp: join_restaurant_def join_queue_def leave_room_def socket_ok_emit socket_ok_fields may_join_def
      isAuthorizedRestaurantMember_def Let_def split: option.split intro!: socket_ok_fields)

text \<open>The check of a ticket never rejects, leaves the database alone and is sound.\<close>

lemma wp_authorize_ticket:
  assumes ok: "socket_ok u s w" and v: "ss_user s = Some v"
  shows "wp (authorize_ticket bnd v t) (\<lambda>(b, v') w'. db w' = db w \<and> (b \<longrightarrow> may_hear (db w) u t) \<and>
      socket_ok u (s\<lparr> ss_user := Some v' \<rparr>) w') (\<lambda>_ _. False) w"
proof -
  note same = socket_okD [OF ok v]
  have keep: "socket_ok u (s\<lparr> ss_user := Some v \<rparr>) w'" if "db w' = db w" for w'
    using ok v that unfolding socket_ok_def by simp
  have own_ok: "socket_ok u (s\<lparr> ss_user := Some (v\<lparr> su_ticketId := Some t \<rparr>) \<rparr>) w'"
    if "db w' = db w" "may_hear (db w) u t" for w'
    using ok same that unfolding socket_ok_def by auto
  have checked: "case check_ticket v t (map_option toDomain (find_row queue_repo t (db w))) of (b, v') \<Rightarrow>
      (b \<longrightarrow> may_hear (db w) u t) \<and> socket_ok u (s\<lparr> ss_user := Some v' \<rparr>) w'"
    if w': "db w' = db w" for w'
  proof (cases "find_row queue_repo t (db w)")
    case None
    then show ?thesis by (simp add: check_ticket_def keep [OF w'])
  next
    case (Some r)
    then have r: "r \<in> set (entries (db w))" "r_id r = t" by (auto dest: find_row_Some)
    have "may_hear (db w) u t"
      if "(su_role v \<in> set STAFF_ROLES \<or> su_role v = RESTAURANT_OWNER_ROLE) \<and> su_restaurantId v = Some (r_restaurantId r) \<or>
       su_role v = CUSTOMER_ROLE \<and> r_userId r = Some (su_userId v)"
      using that r same unfolding may_hear_def by (auto simp: role_defs)
    with keep [OF w'] own_ok [OF w'] Some show ?thesis
      unfolding check_ticket_def by (auto split: if_splits)
  qed
  show ?thesis
  proof (cases "su_role v = ADMIN_ROLE \<or> (su_role v = CUSTOMER_ROLE \<and> su_ticketId v = Some t)")
    case True
    then have "may_hear (db w) u t" using same unfolding may_hear_def by auto
    with True show ?thesis by (auto simp: authorize_ticket_def wp_retE keep)
  next
    case False
    have "wp (catchE (bindE (findById queue_repo t) (\<lambda>ticket. retE (check_ticket v t ticket))) (\<lambda>_. retE (False, v)))
      (\<lambda>(b, v') w'. db w' = db w \<and> (b \<longrightarrow> may_hear (db w) u t) \<and> socket_ok u (s\<lparr> ss_user := Some v' \<rparr>) w')
      (\<lambda>_ _. False) w"
      unfolding wp_catchE findById_def wp_bindE wp_run wp_retE
      by (rule wp_db_readI) (use checked keep in \<open>auto simp: case_prod_beta\<close>)
    with False keep show ?thesis by (auto simp: authorize_ticket_def wp_retE)
  qed
qed

text \<open>Every event of the client keeps the session in the rooms its user may join.\<close>

lemma wp_on_event:
  assumes ok: "socket_ok u s w"
  shows "wp (on_event bnd ev s) (\<lambda>(s', _) w'. db w' = db w \<and> socket_ok u s' w') (\<lambda>_ _. False) w"
proof -
  obtain v where v: "ss_user s = Some v" using ok by (auto simp: socket_ok_def)
  have sync: "wp (retE p) (\<lambda>(s', _) w'. db w' = db w \<and> socket_ok u s' w') (\<lambda>_ _. False) w"
    if "socket_ok u (fst p) w" for p :: "socket \<times> room_ack"
    using that by (simp add: wp_retE case_prod_beta)
  have ticket: "wp (join_ticket bnd v d s) (\<lambda>(s', _) w'. db w' = db w \<and> socket_ok u s' w') (\<lambda>_ _. False) w" for d
  proof (cases "id_given d")
    case None
    then show ?thesis
      using sync [of "emitError s TICKET_ID_REQUIRED True"] ok
      by (simp add: join_ticket_def socket_ok_emit)
  next
    case (Some t)
    have "may_join (db w') u (room_ticket t)" if "may_hear (db w') u t" for w'
      using that by (auto simp: may_join_def)
    then show ?thesis
      using Some
      by (auto simp: join_ticket_def wp_bindE wp_retE Let_def case_prod_beta socket_ok_emit
          intro!: wp_mono [OF wp_authorize_ticket [OF ok v]] socket_ok_fields(3))
  qed
  show ?thesis
    using v ok sync_handlers_ok [OF ok v] ticket [unfolded case_prod_beta]
    by (cases ev) (simp_all add: on_event_def wp_bindE wp_retE case_prod_beta)
qed

lemma session_step_ok:
  assumes "socket_ok u s w" and "session_step bnd ev (s, w) = (s', w')"
  shows "socket_ok u s' w'"
proof (cases ev)
  case (Client c)
  from wp_on_event [OF assms(1), of bnd c] assms(2) show ?thesis
    by (auto simp: Client wp_def split: prod.splits sum.splits)
next
  case (Service req)
  have "ok_step w w'" using staysD [OF handle_ok_step, of w req] assms(2) by (simp add: Service)
  moreover have "db_inv (db w)" using assms(1) by (simp add: socket_ok_def)
  ultimately show ?thesis
    using assms by (auto simp: Service ok_step_def db_step_def intro: socket_ok_evolves)
qed

lemma session_ok:
  "socket_ok u s w \<Longrightarrow> session bnd evs s w = (s', w') \<Longrightarrow> socket_ok u s' w'"
proof (induction evs arbitrary: s w)
  case Nil
  then show ?case by (simp add: session_def)
next
  case (Cons ev evs)
  obtain s1 w1 where "session_step bnd ev (s, w) = (s1, w1)" by fastforce
  moreover from this have "socket_ok u s1 w1" using Cons.prems(1) by (rule session_step_ok [rotated])
  ultimately show ?case using Cons.IH Cons.prems(2) by (simp add: session_def)
qed

end
