(* ===== verification/Tenancy.thy ===== *)
theory Tenancy
  imports Service
begin

text \<open>
  Restaurants are apart from each other: a request for one restaurant leaves the rows of the others
  exactly as they are, with none added, whatever it answers and whatever fails on the way. The outcomes of the use cases already
  say so of the rows they replace; \<open>keeps_others\<close> states it of a computation.
\<close>

text \<open>The restaurant a request is for; the status query of a customer is for none.\<close>

fun restaurant_of :: "request \<Rightarrow> uuid option" where
  "restaurant_of (RegisterReq i) = Some (ri_restaurantId i)"
| "restaurant_of (AssignReq i) = Some (ai_restaurantId i)"
| "restaurant_of (SeatReq i) = Some (sp_restaurantId i)"
| "restaurant_of (SkipReq i) = Some (sk_restaurantId i)"
| "restaurant_of (CancelReq i) = Some (ci_restaurantId i)"
| "restaurant_of (RingReq i) = Some (rg_restaurantId i)"
| "restaurant_of (EtaReq r n) = Some r"
| "restaurant_of (StaffQueueReq i) = Some (sq_restaurantId i)"
| "restaurant_of (ActiveQueueReq r u) = Some r"
| "restaurant_of (CustomerStatusReq u) = None"

lemma registered_spares: "registered i out d d' \<Longrightarrow> spares (ri_restaurantId i) d d'"
  by (auto simp: registered_def spares_def)

text \<open>Every outcome of a use case spares the other restaurants.\<close>

lemma outcome_spares:
  assumes inv: "db_inv d"
  shows "tables_assigned ai ao d d' \<Longrightarrow> spares (ai_restaurantId ai) d d'"
    and "party_seated si so d d' \<Longrightarrow> spares (sp_restaurantId si) d d'"
    and "party_skipped ki ko d d' \<Longrightarrow> spares (sk_restaurantId ki) d d'"
    and "entry_cancelled ci co d d' \<Longrightarrow> spares (ci_restaurantId ci) d d'"
    and "rung gi go d d' \<Longrightarrow> spares (rg_restaurantId gi) d d'"
proof -
  show "tables_assigned ai ao d d' \<Longrightarrow> spares (ai_restaurantId ai) d d'"
    unfolding tables_assigned_def seats_def seat_Inr
    by (elim exE conjE bexE, erule spares_replaced [OF inv]; simp)
  show "party_seated si so d d' \<Longrightarrow> spares (sp_restaurantId si) d d'"
    unfolding party_seated_def by (elim exE conjE) (rule spares_left)
  show "party_skipped ki ko d d' \<Longrightarrow> spares (sk_restaurantId ki) d d'"
    unfolding party_skipped_def by (elim exE conjE) (rule spares_left)
  show "entry_cancelled ci co d d' \<Longrightarrow> spares (ci_restaurantId ci) d d'"
    unfolding entry_cancelled_def by (elim exE conjE) (rule spares_left)
  show "spares (rg_restaurantId gi) d d'" if rung: "rung gi go d d'"
  proof -
    obtain r e t1 t2 where r: "r \<in> set (entries d)" "r_restaurantId r = rg_restaurantId gi"
        and e: "ring t1 t2 (toDomain r) = Inr e" and rep: "row_replaced e d d'"
      using rung unfolding rung_def by blast
    from e have "r_id r = e_id e" "e_restaurantId e = rg_restaurantId gi" using r by (auto simp: ring_Inr)
    with r rep show ?thesis by (intro spares_replaced [OF inv])
  qed
qed

definition keeps_others :: "uuid \<Rightarrow> 'a io \<Rightarrow> world \<Rightarrow> bool" where
  "keeps_others rid m w \<longleftrightarrow> spares rid (db w) (db (snd (m w)))"

lemma keeps_othersI:
  "wp m (\<lambda>_ w'. spares rid (db w) (db w')) (\<lambda>_ w'. spares rid (db w) (db w')) w \<Longrightarrow> keeps_others rid m w"
  by (simp add: keeps_others_def wp_snd)

lemma use_cases_spare:
  assumes inv: "db_inv (db w)"
  shows "keeps_others (ri_restaurantId a) (register_execute a) w"
    "keeps_others (ai_restaurantId b) (assign_execute b) w"
    "keeps_others (sp_restaurantId c) (seat_execute c) w"
    "keeps_others (sk_restaurantId e) (skip_execute e) w"
    "keeps_others (ci_restaurantId f) (cancel_execute f) w"
    "keeps_others (rg_restaurantId g) (ring_execute g) w"
  by (rule keeps_othersI, rule wp_register [OF inv] wp_assign [OF inv] wp_seat [OF inv] wp_skip [OF inv]
        wp_cancel [OF inv] wp_ring [OF inv];
      use registered_spares outcome_spares [OF inv] in \<open>auto simp: seat_rejected_def cancel_rejected_def skip_rejected_def party_shifted_def Let_def\<close>)+

lemma keeps_others_same: "stays same_db m \<Longrightarrow> keeps_others rid m w"
  by (simp add: keeps_others_def stays_def same_db_def)

lemma keeps_others_answer: "keeps_others rid m w \<Longrightarrow> keeps_others rid (answer f m) w"
  by (auto simp: keeps_others_def answer_def bindE_def retE_def split: prod.splits sum.splits)

lemma handle_spares:
  "db_inv (db w) \<Longrightarrow> restaurant_of req = Some rid \<Longrightarrow> keeps_others rid (handle req) w"
  by (cases req)
    (auto simp: keeps_others_answer use_cases_spare keeps_others_same eta_query_same_db query_use_cases_same_db)

end
