(* ===== verification/Http.thy ===== *)
theory Http
  imports Responses Sockets Tenancy
begin

text \<open>
  The HTTP side: routes (\<open>routes.constants.ts\<close>, \<open>http/routes\<close>), the identity taken from the gateway
  headers (\<open>staff.auth.middleware.ts\<close>, \<open>customer.auth.middleware.ts\<close>, \<open>internal-s2s-auth.middleware.ts\<close>),
  validation, the controllers and the chain of \<open>app.ts\<close>. Express matches the path and hands over the
  parameters of the pattern; zod parses what a schema describes and the verifier of service tokens
  judges the headers: they are the parameters collected in \<open>framework\<close>. The validators' own code
  (duplicate tables, blank to null, the reading of a reason) is given to zod as the source does.
\<close>

subsection \<open>Routes\<close>

datatype route =
    StaffQueueRoute
  | WalkInRoute
  | AssignRoute
  | RingRoute
  | SeatRoute
  | SkipRoute
  | CancelRoute
  | EtaRoute
  | JoinRoute
  | ActiveQueueRoute
  | CustomerStatusRoute

fun route_path :: "route \<Rightarrow> string" where
  "route_path StaffQueueRoute = ''/restaurants/:restaurantId''"
| "route_path WalkInRoute = ''/restaurants/:restaurantId/queue/walk-in''"
| "route_path AssignRoute = ''/queue/:queueEntryId/assign-tables''"
| "route_path RingRoute = ''/queue/:queueEntryId/ring''"
| "route_path SeatRoute = ''/restaurants/:restaurantId/queue/:queueEntryId/seat''"
| "route_path SkipRoute = ''/restaurants/:restaurantId/queue/:queueEntryId/skip''"
| "route_path CancelRoute = ''/restaurants/:restaurantId/queue/:queueEntryId/cancel''"
| "route_path EtaRoute = ''/:restaurantId/eta''"
| "route_path JoinRoute = ''/restaurants/:restaurantId/queue/join''"
| "route_path ActiveQueueRoute = ''/restaurants/:restaurantId/queue/users/:userId/active''"
| "route_path CustomerStatusRoute = ''/queue-entries/:userId/status''"

definition staff_routes :: "route list" where
  "staff_routes = [StaffQueueRoute, WalkInRoute, AssignRoute, RingRoute, SeatRoute, SkipRoute, CancelRoute]"

text \<open>The names of the parameters of a pattern: its segments that begin with a colon.\<close>

fun segments :: "string \<Rightarrow> string list" where
  "segments [] = [[]]"
| "segments (c # s) =
     (if c = CHR ''/'' then [] # segments s
      else (case segments s of [] \<Rightarrow> [[c]] | x # xs \<Rightarrow> (c # x) # xs))"

definition param_names :: "string \<Rightarrow> string list" where
  "param_names path = map tl (filter (\<lambda>s. s \<noteq> [] \<and> hd s = CHR '':'') (segments path))"

subsection \<open>Requests and the parameters of the framework\<close>

text \<open>
  A request as Express hands it over: the matched route, if any, whether the path is below the base
  of the internal routes, the parameters of the pattern, the query and the body. A body that is not JSON is an error of \<open>express.json\<close>.
\<close>

record 'j http_request =
  hq_route :: "route option"
  hq_internal :: bool
  hq_method :: string
  hq_path :: string
  hq_headers :: "string \<Rightarrow> js_value"
  hq_values :: "string \<Rightarrow> string"
  hq_query :: 'j
  hq_body :: "string + 'j"

definition req_params :: "'j http_request \<Rightarrow> route \<Rightarrow> string \<Rightarrow> js_value" where
  "req_params req r name =
     (if name \<in> set (param_names (route_path r)) then JStr (hq_values req name) else JUndef)"

record http_user =
  hu_userId :: string
  hu_restaurantId :: "string option"
  hu_email :: string
  hu_role :: string

record join_body =
  jb_guestName :: string
  jb_guestPhone :: string
  jb_partySize :: int
  jb_specialNotes :: "string option"
  jb_fid :: "string option"

record walk_in_body =
  wb_guestName :: string
  wb_guestPhone :: string
  wb_partySize :: int
  wb_specialNotes :: "string option"

record ws_info =
  wi_path :: string
  wi_room :: string
  wi_ticketId :: uuid
  wi_subscribeEvent :: string
  wi_updateEvent :: string

datatype http_data = Plain response | Joined register_output ws_info

type_synonym params = "string \<Rightarrow> js_value"

datatype s2s_verdict = S2SPass | S2SAnswer "http_data http_response" | S2SError js_error

text \<open>The schemas of zod, one per use, and the verifier of service tokens with the configured keys.\<close>

record 'j framework =
  fw_production :: bool
  fw_orderPublicKey :: "string option"
  fw_restaurantPublicKey :: "string option"
  fw_verify :: "string \<Rightarrow> (string \<times> string) list \<Rightarrow> params \<Rightarrow> s2s_verdict"
  zs_restaurant :: "route \<Rightarrow> params \<Rightarrow> issue list + uuid"
  zs_entry :: "route \<Rightarrow> params \<Rightarrow> issue list + uuid"
  zs_restaurant_entry :: "route \<Rightarrow> params \<Rightarrow> issue list + uuid \<times> uuid"
  zs_restaurant_user :: "params \<Rightarrow> issue list + uuid \<times> uuid"
  zs_user :: "params \<Rightarrow> issue list + uuid"
  zs_eta_query :: "'j \<Rightarrow> issue list + int"
  zs_staff_query :: "'j \<Rightarrow> issue list + queue_status option \<times> party_size_bucket option"
  zs_join_body :: "(string option \<Rightarrow> string option) \<Rightarrow> 'j \<Rightarrow> issue list + join_body"
  zs_walk_in_body :: "'j \<Rightarrow> issue list + walk_in_body"
  zs_assign_body :: "(assign_item list \<Rightarrow> issue list) \<Rightarrow> 'j \<Rightarrow> issue list + assign_item list"
  zs_seat_body :: "(uuid list \<Rightarrow> issue list) \<Rightarrow> 'j \<Rightarrow> issue list + uuid list"
  zs_skip_body :: "'j \<Rightarrow> issue list + string \<times> int option"
  zs_cancel_body :: "(js_value \<Rightarrow> js_value) \<Rightarrow> 'j \<Rightarrow> issue list + cancel_reason \<times> string option"

subsection \<open>What the validators themselves do\<close>

text \<open>\<open>(val) => (val && val.length > 0 ? val : null)\<close>\<close>

definition blank_to_null :: "string option \<Rightarrow> string option" where
  "blank_to_null val = (if truthy val then val else None)"

text \<open>The reason of a cancellation, before it is looked up in the enumeration.\<close>

definition read_reason :: "js_value \<Rightarrow> js_value" where
  "read_reason val = (case val of JStr s \<Rightarrow> JStr (js_upper (js_trim s)) | _ \<Rightarrow> val)"

definition DUPLICATE_TABLE_ID :: string where
  "DUPLICATE_TABLE_ID = ''Duplicate tableId detected in assignment list''"

text \<open>The loop over the tables with the set of those seen, and the index of the current one.\<close>

fun duplicate_issues :: "(nat \<Rightarrow> path_key list) \<Rightarrow> uuid list \<Rightarrow> nat \<Rightarrow> uuid list \<Rightarrow> issue list" where
  "duplicate_issues path seen index [] = []"
| "duplicate_issues path seen index (t # ts) =
     (if t \<in> set seen then [\<lparr> is_path = path index, is_message = DUPLICATE_TABLE_ID \<rparr>] else []) @
     duplicate_issues path (t # seen) (Suc index) ts"

definition refine_assign :: "assign_item list \<Rightarrow> issue list" where
  "refine_assign tables =
     duplicate_issues (\<lambda>i. [PKey ''tables'', PIdx i, PKey ''tableId'']) [] 0 (map at_tableId tables)"

definition refine_seat :: "uuid list \<Rightarrow> issue list" where
  "refine_seat tableIds = duplicate_issues (\<lambda>i. [PKey ''tableIds'', PIdx i]) [] 0 tableIds"

subsection \<open>Identity\<close>

definition ERR_UNAUTHORIZED :: string where "ERR_UNAUTHORIZED = ''UNAUTHORIZED''"
definition ERR_FORBIDDEN :: string where "ERR_FORBIDDEN = ''FORBIDDEN''"
definition GATEWAY_UNAUTHORIZED :: string where "GATEWAY_UNAUTHORIZED = ''Unauthorized request from gateway''"
definition STAFF_FORBIDDEN :: string where "STAFF_FORBIDDEN = ''Forbidden: Staff access required''"
definition RESTAURANT_ACCESS_FORBIDDEN :: string where
  "RESTAURANT_ACCESS_FORBIDDEN = ''Forbidden: You do not have access to this restaurant''"

definition staffAuthMiddleware :: "params \<Rightarrow> params \<Rightarrow> 'd http_response + http_user" where
  "staffAuthMiddleware headers ps =
     (let userId = getHeaderValue (headers ''x-user-id'');
          role = getHeaderValue (headers ''x-user-role'');
          normalizedRole = map_option js_lower role;
          email = getHeaderValue (headers ''x-user-email'');
          restaurantId = map_option js_trim (getHeaderValue (headers ''x-restaurant-id''));
          paramRestaurantId = map_option js_trim (getHeaderValue (ps ''restaurantId''))
      in if \<not> truthy userId then Inl (api_error GATEWAY_UNAUTHORIZED ERR_UNAUTHORIZED HTTP_UNAUTHORIZED)
         else if normalizedRole \<noteq> Some ''staff'' \<and> normalizedRole \<noteq> Some ''admin''
         then Inl (api_error STAFF_FORBIDDEN ERR_FORBIDDEN HTTP_FORBIDDEN)
         else if \<not> truthy restaurantId \<or> (truthy paramRestaurantId \<and> paramRestaurantId \<noteq> restaurantId)
         then Inl (api_error RESTAURANT_ACCESS_FORBIDDEN ERR_FORBIDDEN HTTP_FORBIDDEN)
         else Inr \<lparr> hu_userId = the userId, hu_restaurantId = Some (or_else restaurantId []),
                    hu_email = or_else email [], hu_role = or_else role ''STAFF'' \<rparr>)"

definition customerAuthMiddleware :: "params \<Rightarrow> 'd http_response + http_user" where
  "customerAuthMiddleware headers =
     (let userId = getHeaderValue (headers ''x-user-id'');
          role = or_else (getHeaderValue (headers ''x-user-role'')) ''CUSTOMER'';
          email = or_else (getHeaderValue (headers ''x-user-email'')) []
      in if \<not> truthy userId then Inl (api_error GATEWAY_UNAUTHORIZED ERR_UNAUTHORIZED HTTP_UNAUTHORIZED)
         else Inr \<lparr> hu_userId = the userId, hu_restaurantId = None, hu_email = email, hu_role = js_upper role \<rparr>)"

definition truthy_value :: "js_value \<Rightarrow> bool" where
  "truthy_value v = (case v of JStr s \<Rightarrow> s \<noteq> [] | JArr _ \<Rightarrow> True | JUndef \<Rightarrow> False)"

text \<open>The service calling may name itself in either of two headers; the keys are the configured ones.\<close>

definition s2s_keys :: "'j framework \<Rightarrow> (string \<times> string) list" where
  "s2s_keys fw =
     (if truthy (fw_orderPublicKey fw) then [(''order-service'', the (fw_orderPublicKey fw))] else []) @
     (if truthy (fw_restaurantPublicKey fw) then [(''restaurant-service'', the (fw_restaurantPublicKey fw))] else [])"

definition internalS2SAuth :: "'j framework \<Rightarrow> params \<Rightarrow> s2s_verdict" where
  "internalS2SAuth fw headers =
     (let headers' =
        (if \<not> truthy_value (headers ''x-caller-service'') \<and> truthy_value (headers ''x-consumer-service'')
         then headers(''x-caller-service'' := headers ''x-consumer-service'') else headers)
      in fw_verify fw ''queue-service'' (s2s_keys fw) headers')"

subsection \<open>Controllers\<close>

text \<open>
  What the middlewares put on the request: \<open>req.user\<close>, \<open>req.userId\<close> and the parsed parameters. An
  optional chain over a missing user is \<open>None\<close>; \<open>??\<close> on two identifiers takes the first present.
\<close>

definition user_id_of :: "http_user option \<Rightarrow> string option \<Rightarrow> string option" where
  "user_id_of user userId = (case map_option hu_userId user of Some i \<Rightarrow> Some i | None \<Rightarrow> userId)"

definition require_user :: "string option \<Rightarrow> (string \<Rightarrow> 'a io) \<Rightarrow> 'a io" where
  "require_user staffUserId k =
     (if \<not> truthy staffUserId then throwE (DomainError (UnauthorizedError GATEWAY_UNAUTHORIZED))
      else k (the staffUserId))"

definition succeed :: "string \<Rightarrow> nat \<Rightarrow> ('a \<Rightarrow> http_data) \<Rightarrow> 'a io \<Rightarrow> http_data http_response io" where
  "succeed message statusCode f m = bindE m (\<lambda>result. retE (sendSuccessResponse (f result) message statusCode))"

definition getEta_handler :: "uuid \<Rightarrow> int \<Rightarrow> http_data http_response io" where
  "getEta_handler restaurantId partySize =
     succeed ''Estimated wait time retrieved successfully'' HTTP_OK (\<lambda>x. Plain (EtaRes x))
       (eta_execute_query restaurantId partySize)"

definition WS_GATEWAY_PATH :: string where "WS_GATEWAY_PATH = ''/ws/queues''"
definition EV_JOIN_TICKET :: string where "EV_JOIN_TICKET = ''join:ticket''"

definition websocket_info :: "register_output \<Rightarrow> ws_info" where
  "websocket_info result =
     \<lparr> wi_path = WS_GATEWAY_PATH, wi_room = room_ticket (ro_queueEntryId result),
       wi_ticketId = ro_queueEntryId result, wi_subscribeEvent = EV_JOIN_TICKET,
       wi_updateEvent = EV_POSITION_UPDATED \<rparr>"

definition join_input :: "http_user option \<Rightarrow> string option \<Rightarrow> uuid \<Rightarrow> join_body \<Rightarrow> register_input" where
  "join_input user userId restaurantId b =
     \<lparr> ri_restaurantId = restaurantId, ri_userId = user_id_of user userId, ri_staffUserId = None,
       ri_guestName = jb_guestName b, ri_guestPhone = jb_guestPhone b, ri_partySize = jb_partySize b,
       ri_specialNotes = jb_specialNotes b, ri_fid = jb_fid b, ri_registrationType = Some ONLINE \<rparr>"

definition joinQueue_handler ::
  "http_user option \<Rightarrow> string option \<Rightarrow> uuid \<Rightarrow> join_body \<Rightarrow> http_data http_response io" where
  "joinQueue_handler user userId restaurantId b =
     succeed ''Joined restaurant queue successfully'' HTTP_CREATED (\<lambda>x. Joined x (websocket_info x))
       (register_execute (join_input user userId restaurantId b))"

definition getLiveQueue_handler ::
  "uuid \<Rightarrow> queue_status option \<Rightarrow> party_size_bucket option \<Rightarrow> http_data http_response io" where
  "getLiveQueue_handler restaurantId status bucket =
     succeed ''Restaurant queue retrieved successfully'' HTTP_OK (\<lambda>x. Plain (StaffQueueRes x))
       (staff_queue_execute \<lparr> sq_restaurantId = restaurantId, sq_status = status, sq_partySizeBucket = bucket \<rparr>)"

definition registerWalkIn_handler :: "http_user option \<Rightarrow> uuid \<Rightarrow> walk_in_body \<Rightarrow> http_data http_response io" where
  "registerWalkIn_handler user restaurantId b =
     require_user (map_option hu_userId user) (\<lambda>staffUserId.
     succeed ''Walk-in guest registered to queue successfully'' HTTP_CREATED (\<lambda>x. Plain (RegisterRes x))
       (register_execute
          \<lparr> ri_restaurantId = restaurantId, ri_userId = None, ri_staffUserId = Some staffUserId,
            ri_guestName = wb_guestName b, ri_guestPhone = wb_guestPhone b, ri_partySize = wb_partySize b,
            ri_specialNotes = wb_specialNotes b, ri_fid = None, ri_registrationType = Some WALK_IN \<rparr>))"

definition assignTables_handler :: "http_user option \<Rightarrow> uuid \<Rightarrow> assign_item list \<Rightarrow> http_data http_response io" where
  "assignTables_handler user queueEntryId tables =
     (let restaurantId = Option.bind user hu_restaurantId; staffUserId = map_option hu_userId user
      in if \<not> truthy restaurantId \<or> \<not> truthy staffUserId
         then throwE (DomainError (UnauthorizedError GATEWAY_UNAUTHORIZED))
         else succeed ''Table assigned successfully'' HTTP_OK (\<lambda>x. Plain (SeatedRes x))
           (assign_execute \<lparr> ai_restaurantId = the restaurantId, ai_queueEntryId = queueEntryId,
              ai_staffUserId = the staffUserId, ai_tables = tables \<rparr>))"

definition ringCustomer_handler :: "http_user option \<Rightarrow> uuid \<Rightarrow> http_data http_response io" where
  "ringCustomer_handler user queueEntryId =
     (let restaurantId = Option.bind user hu_restaurantId; staffUserId = map_option hu_userId user
      in if \<not> truthy restaurantId \<or> \<not> truthy staffUserId
         then throwE (DomainError (UnauthorizedError GATEWAY_UNAUTHORIZED))
         else succeed ''Customer notified and rung successfully'' HTTP_OK (\<lambda>x. Plain (RingRes x))
           (ring_execute \<lparr> rg_restaurantId = the restaurantId, rg_queueEntryId = queueEntryId,
              rg_staffUserId = the staffUserId \<rparr>))"

definition seatParty_handler ::
  "http_user option \<Rightarrow> string option \<Rightarrow> uuid \<times> uuid \<Rightarrow> uuid list \<Rightarrow> http_data http_response io" where
  "seatParty_handler user userId ids tableIds =
     require_user (user_id_of user userId) (\<lambda>staffUserId.
     succeed ''Party seated successfully'' HTTP_OK (\<lambda>x. Plain (SeatedRes x))
       (seat_execute \<lparr> sp_restaurantId = fst ids, sp_queueEntryId = snd ids, sp_staffUserId = staffUserId,
          sp_tableIds = tableIds \<rparr>))"

definition skipParty_handler ::
  "http_user option \<Rightarrow> string option \<Rightarrow> uuid \<times> uuid \<Rightarrow> string \<times> int option \<Rightarrow> http_data http_response io" where
  "skipParty_handler user userId ids b =
     require_user (user_id_of user userId) (\<lambda>staffUserId.
     succeed ''Party skipped successfully'' HTTP_OK (\<lambda>x. Plain (SkipRes x))
       (skip_execute \<lparr> sk_restaurantId = fst ids, sk_queueEntryId = snd ids, sk_staffUserId = staffUserId,
          sk_reason = fst b, sk_skipPositions = snd b \<rparr>))"

definition cancel_success :: "cancel_output \<Rightarrow> string" where
  "cancel_success result =
     (if co_status result = NO_SHOW then ''Queue entry marked as no-show successfully''
      else ''Queue entry cancelled successfully'')"

definition cancelQueueEntry_handler ::
  "http_user option \<Rightarrow> string option \<Rightarrow> uuid \<times> uuid \<Rightarrow> cancel_reason \<times> string option \<Rightarrow> http_data http_response io" where
  "cancelQueueEntry_handler user userId ids b =
     require_user (user_id_of user userId) (\<lambda>staffUserId.
     bindE (cancel_execute \<lparr> ci_restaurantId = fst ids, ci_queueEntryId = snd ids, ci_staffUserId = staffUserId,
          ci_reason = cancel_reason_string (fst b), ci_notes = snd b \<rparr>)
       (\<lambda>result. retE (sendSuccessResponse (Plain (CancelRes result)) (cancel_success result) HTTP_OK)))"

definition getActiveQueueByUser_handler :: "uuid \<times> uuid \<Rightarrow> http_data http_response io" where
  "getActiveQueueByUser_handler ids =
     succeed ''Active queue check completed successfully'' HTTP_OK (\<lambda>x. Plain (ActiveQueueRes x))
       (active_queue_execute (fst ids) (snd ids))"

definition getCustomerQueueStatus_handler :: "uuid \<Rightarrow> http_data http_response io" where
  "getCustomerQueueStatus_handler userId =
     succeed ''Customer queue status fetched successfully'' HTTP_OK (\<lambda>x. Plain (CustomerStatusRes x))
       (customer_status_execute userId)"

subsection \<open>The chain of a request\<close>

text \<open>A middleware answers, or the next one runs with what it passes on.\<close>

definition pass :: "http_data http_response + 'a \<Rightarrow> ('a \<Rightarrow> http_data http_response io) \<Rightarrow> http_data http_response io" where
  "pass m k = (case m of Inl reply \<Rightarrow> retE reply | Inr x \<Rightarrow> k x)"

definition pass_s2s :: "s2s_verdict \<Rightarrow> http_data http_response io \<Rightarrow> http_data http_response io" where
  "pass_s2s v k = (case v of S2SPass \<Rightarrow> k | S2SAnswer reply \<Rightarrow> retE reply | S2SError e \<Rightarrow> throwE e)"

definition staff_queue_chain :: "'j framework \<Rightarrow> 'j http_request \<Rightarrow> http_data http_response io" where
  "staff_queue_chain fw q =
     (let ps = req_params q StaffQueueRoute in
      pass (staffAuthMiddleware (hq_headers q) ps) (\<lambda>user.
      pass (validateRequestParams (zs_restaurant fw StaffQueueRoute ps)) (\<lambda>restaurantId.
      pass (validateRequestQuery (zs_staff_query fw (hq_query q))) (\<lambda>(status, bucket).
      getLiveQueue_handler restaurantId status bucket))))"

definition walk_in_chain :: "'j framework \<Rightarrow> 'j http_request \<Rightarrow> 'j \<Rightarrow> http_data http_response io" where
  "walk_in_chain fw q json =
     (let ps = req_params q WalkInRoute in
      pass (staffAuthMiddleware (hq_headers q) ps) (\<lambda>user.
      pass (validateRequestParams (zs_restaurant fw WalkInRoute ps)) (\<lambda>restaurantId.
      pass (validateRequestBody (zs_walk_in_body fw json)) (\<lambda>b.
      registerWalkIn_handler (Some user) restaurantId b))))"

definition assign_chain :: "'j framework \<Rightarrow> 'j http_request \<Rightarrow> 'j \<Rightarrow> http_data http_response io" where
  "assign_chain fw q json =
     (let ps = req_params q AssignRoute in
      pass (staffAuthMiddleware (hq_headers q) ps) (\<lambda>user.
      pass (validateRequestParams (zs_entry fw AssignRoute ps)) (\<lambda>queueEntryId.
      pass (validateRequestBody (zs_assign_body fw refine_assign json)) (\<lambda>tables.
      assignTables_handler (Some user) queueEntryId tables))))"

definition ring_chain :: "'j framework \<Rightarrow> 'j http_request \<Rightarrow> http_data http_response io" where
  "ring_chain fw q =
     (let ps = req_params q RingRoute in
      pass (staffAuthMiddleware (hq_headers q) ps) (\<lambda>user.
      pass (validateRequestParams (zs_entry fw RingRoute ps)) (\<lambda>queueEntryId.
      ringCustomer_handler (Some user) queueEntryId)))"

definition seat_chain :: "'j framework \<Rightarrow> 'j http_request \<Rightarrow> 'j \<Rightarrow> http_data http_response io" where
  "seat_chain fw q json =
     (let ps = req_params q SeatRoute in
      pass (staffAuthMiddleware (hq_headers q) ps) (\<lambda>user.
      pass (validateRequestParams (zs_restaurant_entry fw SeatRoute ps)) (\<lambda>ids.
      pass (validateRequestBody (zs_seat_body fw refine_seat json)) (\<lambda>tableIds.
      seatParty_handler (Some user) (Some (hu_userId user)) ids tableIds))))"

definition skip_chain :: "'j framework \<Rightarrow> 'j http_request \<Rightarrow> 'j \<Rightarrow> http_data http_response io" where
  "skip_chain fw q json =
     (let ps = req_params q SkipRoute in
      pass (staffAuthMiddleware (hq_headers q) ps) (\<lambda>user.
      pass (validateRequestParams (zs_restaurant_entry fw SkipRoute ps)) (\<lambda>ids.
      pass (validateRequestBody (zs_skip_body fw json)) (\<lambda>b.
      skipParty_handler (Some user) (Some (hu_userId user)) ids b))))"

definition cancel_chain :: "'j framework \<Rightarrow> 'j http_request \<Rightarrow> 'j \<Rightarrow> http_data http_response io" where
  "cancel_chain fw q json =
     (let ps = req_params q CancelRoute in
      pass (staffAuthMiddleware (hq_headers q) ps) (\<lambda>user.
      pass (validateRequestParams (zs_restaurant_entry fw CancelRoute ps)) (\<lambda>ids.
      pass (validateRequestBody (zs_cancel_body fw read_reason json)) (\<lambda>b.
      cancelQueueEntry_handler (Some user) (Some (hu_userId user)) ids b))))"

definition eta_chain :: "'j framework \<Rightarrow> 'j http_request \<Rightarrow> http_data http_response io" where
  "eta_chain fw q =
     (let ps = req_params q EtaRoute in
      pass (customerAuthMiddleware (hq_headers q)) (\<lambda>user.
      pass (validateRequestParams (zs_restaurant fw EtaRoute ps)) (\<lambda>restaurantId.
      pass (validateRequestQuery (zs_eta_query fw (hq_query q))) (\<lambda>partySize.
      getEta_handler restaurantId partySize))))"

definition join_chain :: "'j framework \<Rightarrow> 'j http_request \<Rightarrow> 'j \<Rightarrow> http_data http_response io" where
  "join_chain fw q json =
     (let ps = req_params q JoinRoute in
      pass (customerAuthMiddleware (hq_headers q)) (\<lambda>user.
      pass (validateRequestParams (zs_restaurant fw JoinRoute ps)) (\<lambda>restaurantId.
      pass (validateRequestBody (zs_join_body fw blank_to_null json)) (\<lambda>b.
      joinQueue_handler (Some user) (Some (hu_userId user)) restaurantId b))))"

definition active_queue_chain :: "'j framework \<Rightarrow> 'j http_request \<Rightarrow> http_data http_response io" where
  "active_queue_chain fw q =
     pass_s2s (internalS2SAuth fw (hq_headers q))
      (pass (validateRequestParams (zs_restaurant_user fw (req_params q ActiveQueueRoute))) (\<lambda>ids.
      getActiveQueueByUser_handler ids))"

definition customer_status_chain :: "'j framework \<Rightarrow> 'j http_request \<Rightarrow> http_data http_response io" where
  "customer_status_chain fw q =
     pass_s2s (internalS2SAuth fw (hq_headers q))
      (pass (validateRequestParams (zs_user fw (req_params q CustomerStatusRoute))) (\<lambda>userId.
      getCustomerQueueStatus_handler userId))"

lemmas chain_defs = staff_queue_chain_def walk_in_chain_def assign_chain_def ring_chain_def seat_chain_def skip_chain_def cancel_chain_def eta_chain_def join_chain_def active_queue_chain_def customer_status_chain_def

text \<open>The router: one chain for each route.\<close>

fun serve_route :: "'j framework \<Rightarrow> 'j http_request \<Rightarrow> 'j \<Rightarrow> route \<Rightarrow> http_data http_response io" where
  "serve_route fw q json StaffQueueRoute = staff_queue_chain fw q"
| "serve_route fw q json WalkInRoute = walk_in_chain fw q json"
| "serve_route fw q json AssignRoute = assign_chain fw q json"
| "serve_route fw q json RingRoute = ring_chain fw q"
| "serve_route fw q json SeatRoute = seat_chain fw q json"
| "serve_route fw q json SkipRoute = skip_chain fw q json"
| "serve_route fw q json CancelRoute = cancel_chain fw q json"
| "serve_route fw q json EtaRoute = eta_chain fw q"
| "serve_route fw q json JoinRoute = join_chain fw q json"
| "serve_route fw q json ActiveQueueRoute = active_queue_chain fw q"
| "serve_route fw q json CustomerStatusRoute = customer_status_chain fw q"

text \<open>An unknown path below the internal base is judged by the verifier all the same.\<close>

definition not_found :: "'j framework \<Rightarrow> 'j http_request \<Rightarrow> http_data http_response io" where
  "not_found fw q =
     (let last = bindE new_date (\<lambda>now. retE (notFoundMiddleware (hq_method q) (hq_path q) now))
      in if hq_internal q then pass_s2s (internalS2SAuth fw (hq_headers q)) last else last)"

text \<open>
  The application: the JSON parser, the router, the handler of unknown paths, and the error handler
  for whatever was thrown; nothing was sent then and the status of the response is still 200.
\<close>

definition http_app :: "'j framework \<Rightarrow> 'j http_request \<Rightarrow> http_data http_response io" where
  "http_app fw q =
     catchE
       (case hq_body q of
          Inl message \<Rightarrow> throwE (PlainError message)
        | Inr json \<Rightarrow>
            (case hq_route q of
               None \<Rightarrow> not_found fw q
             | Some r \<Rightarrow> serve_route fw q json r))
       (\<lambda>e. case errorMiddleware (fw_production fw) False 200 (Thrown e) of
              Some reply \<Rightarrow> retE reply
            | None \<Rightarrow> throwE e)"

definition http_serve :: "'j framework \<Rightarrow> 'j http_request list \<Rightarrow> world \<Rightarrow> world" where
  "http_serve fw qs w = foldl (\<lambda>w q. snd (http_app fw q w)) w qs"

end
