(* ===== verification/HttpRules.thy ===== *)
theory HttpRules
  imports Http
begin

text \<open>
  What the HTTP chain guarantees. \<open>http_frame\<close> carries a preorder on states through the middlewares,
  \<open>http_serves\<close> through every route, given that the use cases stay in it: interpreted on the steps of
  the database this gives the invariant of every HTTP run. With the contract of zod, staff stay in the
  restaurant of the gateway header and tables are distinct.
\<close>

subsection \<open>Frames of the chain\<close>

lemma stays_answer [simp]: "stays R (answer f m) \<longleftrightarrow> stays R m"
proof -
  have "snd (answer f m w) = snd (m w)" for w
    by (simp add: answer_def bindE_def retE_def split: prod.split sum.split)
  then show ?thesis by (simp add: stays_def)
qed

locale http_frame = effect_order R for R :: "world \<Rightarrow> world \<Rightarrow> bool" +
  assumes R_now: "stays R new_date"
begin

lemma stays_succeed [intro]: "stays R m \<Longrightarrow> stays R (succeed message st f m)"
  unfolding succeed_def by (intro stays_bindE stays_retE)

lemma stays_require [intro]: "(\<And>i. stays R (k i)) \<Longrightarrow> stays R (require_user u k)"
  by (simp add: require_user_def)

lemma stays_pass [intro]: "(\<And>x. m = Inr x \<Longrightarrow> stays R (k x)) \<Longrightarrow> stays R (pass m k)"
  by (simp add: pass_def split: sum.split)

lemma stays_pass_s2s [intro]: "stays R k \<Longrightarrow> stays R (pass_s2s v k)"
  by (simp add: pass_s2s_def split: s2s_verdict.split)

lemma stays_app:
  assumes "\<And>json r. hq_body q = Inr json \<Longrightarrow> hq_route q = Some r \<Longrightarrow> stays R (serve_route fw q json r)"
  shows "stays R (http_app fw q)"
proof -
  have "stays R (not_found fw q)"
    unfolding not_found_def Let_def by (intro stays_if stays_pass_s2s stays_bindE stays_retE R_now)
  then show ?thesis
    using assms unfolding http_app_def
    by (auto simp: errorMiddleware_def intro!: stays_catchE split: sum.split option.split)
qed

end

locale http_serves = http_frame +
  assumes R_handle: "stays R (handle req)"
begin

lemma stays_use_cases:
  "stays R (register_execute ri)" "stays R (assign_execute ai)" "stays R (seat_execute si)"
  "stays R (skip_execute ki)" "stays R (cancel_execute ci)" "stays R (ring_execute gi)"
  "stays R (eta_execute_query rid n)" "stays R (staff_queue_execute qi)" "stays R (active_queue_execute rid u)"
  "stays R (customer_status_execute u)"
  using R_handle [of "RegisterReq ri"] R_handle [of "AssignReq ai"] R_handle [of "SeatReq si"]
    R_handle [of "SkipReq ki"] R_handle [of "CancelReq ci"] R_handle [of "RingReq gi"]
    R_handle [of "EtaReq rid n"] R_handle [of "StaffQueueReq qi"] R_handle [of "ActiveQueueReq rid u"]
    R_handle [of "CustomerStatusReq u"]
  by simp_all

lemmas handler_defs = getEta_handler_def joinQueue_handler_def getLiveQueue_handler_def
  registerWalkIn_handler_def assignTables_handler_def ringCustomer_handler_def seatParty_handler_def
  skipParty_handler_def cancelQueueEntry_handler_def getActiveQueueByUser_handler_def
  getCustomerQueueStatus_handler_def

lemma stays_route: "stays R (serve_route fw q json r)"
  by (cases r)
    (auto simp: chain_defs handler_defs Let_def intro!: stays_pass stays_pass_s2s stays_succeed stays_require
      stays_bindE stays_if stays_use_cases split: prod.split)

lemma stays_http_app: "stays R (http_app fw q)"
  by (rule stays_app) (rule stays_route)

lemma stays_http_serve: "R w (http_serve fw qs w)"
proof (induction qs rule: rev_induct)
  case Nil
  show ?case by (simp add: http_serve_def R_refl)
next
  case (snoc q qs)
  have "R (http_serve fw qs w) (http_serve fw (qs @ [q]) w)"
    using stays_http_app [of fw q] by (simp add: http_serve_def stays_def)
  with snoc show ?case by (rule R_trans)
qed

end

interpretation http_steps: http_serves ok_step
  by unfold_locales (auto intro: handle_ok_step same_db_ok_step new_date_same_db)

definition http_after :: "env \<Rightarrow> 'j framework \<Rightarrow> 'j http_request list \<Rightarrow> world" where
  "http_after en fw qs = http_serve fw qs (start_world en)"

lemma http_after_inv: "db_inv (db (http_after en fw qs))"
  using http_steps.stays_http_serve [of "start_world en" fw qs]
  by (simp add: http_after_def ok_step_def db_step_def start_world_def)

subsection \<open>Staff stay in their restaurant\<close>

definition tenant_step :: "uuid \<Rightarrow> world \<Rightarrow> world \<Rightarrow> bool" where
  "tenant_step rid w w' \<longleftrightarrow> (db_inv (db w) \<longrightarrow> db_inv (db w') \<and> spares rid (db w) (db w'))"

lemma same_db_tenant_step: "stays same_db m \<Longrightarrow> stays (tenant_step rid) m"
  by (simp add: stays_def same_db_def tenant_step_def)

interpretation tenant: http_frame "tenant_step rid" for rid
  by unfold_locales
    (auto simp: tenant_step_def intro: spares_trans same_db_tenant_step [OF new_date_same_db])

lemma handle_tenant_step: "restaurant_of req = Some rid \<Longrightarrow> stays (tenant_step rid) (handle req)"
  using handle_spares handle_ok_step
  by (auto simp: stays_def tenant_step_def keeps_others_def ok_step_def db_step_def)

lemma use_cases_tenant_step:
  "ri_restaurantId a = rid \<Longrightarrow> stays (tenant_step rid) (register_execute a)"
  "ai_restaurantId b = rid \<Longrightarrow> stays (tenant_step rid) (assign_execute b)"
  "sp_restaurantId c = rid \<Longrightarrow> stays (tenant_step rid) (seat_execute c)"
  "sk_restaurantId e = rid \<Longrightarrow> stays (tenant_step rid) (skip_execute e)"
  "ci_restaurantId f = rid \<Longrightarrow> stays (tenant_step rid) (cancel_execute f)"
  "rg_restaurantId g = rid \<Longrightarrow> stays (tenant_step rid) (ring_execute g)"
  "stays (tenant_step rid) (staff_queue_execute i)"
  using handle_tenant_step [of "RegisterReq a"] handle_tenant_step [of "AssignReq b"]
    handle_tenant_step [of "SeatReq c"] handle_tenant_step [of "SkipReq e"]
    handle_tenant_step [of "CancelReq f"] handle_tenant_step [of "RingReq g"]
    same_db_tenant_step [OF query_use_cases_same_db(1)]
  by auto

text \<open>
  What zod documents: an identifier that passes the check for a UUID is the parameter as it was given,
  and has no space around it; a value that passes a refinement has no issue in it.
\<close>

definition zod_contract :: "'j framework \<Rightarrow> bool" where
  "zod_contract fw \<longleftrightarrow>
     (\<forall>r ps i. zs_restaurant fw r ps = Inr i \<longrightarrow> ps ''restaurantId'' = JStr i \<and> i \<noteq> [] \<and> js_trim i = i) \<and>
     (\<forall>r ps i j. zs_restaurant_entry fw r ps = Inr (i, j) \<longrightarrow>
        ps ''restaurantId'' = JStr i \<and> i \<noteq> [] \<and> js_trim i = i) \<and>
     (\<forall>refine json ts. zs_assign_body fw refine json = Inr ts \<longrightarrow> refine ts = []) \<and>
     (\<forall>refine json ts. zs_seat_body fw refine json = Inr ts \<longrightarrow> refine ts = [])"

lemma zod_contractD:
  assumes "zod_contract fw"
  shows "zs_restaurant fw r ps = Inr i \<Longrightarrow> ps ''restaurantId'' = JStr i \<and> i \<noteq> [] \<and> js_trim i = i"
    "zs_restaurant_entry fw r ps = Inr ij \<Longrightarrow>
       ps ''restaurantId'' = JStr (fst ij) \<and> fst ij \<noteq> [] \<and> js_trim (fst ij) = fst ij"
    "zs_assign_body fw refine json = Inr ts \<Longrightarrow> refine ts = []"
    "zs_seat_body fw refine' json = Inr us \<Longrightarrow> refine' us = []"
  using assms unfolding zod_contract_def by (auto, (metis prod.collapse)+)

text \<open>The restaurant the gateway vouches for.\<close>

definition gateway_restaurant :: "'j http_request \<Rightarrow> uuid" where
  "gateway_restaurant q = js_trim (nullish (getHeaderValue (hq_headers q ''x-restaurant-id'')) [])"

lemma staffAuth_Inr:
  assumes "staffAuthMiddleware (hq_headers q) ps = Inr u"
  shows "hu_restaurantId u = Some (gateway_restaurant q)" "gateway_restaurant q \<noteq> []"
    "ps ''restaurantId'' = JStr i \<Longrightarrow> i \<noteq> [] \<Longrightarrow> js_trim i = i \<Longrightarrow> i = gateway_restaurant q"
  using assms
  by (auto simp: staffAuthMiddleware_def Let_def gateway_restaurant_def getHeaderValue_def truthy_def or_else_def
      split: if_splits option.splits)

lemma validated [simp]:
  "validateRequestParams v = Inr x \<longleftrightarrow> v = Inr x" "validateRequestBody v = Inr x \<longleftrightarrow> v = Inr x"
  "validateRequestQuery v = Inr x \<longleftrightarrow> v = Inr x"
  by (auto simp: validateRequestParams_def validateRequestBody_def validateRequestQuery_def split: sum.splits)

lemma staff_route_tenant:
  assumes zod: "zod_contract fw" and r: "r \<in> set staff_routes"
  shows "stays (tenant_step (gateway_restaurant q)) (serve_route fw q json r)"
proof -
  let ?rid = "gateway_restaurant q"
  have same: "i = ?rid" if "staffAuthMiddleware (hq_headers q) ps = Inr u" "zs_restaurant fw r ps = Inr i" for ps u i
    using staffAuth_Inr(3) [OF that(1)] zod_contractD(1) [OF zod that(2)] by blast
  have same2: "fst ij = ?rid" if "staffAuthMiddleware (hq_headers q) ps = Inr u" "zs_restaurant_entry fw r ps = Inr ij" for ps u ij
    using staffAuth_Inr(3) [OF that(1)] zod_contractD(2) [OF zod that(2)] by blast
  have own: "the (hu_restaurantId u) = ?rid" if "staffAuthMiddleware (hq_headers q) ps = Inr u" for ps u
    by (simp add: staffAuth_Inr(1) [OF that])
  show ?thesis
    using r same same2 unfolding staff_routes_def
    by (auto simp: own chain_defs http_steps.handler_defs Let_def intro!: tenant.stays_pass tenant.stays_succeed tenant.stays_require
        tenant.stays_bindE tenant.stays_if use_cases_tenant_step split: prod.split)
qed

subsection \<open>Distinct tables\<close>

lemma duplicate_issues_Nil: "duplicate_issues path seen n ts = [] \<longleftrightarrow> distinct ts \<and> set ts \<inter> set seen = {}"
  by (induction path seen n ts rule: duplicate_issues.induct) auto

lemma refine_Nil: "refine_assign ts = [] \<longleftrightarrow> distinct (map at_tableId ts)" "refine_seat us = [] \<longleftrightarrow> distinct us"
  by (simp_all add: refine_assign_def refine_seat_def duplicate_issues_Nil)

lemma distinct_tables:
  assumes "zod_contract fw"
  shows "zs_assign_body fw refine_assign json = Inr ts \<Longrightarrow> distinct (map at_tableId ts)"
    "zs_seat_body fw refine_seat json = Inr us \<Longrightarrow> distinct us"
  using zod_contractD(3,4) [OF assms] refine_Nil by blast+

subsection \<open>Specifications through the chain\<close>

lemma wp_pass:
  "(\<And>reply. m = Inl reply \<Longrightarrow> Q reply w) \<Longrightarrow> (\<And>x. m = Inr x \<Longrightarrow> wp (k x) Q E w) \<Longrightarrow> wp (pass m k) Q E w"
  by (cases m) (simp_all add: pass_def wp_retE)

lemma wp_succeed: "wp m (\<lambda>x. Q (sendSuccessResponse (f x) message st)) E w \<Longrightarrow> wp (succeed message st f m) Q E w"
  by (simp add: succeed_def wp_bindE wp_retE)

lemma wp_http_app:
  assumes r: "hq_route q = Some r"
    and malformed: "\<And>message. hq_body q = Inl message \<Longrightarrow> Q (error_answer (fw_production fw) 200 (Thrown (PlainError message))) w"
    and served: "\<And>json. hq_body q = Inr json \<Longrightarrow>
      wp (serve_route fw q json r) Q (\<lambda>e. Q (error_answer (fw_production fw) 200 (Thrown e))) w"
  shows "wp (http_app fw q) Q (\<lambda>_ _. False) w"
  using assms
  by (cases "hq_body q") (simp_all add: http_app_def wp_catchE wp_throwE wp_retE errorMiddleware_def)

text \<open>The output of a seating in a reply, if it is one; no error answer is.\<close>

definition seated_reply :: "http_data http_response \<Rightarrow> seated_output option" where
  "seated_reply reply = (case hr_body reply of OkBody _ (Plain (SeatedRes out)) _ \<Rightarrow> Some out | _ \<Rightarrow> None)"

lemma seated_reply_errors [simp]:
  "seated_reply (api_error m c st) = None"
  "seated_reply (sendErrorResponse e m' st ds) = None"
  "seated_reply (error_answer production rs t) = None"
  by (auto simp: seated_reply_def api_error_def sendErrorResponse_def error_answer_def
      split: prod.split thrown.split js_error.split)

lemma seated_reply_ok [simp]: "seated_reply (sendSuccessResponse (Plain (SeatedRes out)) m st) = Some out"
  by (simp add: seated_reply_def sendSuccessResponse_def)

lemma seated_reply_middleware:
  "staffAuthMiddleware h ps = Inl reply \<Longrightarrow> seated_reply reply = None"
  "validateRequestParams v = Inl reply \<Longrightarrow> seated_reply reply = None"
  "validateRequestBody v = Inl reply \<Longrightarrow> seated_reply reply = None"
  by (auto simp: staffAuthMiddleware_def validateRequestParams_def validateRequestBody_def Let_def
      split: if_splits sum.splits)

end
