(* ===== verification/Healthy.thy ===== *)
theory Healthy
  imports Messages
begin

text \<open>
  The use cases are not only safe, they do something: where the database answers, Socket.IO does not
  throw and the circuits are closed, a request is refused for a reason of the domain only. \<open>healthy\<close> is
  that environment; Redis, the job queue, the broker and the predictions may still fail in it.
  \<open>reliable\<close> are the calls that return there whatever the database holds, and \<open>returns_bind\<close> takes
  what the specifications say of a first step to the second.
\<close>

definition healthy :: "env \<Rightarrow> bool" where
  "healthy en \<longleftrightarrow> (\<forall>t. db_fault en t = None \<and> socket_fault en t = None \<and> gate_at en t = Pass)"

definition returns :: "'a io \<Rightarrow> world \<Rightarrow> bool" where
  "returns m w \<longleftrightarrow> (case fst (m w) of Inl _ \<Rightarrow> False | Inr _ \<Rightarrow> True)"

definition reliable :: "'a io \<Rightarrow> bool" where
  "reliable m \<longleftrightarrow> (\<forall>w. healthy (ext w) \<longrightarrow> wp m (\<lambda>_ w'. ext w' = ext w) (\<lambda>_ _. False) w)"

lemma returns_wp: "returns m w \<longleftrightarrow> wp m (\<lambda>_ _. True) (\<lambda>_ _. False) w"
  by (simp add: returns_def wp_fst_snd)

lemma healthyD [simp]:
  "healthy en \<Longrightarrow> db_fault en t = None" "healthy en \<Longrightarrow> socket_fault en t = None"
  "healthy en \<Longrightarrow> gate_at en t = Pass"
  by (simp_all add: healthy_def)

text \<open>What the specification of the first step says is used for the second.\<close>

lemma returns_bind_iff:
  assumes "returns m w" and "wp m Q (\<lambda>_ _. True) w" and "stays same_env m"
    and "\<And>x w'. Q x w' \<Longrightarrow> same_env w w' \<Longrightarrow> returns (f x) w' \<longleftrightarrow> P"
  shows "returns (bindE m f) w \<longleftrightarrow> P"
proof -
  obtain x w' where run: "m w = (Inr x, w')"
    using assms(1) by (cases "m w"; cases "fst (m w)") (simp_all add: returns_def)
  moreover have "same_env w w'" using assms(3) run by (auto simp: stays_def dest: spec [of _ w])
  ultimately have "returns (f x) w' \<longleftrightarrow> P" using assms(2,4) by (simp add: wp_def)
  with run show ?thesis by (simp add: returns_def bindE_run)
qed

lemma returns_bind:
  assumes "returns m w" and "wp m Q (\<lambda>_ _. True) w" and "stays same_env m"
    and "\<And>x w'. Q x w' \<Longrightarrow> ext w' = ext w \<Longrightarrow> returns (f x) w'"
  shows "returns (bindE m f) w"
  using returns_bind_iff [OF assms(1-3), of f True] assms(4) by (simp add: same_env_def)

lemma returns_then:
  assumes "returns m w" and "stays same_env m" and "\<And>x w'. ext w' = ext w \<Longrightarrow> returns (f x) w'"
  shows "returns (bindE m f) w"
  using assms by (intro returns_bind [where Q = "\<lambda>_ _. True"]) simp_all

lemma returns_run: "m w = (Inr x, w') \<Longrightarrow> returns (bindE m f) w \<longleftrightarrow> returns (f x) w'"
  by (simp add: returns_def bindE_run)

lemma returns_load:
  "load_entry rid i w = (Inr e, w') \<Longrightarrow> returns (bindE (load_entry rid i) f) w \<longleftrightarrow> returns (f e) w'"
  by (rule returns_run)

lemma returns_simps [simp]:
  "returns (retE x) w" "\<not> returns (throwE e) w"
  "returns (bindE new_date f) w \<longleftrightarrow> returns (f (clock (ext w) (tick w))) (w\<lparr> tick := Suc (tick w) \<rparr>)"
  "returns (bindE random_id g) w \<longleftrightarrow> returns (g (random_uuid (ext w) (tick w))) (w\<lparr> tick := Suc (tick w) \<rparr>)"
  "returns (bindE (retE x) h) w \<longleftrightarrow> returns (h x) w"
  "\<not> returns (bindE (throwE e) k) w"
  by (simp_all add: returns_wp wp_simps new_date_def random_id_def)

lemma returns_Inr: "returns m w \<longleftrightarrow> (\<exists>x w'. m w = (Inr x, w'))"
  by (cases "m w"; cases "fst (m w)") (auto simp: returns_def)

subsection \<open>Reliable calls\<close>

lemma reliable_returns: "reliable m \<Longrightarrow> healthy (ext w) \<Longrightarrow> returns m w"
  unfolding reliable_def returns_wp by (blast intro: wp_mono)

lemma returns_then_reliable:
  assumes "stays same_env m" and "healthy (ext w)" and "\<And>x. reliable (f x)"
  shows "returns (bindE m f) w \<longleftrightarrow> returns m w"
proof
  assume "returns (bindE m f) w"
  then show "returns m w" by (auto simp: returns_Inr bindE_Inr)
next
  assume "returns m w"
  then show "returns (bindE m f) w"
    by (rule returns_then [OF _ assms(1)]) (use assms(2,3) in \<open>simp add: reliable_returns\<close>)
qed

lemma reliable_retE [intro]: "reliable (retE x)"
  by (simp add: reliable_def wp_simps)

lemma reliable_bindE [intro]:
  assumes m: "reliable m" and f: "\<And>x. reliable (f x)"
  shows "reliable (bindE m f)"
  unfolding reliable_def wp_bindE
proof (intro allI impI)
  fix w :: world assume h: "healthy (ext w)"
  show "wp m (\<lambda>x. wp (f x) (\<lambda>_ w'. ext w' = ext w) (\<lambda>_ _. False)) (\<lambda>_ _. False) w"
  proof (rule wp_mono [OF m [unfolded reliable_def, rule_format, OF h]])
    fix x and w' :: world
    assume "ext w' = ext w"
    with f [of x, unfolded reliable_def, rule_format, of w'] h
    show "wp (f x) (\<lambda>_ w'. ext w' = ext w) (\<lambda>_ _. False) w'" by simp
  qed
qed

lemma reliable_if [intro]: "reliable m \<Longrightarrow> reliable n \<Longrightarrow> reliable (if b then m else n)"
  by simp

lemma reliable_ask [intro]: "reliable (ask f)" "reliable new_date" "reliable (ask_cfg g)"
  by (simp_all add: reliable_def new_date_def wp_simps)

lemma reliable_quiet [intro]: "quiet m \<Longrightarrow> stays same_env m \<Longrightarrow> reliable m"
  unfolding reliable_def quiet_def stays_def same_env_def wp_fst_snd by (auto split: sum.splits)

lemma reliable_db_read [intro]: "reliable (qrun (db_read q))"
  by (simp add: reliable_def db_read_def wp_simps)

lemma reliable_or_now [intro]: "reliable (or_now v)"
  by (cases v) (auto simp: or_now_def)

lemma reliable_broadcast [intro]: "reliable (broadcastToRestaurant r ev x)" "reliable (sendToTicket i ev x)"
  by (simp_all add: reliable_def broadcastToRestaurant_def sendToTicket_def emit_def wp_simps)

lemmas reliable_rules = reliable_retE reliable_bindE reliable_if reliable_ask reliable_db_read
  reliable_or_now reliable_broadcast

lemma reliable_messages:
  "reliable (seat_messages si e)" "reliable (cancel_messages ci e)" "reliable (skip_messages ki e s p)"
  unfolding seat_messages_def cancel_messages_def skip_messages_def Let_def by (intro reliable_rules)+

subsection \<open>The repository\<close>

lemma load_entry_run:
  assumes "distinct (map r_id (entries (db w)))" and "r \<in> set (entries (db w))"
    and "r_id r = i" "r_restaurantId r = rid" and "healthy (ext w)"
  shows "load_entry rid i w = (Inr (toDomain r), w\<lparr> tick := Suc (tick w) \<rparr>)"
  using assms find_row_in [OF assms(1,2)]
  by (simp add: load_entry_def bindE_def findById_run retE_def)

lemma find_row_exists: "i \<in> r_id ` set (entries d) \<Longrightarrow> \<exists>r. find_row queue_repo i d = Some r"
  unfolding find_row_def by (auto simp: find_None_iff simp flip: not_None_eq)

lemma returns_updateStatus:
  assumes "healthy (ext w)" and "e_id (us_queueEntry p) \<in> r_id ` set (entries (db w))"
  shows "returns (updateStatusWithHistory p) w"
  using assms(1) find_row_exists [OF assms(2)]
  by (auto simp: returns_wp updateStatusWithHistory_def wp_simps new_date_def tx_update_status_def Let_def
      modify_row_def)

lemma returns_save:
  assumes "healthy (ext w)" and "e_id e \<in> r_id ` set (entries (db w))"
  shows "returns (save queue_repo e) w"
  using assms(1) find_row_exists [OF assms(2)]
  by (auto simp: returns_wp save_def Let_def wp_simps modify_row_def)

lemma modify_row_ids:
  "modify_row queue_repo i (apply_position u t) d = Inr (x, d') \<Longrightarrow> map r_id (entries d') = map r_id (entries d)"
  by (erule modify_row_Inr) (simp add: map_rows_def at_id_def comp_def apply_position_def Let_def
      cong: if_cong split: option.split)

lemma tx_positions_returns:
  "(\<forall>(u, t) \<in> set us. pu_id u \<in> r_id ` set (entries d)) \<Longrightarrow> \<exists>d'. tx_positions us d = Inr d'"
proof (induction us arbitrary: d)
  case Nil
  then show ?case by simp
next
  case (Cons ut us)
  obtain u t where ut: "ut = (u, t)" by (cases ut)
  with Cons.prems find_row_exists [of "pu_id u" d] obtain x d1
    where m: "modify_row queue_repo (pu_id u) (apply_position u t) d = Inr (x, d1)"
    by (auto simp: modify_row_def)
  have "r_id ` set (entries d1) = r_id ` set (entries d)"
    using modify_row_ids [OF m] by (metis list.set_map)
  with Cons ut m show ?case by simp
qed

lemma returns_batchUpdatePositions:
  assumes "healthy (ext w)" and "\<forall>u \<in> set us. pu_id u \<in> r_id ` set (entries (db w))"
  shows "returns (batchUpdatePositions us) w"
proof -
  have "wp (mapE (\<lambda>u. bindE new_date (\<lambda>t. retE (u, t))) us)
      (\<lambda>timed w'. map fst timed = us \<and> db w' = db w \<and> ext w' = ext w) (\<lambda>_ _. False) w"
    by (rule wp_mapE [where I = "\<lambda>done rest w'. map fst done @ rest = us \<and> db w' = db w \<and> ext w' = ext w" and zs = "[]"])
      (auto simp: wp_simps new_date_def)
  then have "wp (mapE (\<lambda>u. bindE new_date (\<lambda>t. retE (u, t))) us) (\<lambda>timed.
      wp (db_run (\<lambda>d. map_sum (\<lambda>e. e) (\<lambda>d'. ((), d')) (tx_positions timed d))) (\<lambda>_ _. True) (\<lambda>_ _. False))
      (\<lambda>_ _. False) w"
  proof (rule wp_mono)
    fix timed :: "(position_update \<times> millis) list" and w' :: world
    assume w': "map fst timed = us \<and> db w' = db w \<and> ext w' = ext w"
    then have "\<forall>(u, t) \<in> set timed. pu_id u \<in> r_id ` set (entries (db w'))" using assms(2) by force
    from tx_positions_returns [OF this] w' assms(1)
    show "wp (db_run (\<lambda>d. map_sum (\<lambda>e. e) (\<lambda>d'. ((), d')) (tx_positions timed d))) (\<lambda>_ _. True) (\<lambda>_ _. False) w'"
      by (auto simp: wp_simps)
  qed simp
  then show ?thesis by (simp add: returns_wp batchUpdatePositions_def wp_simps)
qed

subsection \<open>Recalculating\<close>

lemma reliable_predict_all:
  "reliable (mapE (\<lambda>item. predictEta rid (in_peopleAhead item) (e_partySize (in_entry item))) xs)"
  by (rule reliable_quiet) (auto intro: same_env.stays_mapE same_env.st_predictEta)

lemma reliable_notices:
  "reliable (save_live_deltas rid ds)" "reliable (notify_tickets rid ds)" "reliable (notify_restaurant rid ds)"
proof -
  show "reliable (save_live_deltas rid ds)"
    unfolding save_live_deltas_def
    by (rule reliable_quiet; intro quiet_mapE quiet_guarded same_env.stays_mapE same_env.frame_rules quiet_same_db quiet_saveLiveEntry)
  show "reliable (notify_tickets rid ds)"
    unfolding notify_tickets_def
    by (rule reliable_quiet; intro quiet_mapE quiet_guarded same_env.stays_mapE same_env.frame_rules broadcast_same_db)
  show "reliable (notify_restaurant rid ds)"
    unfolding notify_restaurant_def
    by (rule reliable_quiet; intro quiet_guarded same_env.frame_rules broadcast_same_db)
qed

lemma delta_ids:
  assumes "dl \<in> set (deltas_of (entry_inputs 0 0 (map toDomain (active_rows rid d))) etas)"
  shows "pd_id dl \<in> r_id ` set (entries d)"
proof -
  from assms obtain i eta where "i < length (active_rows rid d)"
    and "delta_of (entry_inputs 0 0 (map toDomain (active_rows rid d)) ! i, eta) = Some dl"
    by (auto simp: deltas_of_def set_map_filter set_zip)
  then have "pd_id dl = r_id (active_rows rid d ! i)" and "active_rows rid d ! i \<in> set (active_rows rid d)"
    by (auto simp: entry_inputs_nth dest!: delta_of_Some)
  then show ?thesis by (auto simp: set_active_rows)
qed

lemma returns_recalculate:
  assumes h: "healthy (ext w)"
  shows "returns (recalculate predictEta rid) w"
  unfolding recalculate_def
proof (rule returns_bind [where Q = "\<lambda>es w'. es = map toDomain (active_rows rid (db w)) \<and> db w' = db w"])
  show "returns (findActiveEntries rid) w"
    using h by (simp add: findActiveEntries_def returns_wp wp_simps db_read_def)
  show "wp (findActiveEntries rid) (\<lambda>es w'. es = map toDomain (active_rows rid (db w)) \<and> db w' = db w) (\<lambda>_ _. True) w"
    by (rule wp_findActiveEntries) simp_all
  show "stays same_env (findActiveEntries rid)" by (rule same_env.frame_rules)
  fix es and w1 :: world
  assume es: "es = map toDomain (active_rows rid (db w)) \<and> db w1 = db w" and e1: "ext w1 = ext w"
  let ?rest = "\<lambda>etas. let deltas = deltas_of (entry_inputs 0 0 es) etas
       in if deltas = [] then retE \<lparr> affectedCount = 0, updatedEntryIds = [] \<rparr>
          else
            bindE (batchUpdatePositions (map delta_update deltas)) (\<lambda>_.
            bindE (save_live_deltas rid deltas) (\<lambda>_.
            bindE (notify_tickets rid deltas) (\<lambda>_.
            bindE (notify_restaurant rid deltas) (\<lambda>_.
            retE \<lparr> affectedCount = length deltas, updatedEntryIds = map pd_id deltas \<rparr>))))"
  have "returns (bindE (mapE (\<lambda>item. predictEta rid (in_peopleAhead item) (e_partySize (in_entry item)))
         (entry_inputs 0 0 es)) ?rest) w1"
  proof (rule returns_bind [where Q = "\<lambda>_ w'. db w' = db w"])
    show "returns (mapE (\<lambda>item. predictEta rid (in_peopleAhead item) (e_partySize (in_entry item)))
         (entry_inputs 0 0 es)) w1"
      by (rule reliable_returns [OF reliable_predict_all]) (simp add: e1 h)
    show "wp (mapE (\<lambda>item. predictEta rid (in_peopleAhead item) (e_partySize (in_entry item)))
         (entry_inputs 0 0 es)) (\<lambda>_ w'. db w' = db w) (\<lambda>_ _. True) w1"
      by (rule ml_eta.wp_predict_all) (use es in simp)
    show "stays same_env (mapE (\<lambda>item. predictEta rid (in_peopleAhead item) (e_partySize (in_entry item)))
         (entry_inputs 0 0 es))"
      by (intro same_env.stays_mapE same_env.frame_rules)
    fix etas and w2 :: world
    assume w2: "db w2 = db w" "ext w2 = ext w1"
    show "returns (?rest etas) w2"
    proof (cases "deltas_of (entry_inputs 0 0 es) etas = []")
      case True
      then show ?thesis by (simp add: Let_def reliable_returns [OF reliable_retE] w2 e1 h)
    next
      case False
      have batch: "returns (bindE (batchUpdatePositions (map delta_update (deltas_of (entry_inputs 0 0 es) etas))) k) w2"
        if "\<And>x. reliable (k x)" for k :: "unit \<Rightarrow> recalculation_result io"
      proof (rule returns_then)
        show "returns (batchUpdatePositions (map delta_update (deltas_of (entry_inputs 0 0 es) etas))) w2"
          by (rule returns_batchUpdatePositions) (use w2 e1 h es delta_ids in \<open>auto simp: delta_update_def\<close>)
      qed (use that w2 e1 h in \<open>auto intro: same_env.frame_rules reliable_returns\<close>)
      show ?thesis
        unfolding Let_def if_not_P [OF False] by (rule batch) (intro reliable_rules reliable_notices)
    qed
  qed
  then show "returns (if es = [] then retE \<lparr> affectedCount = 0, updatedEntryIds = [] \<rparr>
      else bindE (mapE (\<lambda>item. predictEta rid (in_peopleAhead item) (e_partySize (in_entry item)))
         (entry_inputs 0 0 es)) ?rest) w1"
    using e1 h by (simp add: reliable_returns [OF reliable_retE])
qed

lemma returns_refresh_queue: "healthy (ext w) \<Longrightarrow> returns (refresh_queue rid i) w"
  unfolding refresh_queue_def
  by (rule returns_then)
    (auto intro: reliable_returns reliable_quiet returns_recalculate same_env.frame_rules)

end
