(* ===== verification/Progress.thy ===== *)
theory Progress
  imports Healthy
begin

text \<open>
  In a healthy environment each use case returns exactly when the domain allows it: cancelling and
  skipping whenever the entry waits at the restaurant, ringing when it waits and came online, seating
  when the restaurant service grants the tables, registration when nobody with the phone number or
  the account waits already.
\<close>

definition waits :: "uuid \<Rightarrow> uuid \<Rightarrow> database \<Rightarrow> bool" where
  "waits rid i d \<longleftrightarrow>
     list_ex (\<lambda>r. r_id r = i \<and> r_restaurantId r = rid \<and> r_status r = WAITING) (entries d)"

lemma waitsE:
  assumes "waits rid i d"
  obtains r where "r \<in> set (entries d)" "r_id r = i" "r_restaurantId r = rid" "r_status r = WAITING"
  using assms by (auto simp: waits_def list_ex_iff)

lemma waits_id: "waits rid i d \<Longrightarrow> i \<in> r_id ` set (entries d)"
  by (auto simp: waits_def list_ex_iff)

lemma waitsI:
  "r \<in> set (entries d) \<Longrightarrow> r_id r = i \<Longrightarrow> r_restaurantId r = rid \<Longrightarrow> r_status r = WAITING \<Longrightarrow> waits rid i d"
  by (auto simp: waits_def list_ex_iff)

text \<open>The end of a staff use case: a recalculation, then messages.\<close>

lemma returns_tail:
  assumes "healthy (ext w)" and "\<And>x. reliable (k x)"
  shows "returns (bindE (refresh_queue rid i) k) w" "returns (bindE (recalculate predictEta rid) k) w"
  by (rule returns_then; use assms in \<open>simp add: returns_refresh_queue returns_recalculate same_env.frame_rules
      reliable_returns\<close>)+

subsection \<open>Cancelling\<close>

lemma returns_release_assignments:
  assumes "healthy (ext w)" and "active_assignments (ci_queueEntryId input) (db w) = []"
  shows "returns (release_assignments input e) w"
  using assms by (simp add: release_assignments_def returns_wp wp_simps findActiveTableAssignments_def db_read_def)

lemma cancel_returns:
  assumes inv: "db_inv (db w)" and h: "healthy (ext w)"
    and waits: "waits (ci_restaurantId input) (ci_queueEntryId input) (db w)"
  shows "returns (cancel_execute input) w"
proof -
  from waits obtain r where r: "r \<in> set (entries (db w))" "r_id r = ci_queueEntryId input"
    "r_restaurantId r = ci_restaurantId input" "r_status r = WAITING" by (rule waitsE)
  define e where "e = (\<lambda>t1 t2. (toDomain r)\<lparr> e_status := cancel_target (ci_reason input),
      e_cancelledAt := Some t1, e_position := None, e_updatedAt := t2 \<rparr>)"
  have run: "cancel (cancel_target (ci_reason input)) t1 t2 (toDomain r) = Inr (e t1 t2)" for t1 t2
    using r(4) by (simp add: cancel_Inr e_def)
  have core: "returns (bindE (release_assignments input (e t1 t2)) (\<lambda>_.
      bindE (updateStatusWithHistory (cancel_params input (r_status r) (e t1 t2))) (\<lambda>persisted.
      bindE (refresh_queue (ci_restaurantId input) (ci_queueEntryId input)) (\<lambda>_.
      cancel_messages input persisted)))) w'" if w': "db w' = db w" "ext w' = ext w" for t1 t2 w'
  proof (rule returns_bind [where Q = "\<lambda>_ w''. db w'' = db w"])
    have none: "active_assignments (ci_queueEntryId input) (db w') = []"
      using waiting_no_assignments [OF inv r(1,4)] r(2) w' by simp
    show "returns (release_assignments input (e t1 t2)) w'"
      by (rule returns_release_assignments) (use w' h none in simp_all)
    show "wp (release_assignments input (e t1 t2)) (\<lambda>_ w''. db w'' = db w) (\<lambda>_ _. True) w'"
      by (rule wp_release_assignments [OF none]) (use w' in simp_all)
    fix x :: unit and w2 :: world
    assume w2: "db w2 = db w" "ext w2 = ext w'"
    show "returns (bindE (updateStatusWithHistory (cancel_params input (r_status r) (e t1 t2))) (\<lambda>persisted.
        bindE (refresh_queue (ci_restaurantId input) (ci_queueEntryId input)) (\<lambda>_.
        cancel_messages input persisted))) w2"
    proof (rule returns_then)
      show "returns (updateStatusWithHistory (cancel_params input (r_status r) (e t1 t2))) w2"
        by (rule returns_updateStatus) (use w2 w' h r waits_id [OF waits] in \<open>simp_all add: cancel_params_def e_def\<close>)
    qed (use w2 w' h in \<open>auto intro: returns_tail reliable_messages same_env.frame_rules\<close>)
  qed (rule same_env.st_release)
  show ?thesis
    using load_entry_run [OF db_invD(5) [OF inv] r(1-3) h]
    by (simp add: cancel_execute_unfold Let_def returns_run run core)
qed

subsection \<open>Skipping\<close>

lemma skip_leave_returns:
  assumes h: "healthy (ext w)" and waits: "waits (sk_restaurantId input) (sk_queueEntryId input) (db w)"
    and r: "r_id r = sk_queueEntryId input" "r_status r = WAITING"
  shows "returns (skip_leave input (toDomain r)) w"
proof -
  define e where "e = (\<lambda>t. (toDomain r)\<lparr> e_status := SKIPPED, e_position := None, e_updatedAt := t \<rparr>)"
  have run: "skip t (toDomain r) = Inr (e t)" for t using r(2) by (simp add: skip_Inr e_def)
  have "returns (bindE (updateStatusWithHistory (skip_params input (r_status r) (e t) (sk_reason input))) (\<lambda>persisted.
      bindE (refresh_queue (sk_restaurantId input) (sk_queueEntryId input)) (\<lambda>_.
      skip_messages input persisted (sk_reason input) None))) (w\<lparr> tick := n \<rparr>)" for t n
  proof (rule returns_then)
    show "returns (updateStatusWithHistory (skip_params input (r_status r) (e t) (sk_reason input))) (w\<lparr> tick := n \<rparr>)"
      by (rule returns_updateStatus) (use h r waits_id [OF waits] in \<open>simp_all add: skip_params_def e_def\<close>)
  qed (use h in \<open>auto intro: returns_tail reliable_messages same_env.frame_rules\<close>)
  then show ?thesis by (simp add: skip_leave_def run)
qed

lemma tx_positions_ids: "tx_positions us d = Inr d' \<Longrightarrow> map r_id (entries d') = map r_id (entries d)"
proof (induction us d rule: tx_positions.induct)
  case (2 u t us d)
  then obtain x d1 where "modify_row queue_repo (pu_id u) (apply_position u t) d = Inr (x, d1)"
    and "tx_positions us d1 = Inr d'"
    by (auto split: sum.splits)
  with 2(1) [of "(x, d1)"] modify_row_ids show ?case by fastforce
qed simp

lemma skip_shift_returns:
  assumes h: "healthy (ext w)" and waits: "waits (sk_restaurantId input) (sk_queueEntryId input) (db w)"
    and r: "r_id r = sk_queueEntryId input" "r_status r = WAITING"
    and i: "i < length (active_rows rid (db w))"
  shows "returns (skip_shift input (toDomain r) n (map toDomain (active_rows rid (db w))) i) w"
proof -
  let ?es = "map toDomain (active_rows rid (db w))"
  define tgt where "tgt = skip_target i n (length ?es)"
  define us where "us = index_updates (move_item i tgt ?es)"
  define e where "e = (\<lambda>t. updatePosition t (int tgt + 1) None (toDomain r))"
  have "set (map pu_id us) = set (map e_id ?es)"
    using mset_eq_setD [OF mset_move_item [of i ?es tgt]] i unfolding us_def ids_index_updates by (simp add: image_image)
  then have ids: "\<forall>u \<in> set us. pu_id u \<in> r_id ` set (entries (db w))"
    by (auto simp: set_active_rows)
  have id: "e_id (e t) = sk_queueEntryId input" for t using r by (simp add: e_def updatePosition_eq)
  have "returns (bindE (batchUpdatePositions us) (\<lambda>_.
      bindE (updateStatusWithHistory (skip_params input (r_status r) (e t) reason)) (\<lambda>_.
      bindE (recalculate predictEta (sk_restaurantId input)) (\<lambda>_.
      skip_messages input (e t) reason p)))) (w\<lparr> tick := k \<rparr>)" for t k reason p
  proof (rule returns_bind [where Q = "\<lambda>_ w'. map r_id (entries (db w')) = map r_id (entries (db w))"])
    show "returns (batchUpdatePositions us) (w\<lparr> tick := k \<rparr>)"
      by (rule returns_batchUpdatePositions) (use h ids in simp_all)
    show "wp (batchUpdatePositions us) (\<lambda>_ w'. map r_id (entries (db w')) = map r_id (entries (db w))) (\<lambda>_ _. True)
        (w\<lparr> tick := k \<rparr>)"
      by (rule wp_batchUpdatePositions) (auto dest: tx_positions_ids)
    fix x :: unit and w1 :: world
    assume w1: "map r_id (entries (db w1)) = map r_id (entries (db w))" "ext w1 = ext (w\<lparr> tick := k \<rparr>)"
    then have "r_id ` set (entries (db w1)) = r_id ` set (entries (db w))" by (metis list.set_map)
    with waits_id [OF waits] have in1: "sk_queueEntryId input \<in> r_id ` set (entries (db w1))" by simp
    show "returns (bindE (updateStatusWithHistory (skip_params input (r_status r) (e t) reason)) (\<lambda>_.
      bindE (recalculate predictEta (sk_restaurantId input)) (\<lambda>_.
      skip_messages input (e t) reason p))) w1"
    proof (rule returns_then)
      show "returns (updateStatusWithHistory (skip_params input (r_status r) (e t) reason)) w1"
        by (rule returns_updateStatus) (use w1 h in1 id in \<open>simp_all add: skip_params_def\<close>)
    qed (use w1 h in \<open>auto intro: returns_tail reliable_messages same_env.frame_rules\<close>)
  qed (rule same_env.frame_rules)
  then show ?thesis by (simp add: skip_shift_def Let_def e_def us_def tgt_def)
qed

lemma skip_returns:
  assumes inv: "db_inv (db w)" and h: "healthy (ext w)"
    and waits: "waits (sk_restaurantId input) (sk_queueEntryId input) (db w)"
  shows "returns (skip_execute input) w"
proof -
  let ?rid = "sk_restaurantId input" and ?i = "sk_queueEntryId input"
  from waits obtain r where r: "r \<in> set (entries (db w))" "r_id r = ?i" "r_restaurantId r = ?rid" "r_status r = WAITING"
    by (rule waitsE)
  have leave: "returns (skip_leave input (toDomain r)) (w\<lparr> tick := k \<rparr>)" for k
    by (rule skip_leave_returns) (use r h waits in simp_all)
  have shift: "returns (bindE (findActiveEntries ?rid) (\<lambda>es. case find_index (\<lambda>e. e_id e = ?i) es of
        Some i \<Rightarrow> skip_shift input (toDomain r) n es i | None \<Rightarrow> skip_leave input (toDomain r))) (w\<lparr> tick := k \<rparr>)" for n k
  proof (rule returns_bind [where Q = "\<lambda>es w'. es = map toDomain (active_rows ?rid (db w)) \<and> db w' = db w"])
    show "returns (findActiveEntries ?rid) (w\<lparr> tick := k \<rparr>)"
      using h by (simp add: findActiveEntries_def returns_wp wp_simps db_read_def)
    show "wp (findActiveEntries ?rid) (\<lambda>es w'. es = map toDomain (active_rows ?rid (db w)) \<and> db w' = db w)
        (\<lambda>_ _. True) (w\<lparr> tick := k \<rparr>)"
      by (rule wp_findActiveEntries) simp_all
    fix es and w1 :: world
    assume w1: "es = map toDomain (active_rows ?rid (db w)) \<and> db w1 = db w" "ext w1 = ext (w\<lparr> tick := k \<rparr>)"
    show "returns (case find_index (\<lambda>e. e_id e = ?i) es of
        Some i \<Rightarrow> skip_shift input (toDomain r) n es i | None \<Rightarrow> skip_leave input (toDomain r)) w1"
    proof (cases "find_index (\<lambda>e. e_id e = ?i) es")
      case None
      have "returns (skip_leave input (toDomain r)) w1"
        by (rule skip_leave_returns) (use r h waits w1 in simp_all)
      with None show ?thesis by simp
    next
      case (Some i)
      then have "i < length (active_rows ?rid (db w1))" using find_index_Some [OF Some] w1 by simp
      then have "returns (skip_shift input (toDomain r) n (map toDomain (active_rows ?rid (db w1))) i) w1"
        by (intro skip_shift_returns) (use r h waits w1 in simp_all)
      with Some w1 show ?thesis by simp
    qed
  qed (rule same_env.frame_rules)
  show ?thesis
    using load_entry_run [OF db_invD(5) [OF inv] r(1-3) h] r(4)
    by (simp add: skip_execute_unfold Let_def returns_run leave shift split: option.split)
qed

subsection \<open>Ringing\<close>

lemma ring_loaded_returns:
  assumes h: "healthy (ext w)" and e: "e_id e \<in> r_id ` set (entries (db w))"
    and can: "e_status e = WAITING" "e_registrationType e = ONLINE"
  shows "returns (ring_loaded input e) w"
proof -
  define e' where "e' = (\<lambda>t1 t2. e\<lparr> e_ringCount := e_ringCount e + 1, e_lastRingedAt := Some t1, e_updatedAt := t2 \<rparr>)"
  have run: "ring t1 t2 e = Inr (e' t1 t2)" for t1 t2
    using can by (simp add: ring_Inr e'_def)
  have dispatch: "reliable (dispatch_notification x l)" for x l
    by (rule reliable_quiet [OF dispatch_quiet], unfold dispatch_notification_def addJob_def)
      (intro same_env.stays_rules same_env.st_attempt same_env.R_jobs)
  have called: "reliable (called_message x l)" for x l
    by (rule reliable_quiet [OF called_quiet], unfold called_message_def) (intro same_env.frame_rules)
  have core: "returns (bindE (save queue_repo (e' t1 t2)) (\<lambda>_. k)) (w\<lparr> tick := n \<rparr>)" if "reliable k"
    for t1 t2 n and k :: "ring_output io"
  proof (rule returns_then)
    show "returns (save queue_repo (e' t1 t2)) (w\<lparr> tick := n \<rparr>)"
      by (rule returns_save) (use h e in \<open>simp_all add: e'_def\<close>)
  qed (use that h in \<open>auto intro: same_env.frame_rules reliable_returns\<close>)
  show ?thesis
    by (simp add: ring_loaded_def Let_def run) (intro core reliable_rules dispatch called)
qed

lemma ring_returns:
  assumes inv: "db_inv (db w)" and h: "healthy (ext w)"
    and r: "r \<in> set (entries (db w))" "r_id r = rg_queueEntryId input" "r_restaurantId r = rg_restaurantId input"
      "r_status r = WAITING" "r_registrationType r = ONLINE"
  shows "returns (ring_execute input) w"
  using load_entry_run [OF db_invD(5) [OF inv] r(1-3) h] ring_loaded_returns [of "w\<lparr> tick := Suc (tick w) \<rparr>" "toDomain r" input] r h
  by (simp add: ring_execute_def returns_run image_iff) metis

subsection \<open>Exactly when\<close>

text \<open>A use case that returned had its precondition, by its specification.\<close>

lemma returns_only_if: "wp m (\<lambda>_ _. P) (\<lambda>_ _. True) w \<Longrightarrow> returns m w \<Longrightarrow> P"
  by (auto simp: returns_Inr wp_def)

lemma cancels_waits: "cancels input d e \<Longrightarrow> waits (ci_restaurantId input) (ci_queueEntryId input) d"
  unfolding cancels_def by (elim bexE exE conjE) (rule waitsI)

lemma skips_waits: "skips input d e \<Longrightarrow> waits (sk_restaurantId input) (sk_queueEntryId input) d"
  unfolding skips_def skip_Inr toDomain_fields by (elim bexE exE conjE) (rule waitsI)

lemma entry_cancelled_waits:
  "entry_cancelled input out d d' \<Longrightarrow> waits (ci_restaurantId input) (ci_queueEntryId input) d"
  unfolding entry_cancelled_def by (elim exE conjE) (rule cancels_waits)

lemma queued_waits:
  assumes "i < length (queue_ids rid d)" and "queue_ids rid d ! i = x"
  shows "waits rid x d"
proof -
  have "active_rows rid d ! i \<in> set (active_rows rid d)" using assms(1) by (simp add: queue_ids_def)
  with assms show ?thesis
    by (intro waitsI [of "active_rows rid d ! i"]) (simp_all add: set_active_rows waiting_at_def queue_ids_def)
qed

lemma skip_outcome_waits:
  "party_skipped input out d d' \<or> party_shifted input out d d' \<Longrightarrow>
   waits (sk_restaurantId input) (sk_queueEntryId input) d"
  unfolding party_skipped_def party_shifted_def Let_def
  by (elim disjE exE conjE) (erule skips_waits, rule queued_waits)

lemma rung_online:
  "rung input out d d' \<Longrightarrow> list_ex (\<lambda>r. r_id r = rg_queueEntryId input \<and> r_restaurantId r = rg_restaurantId input \<and>
     r_status r = WAITING \<and> r_registrationType r = ONLINE) (entries d)"
  unfolding rung_def list_ex_iff by (elim bexE exE conjE) (intro bexI conjI)

lemma staff_returns_iff:
  assumes inv: "db_inv (db w)" and h: "healthy (ext w)"
  shows "returns (cancel_execute ci) w \<longleftrightarrow> waits (ci_restaurantId ci) (ci_queueEntryId ci) (db w)"
    and "returns (skip_execute ki) w \<longleftrightarrow> waits (sk_restaurantId ki) (sk_queueEntryId ki) (db w)"
    and "returns (ring_execute gi) w \<longleftrightarrow>
      list_ex (\<lambda>r. r_id r = rg_queueEntryId gi \<and> r_restaurantId r = rg_restaurantId gi \<and>
        r_status r = WAITING \<and> r_registrationType r = ONLINE) (entries (db w))"
proof -
  have "wp (cancel_execute ci) (\<lambda>_ _. waits (ci_restaurantId ci) (ci_queueEntryId ci) (db w)) (\<lambda>_ _. True) w"
    by (rule wp_cancel [OF inv], erule entry_cancelled_waits, rule TrueI)
  with cancel_returns [OF inv h]
  show "returns (cancel_execute ci) w \<longleftrightarrow> waits (ci_restaurantId ci) (ci_queueEntryId ci) (db w)"
    by (blast dest: returns_only_if)
  have "wp (skip_execute ki) (\<lambda>_ _. waits (sk_restaurantId ki) (sk_queueEntryId ki) (db w)) (\<lambda>_ _. True) w"
    by (rule wp_skip [OF inv], erule skip_outcome_waits, rule TrueI)
  with skip_returns [OF inv h]
  show "returns (skip_execute ki) w \<longleftrightarrow> waits (sk_restaurantId ki) (sk_queueEntryId ki) (db w)"
    by (blast dest: returns_only_if)
  let ?P = "list_ex (\<lambda>r. r_id r = rg_queueEntryId gi \<and> r_restaurantId r = rg_restaurantId gi \<and>
        r_status r = WAITING \<and> r_registrationType r = ONLINE) (entries (db w))"
  have "wp (ring_execute gi) (\<lambda>_ _. ?P) (\<lambda>_ _. True) w"
    by (rule wp_ring [OF inv], erule rung_online, rule TrueI)
  moreover have "?P \<Longrightarrow> returns (ring_execute gi) w"
    unfolding list_ex_iff by (elim bexE conjE) (rule ring_returns [OF inv h])
  ultimately show "returns (ring_execute gi) w \<longleftrightarrow> ?P" by (blast dest: returns_only_if)
qed

end
