(* ===== verification/Admission.thy ===== *)
theory Admission
  imports Progress
begin

text \<open>
  The use cases that depend on the restaurant service and on new identifiers: seating and assigning
  return for every waiting entry when the service grants the tables, registration when it admits the
  party and nobody waits already. \<open>fresh_ids\<close> is what the service takes for granted of a random UUID.
\<close>

definition fresh_ids :: "world \<Rightarrow> bool" where
  "fresh_ids w \<longleftrightarrow> inj_on (random_uuid (ext w)) {tick w..} \<and>
     (\<forall>t \<ge> tick w. random_uuid (ext w) t \<notin> ta_id ` set (assigns (db w)) \<union> r_id ` set (entries (db w)))"

definition grants :: "env \<Rightarrow> bool" where
  "grants en \<longleftrightarrow> (\<forall>t r ts. case http_assign en t r ts of
     Inr (Some v) \<Rightarrow> env_success v = Some True | _ \<Rightarrow> False)"

fun status_admits :: "http_failure + status_result envelope option \<Rightarrow> bool" where
  "status_admits (Inr (Some v)) \<longleftrightarrow> env_success v = Some True \<and>
     (case env_data v of
        Some st \<Rightarrow> \<not> rs_isBlocked st \<and> rs_isSubscriptionActive st \<and> rs_subscriptionPlanCode st = Some ''QUEUE_PRO''
      | None \<Rightarrow> False)"
| "status_admits _ \<longleftrightarrow> False"

fun tables_taken :: "http_failure + availability_result envelope option \<Rightarrow> bool" where
  "tables_taken (Inr (Some v)) \<longleftrightarrow> env_success v = Some True \<and>
     (case env_data v of
        Some a \<Rightarrow> av_isOpen a \<and> av_acceptsQueue a \<and> \<not> av_isTableAvailable a
      | None \<Rightarrow> False)"
| "tables_taken _ \<longleftrightarrow> False"

definition admits :: "env \<Rightarrow> uuid \<Rightarrow> int \<Rightarrow> bool" where
  "admits en rid n \<longleftrightarrow> (\<forall>t. status_admits (http_status en t rid) \<and>
     (cfg_useMock (cfg en) \<or> tables_taken (http_availability en t rid n)))"

subsection \<open>Seating\<close>

lemma fresh_ids_later:
  "fresh_ids w \<Longrightarrow> db w' = db w \<Longrightarrow> same_env w w' \<Longrightarrow> fresh_ids w'"
  unfolding fresh_ids_def same_env_def by (auto intro: inj_on_subset)

lemma returns_assignTables:
  assumes "healthy (ext w)" and "grants (ext w)"
  shows "returns (assignTables r ts) w"
proof -
  obtain v where "http_assign (ext w) (Suc (tick w)) r ts = Inr (Some v)" "env_success v = Some True"
    using assms(2) [unfolded grants_def, rule_format, of "Suc (tick w)" r ts]
    by (auto split: sum.splits option.splits)
  with assms(1) show ?thesis
    by (simp add: returns_def assignTables_def executeWithBreaker_def breaker_execute_def catchE_def bindE_def
        ask_def http_def log_upstream_def check_envelope_def retE_def)
qed

lemma assignment_rows_fresh:
  assumes fresh: "fresh_ids w"
  shows "wp (assignment_rows e ts cb) (\<lambda>rows w'. db w' = db w \<and> ext w' = ext w \<and> distinct (map ta_id rows) \<and>
      (\<forall>a \<in> set rows. ta_queueEntryId a = e_id e \<and> ta_id a \<notin> ta_id ` set (assigns (db w)))) (\<lambda>_ _. False) w"
  unfolding assignment_rows_def
proof (rule wp_mapE [where zs = "[]" and I = "\<lambda>rows rest w'. db w' = db w \<and> ext w' = ext w \<and> tick w \<le> tick w' \<and>
    distinct (map ta_id rows) \<and> (\<forall>a \<in> set rows. ta_queueEntryId a = e_id e \<and>
      (\<exists>t. tick w \<le> t \<and> t < tick w' \<and> ta_id a = random_uuid (ext w) t))"])
  fix rows :: "table_assignment list" and x :: uuid and rest :: "uuid list" and w1 :: world
  assume I: "db w1 = db w \<and> ext w1 = ext w \<and> tick w \<le> tick w1 \<and> distinct (map ta_id rows) \<and>
      (\<forall>a \<in> set rows. ta_queueEntryId a = e_id e \<and>
        (\<exists>t. tick w \<le> t \<and> t < tick w1 \<and> ta_id a = random_uuid (ext w) t))"
  have new: "random_uuid (ext w) (tick w1) \<noteq> ta_id a" if "a \<in> set rows" for a
  proof -
    from I that obtain t where t: "tick w \<le> t" "t < tick w1" "ta_id a = random_uuid (ext w) t" by auto
    with fresh I show ?thesis unfolding fresh_ids_def inj_on_def by (metis atLeast_iff less_irrefl)
  qed
  show "wp (bindE random_id (\<lambda>i. bindE (case e_seatedAt e of Some t \<Rightarrow> retE t | None \<Rightarrow> new_date) (\<lambda>assignedAt.
      retE \<lparr> ta_id = i, ta_queueEntryId = e_id e, ta_tableId = x, ta_assignedBy = cb,
             ta_assignedAt = assignedAt, ta_releasedAt = None \<rparr>)))
      (\<lambda>y w'. db w' = db w \<and> ext w' = ext w \<and> tick w \<le> tick w' \<and> distinct (map ta_id (rows @ [y])) \<and>
        (\<forall>a \<in> set (rows @ [y]). ta_queueEntryId a = e_id e \<and>
          (\<exists>t. tick w \<le> t \<and> t < tick w' \<and> ta_id a = random_uuid (ext w) t))) (\<lambda>_ _. False) w1"
    using I new
    by (cases "e_seatedAt e") (fastforce simp: wp_simps random_id_def new_date_def less_Suc_eq)+
next
  fix rows and w1 :: world
  assume "db w1 = db w \<and> ext w1 = ext w \<and> tick w \<le> tick w1 \<and> distinct (map ta_id ([] @ rows)) \<and>
      (\<forall>a \<in> set ([] @ rows). ta_queueEntryId a = e_id e \<and>
        (\<exists>t. tick w \<le> t \<and> t < tick w1 \<and> ta_id a = random_uuid (ext w) t))"
  with fresh show "db w1 = db w \<and> ext w1 = ext w \<and> distinct (map ta_id rows) \<and>
      (\<forall>a \<in> set rows. ta_queueEntryId a = e_id e \<and> ta_id a \<notin> ta_id ` set (assigns (db w)))"
    unfolding fresh_ids_def by fastforce
qed simp

lemma returns_assignTablesWithHistory:
  assumes h: "healthy (ext w)" and inv: "db_inv (db w)" and fresh: "fresh_ids w"
    and id: "e_id e \<in> r_id ` set (entries (db w))"
  shows "returns (assignTablesWithHistory e ts cb prev) w"
proof -
  have "wp (assignment_rows e ts cb) (\<lambda>rows. wp (bindE new_date (\<lambda>t.
       bindE (db_run (tx_assign rows (toPersistence e) prev cb t)) (\<lambda>updated. retE (toDomain updated))))
       (\<lambda>_ _. True) (\<lambda>_ _. False)) (\<lambda>_ _. False) w"
  proof (rule wp_mono [OF assignment_rows_fresh [OF fresh]])
    fix rows :: "table_assignment list" and w1 :: world
    assume w1: "db w1 = db w \<and> ext w1 = ext w \<and> distinct (map ta_id rows) \<and>
      (\<forall>a \<in> set rows. ta_queueEntryId a = e_id e \<and> ta_id a \<notin> ta_id ` set (assigns (db w)))"
    obtain r where r: "find_row queue_repo (e_id e) (db w) = Some r" using find_row_exists [OF id] by auto
    have w1_db: "db w1 = db w" and own: "\<And>a. a \<in> set rows \<Longrightarrow> ta_queueEntryId a = e_id e" using w1 by simp_all
    have "set (map ta_id (assigns (db w))) \<inter> set (map ta_id rows) = {}"
    proof (rule equals0I)
      fix i assume "i \<in> set (map ta_id (assigns (db w))) \<inter> set (map ta_id rows)"
      then obtain a where "a \<in> set rows" "ta_id a \<in> ta_id ` set (assigns (db w))" by (elim IntE) (metis imageE list.set_map)
      with w1 show False by blast
    qed
    moreover have "distinct (map ta_id (assigns (db w)))" using db_invD(3) [OF inv] by (simp add: assigns_ok_def)
    moreover have "distinct (map ta_id rows)" using w1 by (elim conjE)
    ultimately have ids: "distinct (map ta_id (assigns (db w) @ rows))" unfolding map_append distinct_append by (intro conjI)
    have known: "\<not> list_ex (\<lambda>a. find_row queue_repo (ta_queueEntryId a) (db w) = None) rows"
      using own r by (auto simp: list_ex_iff)
    have ins: "insert_assignments rows (db w1) = Inr ((db w)\<lparr> assigns := assigns (db w) @ rows \<rparr>)"
      unfolding insert_assignments_def w1_db using ids known by (simp only: if_False simp_thms)
    have "find_row queue_repo (e_id e) ((db w)\<lparr> assigns := assigns (db w) @ rows \<rparr>) = Some r"
      using r by (simp add: find_row_def)
    with ins w1 h show "wp (bindE new_date (\<lambda>t.
        bindE (db_run (tx_assign rows (toPersistence e) prev cb t)) (\<lambda>updated. retE (toDomain updated))))
        (\<lambda>_ _. True) (\<lambda>_ _. False) w1"
      by (simp add: wp_simps new_date_def tx_assign_def modify_row_def)
  qed simp
  then show ?thesis
    by (simp add: returns_wp assignTablesWithHistory_def wp_simps)
qed

lemma returns_seat_core:
  assumes inv: "db_inv (db w)" and h: "healthy (ext w)" and g: "grants (ext w)" and fresh: "fresh_ids w"
    and r: "r \<in> set (entries (db w))" "r_status r = WAITING"
    and k: "\<And>e w'. ext w' = ext w \<Longrightarrow> returns (k e) w'"
  shows "returns (bindE new_date (\<lambda>t1. bindE new_date (\<lambda>t2.
      bindE (liftE DomainError (seat t1 t2 (toDomain r))) (\<lambda>seated.
      bindE (assignTables rid (payload seated)) (\<lambda>_.
      bindE (assignTablesWithHistory seated ts staff (e_status (toDomain r))) k))))) w"
proof -
  define e where "e = (\<lambda>t1 t2. (toDomain r)\<lparr> e_status := SEATED, e_seatedAt := Some t1, e_position := None, e_updatedAt := t2 \<rparr>)"
  have run: "seat t1 t2 (toDomain r) = Inr (e t1 t2)" for t1 t2 using r(2) by (simp add: seat_Inr e_def)
  have id: "e_id (e t1 t2) \<in> r_id ` set (entries (db w))" for t1 t2 using r(1) by (simp add: e_def)
  let ?w = "w\<lparr> tick := Suc (Suc (tick w)) \<rparr>"
  have "returns (bindE (assignTables rid (payload (e t1 t2))) (\<lambda>_.
      bindE (assignTablesWithHistory (e t1 t2) ts staff (r_status r)) k)) ?w" for t1 t2
  proof (rule returns_bind_iff [where Q = "\<lambda>_ w'. db w' = db w" and P = True, simplified])
    show "returns (assignTables rid (payload (e t1 t2))) ?w"
      by (rule returns_assignTables) (use h g in simp_all)
    show "wp (assignTables rid (payload (e t1 t2))) (\<lambda>_ w'. db w' = db w) (\<lambda>_ _. True) ?w"
      by (rule wp_client_call [OF restaurants.assign_call]) simp_all
    show "stays same_env (assignTables rid (payload (e t1 t2)))" by (rule same_env.st_assignTables)
    fix w1 :: world
    assume w1: "db w1 = db w" "same_env ?w w1"
    have fresh1: "fresh_ids w1" by (rule fresh_ids_later [OF fresh w1(1)]) (use w1(2) in \<open>simp add: same_env_def\<close>)
    show "returns (bindE (assignTablesWithHistory (e t1 t2) ts staff (r_status r)) k) w1"
    proof (rule returns_then)
      show "returns (assignTablesWithHistory (e t1 t2) ts staff (r_status r)) w1"
        by (rule returns_assignTablesWithHistory) (use w1 h inv fresh1 id in \<open>simp_all add: same_env_def\<close>)
    qed (use w1 k in \<open>auto simp: same_env_def intro: same_env.frame_rules\<close>)
  qed
  then show ?thesis by (simp add: run)
qed

lemma seat_returns:
  assumes inv: "db_inv (db w)" and h: "healthy (ext w)" and g: "grants (ext w)" and fresh: "fresh_ids w"
    and waits: "waits (sp_restaurantId input) (sp_queueEntryId input) (db w)"
  shows "returns (seat_execute input) w"
proof -
  from waits obtain r where r: "r \<in> set (entries (db w))" "r_id r = sp_queueEntryId input"
    "r_restaurantId r = sp_restaurantId input" "r_status r = WAITING" by (rule waitsE)
  have fresh1: "fresh_ids (w\<lparr> tick := Suc (tick w) \<rparr>)" by (rule fresh_ids_later [OF fresh]) (simp_all add: same_env_def)
  show ?thesis
    unfolding seat_execute_unfold Let_def returns_load [OF load_entry_run [OF db_invD(5) [OF inv] r(1-3) h]]
    by (rule returns_seat_core) (use inv h g fresh1 r in \<open>simp_all add: returns_tail reliable_messages\<close>)
qed

lemma assign_returns:
  assumes inv: "db_inv (db w)" and h: "healthy (ext w)" and g: "grants (ext w)" and fresh: "fresh_ids w"
    and r: "r \<in> set (entries (db w))" "r_id r = ai_queueEntryId input" "r_restaurantId r = ai_restaurantId input"
      "r_status r = WAITING" "r_partySize r \<le> sum_list (map at_count (ai_tables input))"
  shows "returns (assign_execute input) w"
proof -
  have tail: "returns (bindE (guarded (removeLiveEntry i)) (\<lambda>_. bindE (ticket_seated_messages rid i ts p) (\<lambda>_.
      bindE (publish_training p n) (\<lambda>_. assign_toOutputDTO p ts)))) w'" if "ext w' = ext w" for rid i ts p n w'
  proof (rule reliable_returns)
    have pub: "reliable (guarded (publishToMlEta ev))" for ev
      unfolding publishToMlEta_def
      by (rule reliable_quiet; intro quiet_guarded attempt_same_db same_env.st_guarded same_env.st_attempt same_env.R_mlqueue)
        simp
    have t: "reliable (publish_training p n)"
      unfolding publish_training_def toMlEtaTrainingEvent_def
      by (cases n; simp only: option.case) (intro reliable_rules pub)+
    show "reliable (bindE (guarded (removeLiveEntry i)) (\<lambda>_. bindE (ticket_seated_messages rid i ts p) (\<lambda>_.
        bindE (publish_training p n) (\<lambda>_. assign_toOutputDTO p ts))))"
      unfolding assign_toOutputDTO_def
      by (intro reliable_rules t reliable_quiet quiet_guarded ticket_seated_quiet quiet_same_db quiet_removeLiveEntry
          same_env.frame_rules same_env.st_tails)
  qed (use that h in simp)
  let ?w = "w\<lparr> tick := Suc (tick w) \<rparr>"
  have "returns (bindE (catchE (bindE (countPeopleAheadAtJoin (ai_restaurantId input) (r_joinedAt r))
        (\<lambda>n. retE (Some n))) (\<lambda>_. retE None)) (\<lambda>ahead.
      bindE new_date (\<lambda>t1. bindE new_date (\<lambda>t2.
      bindE (liftE DomainError (seat t1 t2 (toDomain r))) (\<lambda>seated.
      bindE (assignTables (ai_restaurantId input) (ai_tables input)) (\<lambda>_.
      bindE (assignTablesWithHistory seated (map at_tableId (ai_tables input)) (ai_staffUserId input)
        (e_status (toDomain r))) (\<lambda>persisted.
      bindE (guarded (removeLiveEntry (ai_queueEntryId input))) (\<lambda>_.
      bindE (ticket_seated_messages (ai_restaurantId input) (ai_queueEntryId input)
        (map at_tableId (ai_tables input)) persisted) (\<lambda>_.
      bindE (publish_training persisted ahead) (\<lambda>_.
      assign_toOutputDTO persisted (map at_tableId (ai_tables input)))))))))))) ?w"
  proof (rule returns_bind_iff [where Q = "\<lambda>_ w'. db w' = db w" and P = True, simplified])
    have q: "quiet (catchE (bindE (countPeopleAheadAtJoin (ai_restaurantId input) (r_joinedAt r))
        (\<lambda>n. retE (Some n))) (\<lambda>_. retE None))"
      by (intro quiet_catchE same_db.stays_bindE same_db.stays_retE quiet_retE db_rules)
    show env: "stays same_env (catchE (bindE (countPeopleAheadAtJoin (ai_restaurantId input) (r_joinedAt r))
        (\<lambda>n. retE (Some n))) (\<lambda>_. retE None))"
      by (intro same_env.stays_catchE same_env.stays_bindE same_env.stays_retE same_env.frame_rules)
    show "returns (catchE (bindE (countPeopleAheadAtJoin (ai_restaurantId input) (r_joinedAt r))
        (\<lambda>n. retE (Some n))) (\<lambda>_. retE None)) ?w"
      by (rule reliable_returns [OF reliable_quiet [OF q env]]) (simp add: h)
    show "wp (catchE (bindE (countPeopleAheadAtJoin (ai_restaurantId input) (r_joinedAt r))
        (\<lambda>n. retE (Some n))) (\<lambda>_. retE None)) (\<lambda>_ w'. db w' = db w) (\<lambda>_ _. True) ?w"
      by (rule wp_quiet [OF q]) simp
    fix ahead and w1 :: world
    assume w1: "db w1 = db w" "same_env ?w w1"
    have fresh1: "fresh_ids w1" by (rule fresh_ids_later [OF fresh w1(1)]) (use w1(2) in \<open>simp add: same_env_def\<close>)
    show "returns (bindE new_date (\<lambda>t1. bindE new_date (\<lambda>t2.
      bindE (liftE DomainError (seat t1 t2 (toDomain r))) (\<lambda>seated.
      bindE (assignTables (ai_restaurantId input) (ai_tables input)) (\<lambda>_.
      bindE (assignTablesWithHistory seated (map at_tableId (ai_tables input)) (ai_staffUserId input)
        (e_status (toDomain r))) (\<lambda>persisted.
      bindE (guarded (removeLiveEntry (ai_queueEntryId input))) (\<lambda>_.
      bindE (ticket_seated_messages (ai_restaurantId input) (ai_queueEntryId input)
        (map at_tableId (ai_tables input)) persisted) (\<lambda>_.
      bindE (publish_training persisted ahead) (\<lambda>_.
      assign_toOutputDTO persisted (map at_tableId (ai_tables input))))))))))) w1"
      by (rule returns_seat_core [where payload = "\<lambda>_. ai_tables input"])
        (use w1 inv h g fresh1 r tail in \<open>simp_all add: same_env_def\<close>)
  qed
  then show ?thesis
    using r(5) unfolding assign_execute_unfold Let_def returns_load [OF load_entry_run [OF db_invD(5) [OF inv] r(1-3) h]]
    by simp
qed

lemma seating_returns_iff:
  assumes inv: "db_inv (db w)" and h: "healthy (ext w)" and g: "grants (ext w)" and fresh: "fresh_ids w"
  shows "returns (seat_execute si) w \<longleftrightarrow> waits (sp_restaurantId si) (sp_queueEntryId si) (db w)"
    and "returns (assign_execute ai) w \<longleftrightarrow>
      list_ex (\<lambda>r. r_id r = ai_queueEntryId ai \<and> r_restaurantId r = ai_restaurantId ai \<and> r_status r = WAITING \<and>
        r_partySize r \<le> sum_list (map at_count (ai_tables ai))) (entries (db w))"
proof -
  have "wp (seat_execute si) (\<lambda>_ _. waits (sp_restaurantId si) (sp_queueEntryId si) (db w)) (\<lambda>_ _. True) w"
    by (rule wp_seat [OF inv]) (unfold party_seated_def seats_def, elim bexE exE conjE, rule waitsI, simp_all)
  with seat_returns [OF inv h g fresh]
  show "returns (seat_execute si) w \<longleftrightarrow> waits (sp_restaurantId si) (sp_queueEntryId si) (db w)"
    by (blast dest: returns_only_if)
  let ?P = "list_ex (\<lambda>r. r_id r = ai_queueEntryId ai \<and> r_restaurantId r = ai_restaurantId ai \<and> r_status r = WAITING \<and>
        r_partySize r \<le> sum_list (map at_count (ai_tables ai))) (entries (db w))"
  have "wp (assign_execute ai) (\<lambda>_ _. ?P) (\<lambda>_ _. True) w"
    by (rule wp_assign [OF inv]) (auto simp: tables_assigned_def seats_def seat_Inr list_ex_iff)
  moreover have "?P \<Longrightarrow> returns (assign_execute ai) w"
    unfolding list_ex_iff by (elim bexE conjE) (rule assign_returns [OF inv h g fresh])
  ultimately show "returns (assign_execute ai) w \<longleftrightarrow> ?P" by (blast dest: returns_only_if)
qed

subsection \<open>Registration\<close>

text \<open>The two answers of the restaurant service.\<close>

lemma status_admitted:
  assumes "healthy (ext w)" and "admits (ext w) rid n"
  shows "wp (getRestaurantStatus rid) (\<lambda>st w'. validateRestaurantActiveSubscription st = Inr () \<and>
      db w' = db w \<and> same_env w w') (\<lambda>_ _. False) w"
proof -
  have "status_admits (http_status (ext w) (Suc (tick w)) rid)" using assms(2) by (simp add: admits_def)
  then obtain v st where "http_status (ext w) (Suc (tick w)) rid = Inr (Some v)" "env_success v = Some True"
      "env_data v = Some st" "validateRestaurantActiveSubscription st = Inr ()"
    by (cases "http_status (ext w) (Suc (tick w)) rid" rule: sum.exhaust; simp)
      (auto simp: validate_Inr QUEUE_PRO_def split: option.splits elim!: status_admits.elims)
  with assms(1) show ?thesis
    by (simp add: wp_def getRestaurantStatus_def executeWithBreaker_def breaker_execute_def catchE_def bindE_def
        ask_def http_def open_envelope_def retE_def same_env_def)
qed

lemma tables_checked:
  assumes "healthy (ext w)" and "admits (ext w) rid n"
  shows "wp (checkAvailability rid n) (\<lambda>a w'. av_isOpen a \<and> av_acceptsQueue a \<and> \<not> av_isTableAvailable a \<and>
      db w' = db w \<and> same_env w w') (\<lambda>_ _. False) w"
proof (cases "cfg_useMock (cfg (ext w))")
  case True
  then show ?thesis by (simp add: checkAvailability_def wp_simps same_env_def)
next
  case False
  with assms(2) have "tables_taken (http_availability (ext w) (Suc (tick w)) rid n)" by (simp add: admits_def)
  then obtain v a where "http_availability (ext w) (Suc (tick w)) rid n = Inr (Some v)" "env_success v = Some True"
      "env_data v = Some a" "av_isOpen a \<and> av_acceptsQueue a \<and> \<not> av_isTableAvailable a"
    by (auto split: option.splits elim!: tables_taken.elims)
  with assms(1) False show ?thesis
    by (simp add: wp_def checkAvailability_def executeWithBreaker_def breaker_execute_def catchE_def bindE_def
        ask_def ask_cfg_def http_def open_envelope_def retE_def same_env_def)
qed

lemma returns_bind_wp:
  assumes "wp m Q (\<lambda>_ _. False) w" and "\<And>x w'. Q x w' \<Longrightarrow> returns (f x) w' \<longleftrightarrow> P"
  shows "returns (bindE m f) w \<longleftrightarrow> P"
proof -
  have "returns m w" unfolding returns_wp by (rule wp_mono [OF assms(1)]) simp_all
  then obtain x w' where "m w = (Inr x, w')" by (auto simp: returns_Inr)
  with assms show ?thesis by (auto simp: returns_run wp_def)
qed

text \<open>Someone with the phone number or the account of the guest waits already.\<close>

definition waits_already :: "register_input \<Rightarrow> database \<Rightarrow> bool" where
  "waits_already input d \<longleftrightarrow>
     list_ex (\<lambda>r. r_restaurantId r = ri_restaurantId input \<and> r_status r = WAITING \<and>
       (r_phone r = ri_guestPhone input \<or> r_phone r = js_trim (ri_guestPhone input))) (entries d) \<or>
     truthy (ri_userId input) \<and>
     list_ex (\<lambda>r. r_userId r = ri_userId input \<and> r_status r = WAITING) (entries d)"

lemma findActive_run:
  assumes "healthy (ext w)"
  shows "findActiveByPhone rid ph w =
      (Inr (map_option toDomain (find (\<lambda>r. waiting_at rid r \<and> r_phone r = ph) (entries (db w)))), w\<lparr> tick := Suc (tick w) \<rparr>)"
    and "findActiveByUserId u w =
      (Inr (map_option toDomain (latest_joined (filter (\<lambda>r. r_userId r = Some u \<and> r_status r = WAITING) (entries (db w))))),
       w\<lparr> tick := Suc (tick w) \<rparr>)"
  using assms
  by (simp_all add: findActiveByPhone_def findActiveByUserId_def run_def run_with_def catchE_def bindE_def
      db_read_def db_run_def retE_def)

lemma returns_findActive:
  assumes "healthy (ext w)"
  shows "returns (bindE (findActiveByPhone rid ph) f) w \<longleftrightarrow>
      returns (f (map_option toDomain (find (\<lambda>r. waiting_at rid r \<and> r_phone r = ph) (entries (db w))))) (w\<lparr> tick := Suc (tick w) \<rparr>)"
    and "returns (bindE (findActiveByUserId u) g) w \<longleftrightarrow>
      returns (g (map_option toDomain (latest_joined (filter (\<lambda>r. r_userId r = Some u \<and> r_status r = WAITING) (entries (db w))))))
        (w\<lparr> tick := Suc (tick w) \<rparr>)"
  by (rule returns_run, rule findActive_run [OF assms])+

lemma createWithHistory_returns:
  assumes h: "healthy (ext w)" and fresh: "e_id e \<notin> r_id ` set (entries (db w))"
  shows "returns (createWithHistory e cb) w \<longleftrightarrow>
    \<not> (truthy (e_userId e) \<and> list_ex (\<lambda>r. r_userId r = e_userId e \<and> r_status r = WAITING) (entries (db w))) \<and>
    \<not> list_ex (\<lambda>r. waiting_at (e_restaurantId e) r \<and> r_phone r = e_phone e) (entries (db w))"
proof -
  have "insert_row queue_repo (toPersistence e) (db w) =
      Inr (toPersistence e, (db w)\<lparr> entries := entries (db w) @ [toPersistence e] \<rparr>)"
    using fresh by (simp add: insert_row_Inr)
  with h show ?thesis
    by (auto simp: returns_wp createWithHistory_def create_checks_def create_insert_def Let_def wp_simps new_date_def
        tx_checks_def tx_insert_def)
qed

lemma register_persist_returns:
  assumes h: "healthy (ext w)" and fresh: "fresh_ids w"
  shows "returns (register_persist input m) w \<longleftrightarrow>
    \<not> (truthy (ri_userId input) \<and> list_ex (\<lambda>r. r_userId r = ri_userId input \<and> r_status r = WAITING) (entries (db w))) \<and>
    \<not> list_ex (\<lambda>r. waiting_at (ri_restaurantId input) r \<and> r_phone r = js_trim (ri_guestPhone input)) (entries (db w))"
    (is "_ \<longleftrightarrow> ?P")
proof -
  let ?rid = "ri_restaurantId input"
  have rest: "returns (bindE new_date (\<lambda>now. bindE random_id (\<lambda>fresh.
      bindE (createWithHistory (register_entry input m eta fresh now) (Some (changed_by input))) (\<lambda>persisted.
      bindE (guarded (saveLiveEntry (e_id persisted) ?rid (rm_queueDepth m + 1) eta)) (\<lambda>_.
      bindE (guarded (broadcastToRestaurant ?rid EV_ENTRY_CREATED (created_data persisted ?rid))) (\<lambda>_.
      retE (register_toOutputDTO persisted))))))) w1 \<longleftrightarrow> ?P"
    if w1: "db w1 = db w" "same_env w w1" for eta w1
  proof -
    let ?id = "random_uuid (ext w) (Suc (tick w1))"
    let ?e = "register_entry input m eta ?id (clock (ext w) (tick w1))"
    let ?w = "w1\<lparr> tick := Suc (Suc (tick w1)) \<rparr>"
    have new: "?id \<notin> r_id ` set (entries (db w))" using fresh w1 by (simp add: fresh_ids_def same_env_def)
    have "returns (bindE (createWithHistory ?e (Some (changed_by input))) (\<lambda>persisted.
        bindE (guarded (saveLiveEntry (e_id persisted) ?rid (rm_queueDepth m + 1) eta)) (\<lambda>_.
        bindE (guarded (broadcastToRestaurant ?rid EV_ENTRY_CREATED (created_data persisted ?rid))) (\<lambda>_.
        retE (register_toOutputDTO persisted))))) ?w \<longleftrightarrow> returns (createWithHistory ?e (Some (changed_by input))) ?w"
    proof (rule returns_then_reliable, rule same_env.frame_rules)
      show "reliable (bindE (guarded (saveLiveEntry (e_id p) ?rid (rm_queueDepth m + 1) eta)) (\<lambda>_.
          bindE (guarded (broadcastToRestaurant ?rid EV_ENTRY_CREATED (created_data p ?rid))) (\<lambda>_.
          retE (register_toOutputDTO p))))" for p
        by (intro reliable_rules reliable_quiet quiet_guarded broadcast_same_db quiet_same_db quiet_saveLiveEntry
            same_env.frame_rules)
    qed (use h w1 in \<open>simp add: same_env_def\<close>)
    also have "\<dots> \<longleftrightarrow> ?P"
      by (subst createWithHistory_returns) (use w1 h new in \<open>simp_all add: same_env_def\<close>)
    finally show ?thesis using w1 by (simp add: same_env_def)
  qed
  show ?thesis
    unfolding register_persist_def Let_def
  proof (rule returns_bind_iff [where Q = "\<lambda>_ w'. db w' = db w"])
    show "returns (predictEta ?rid (rm_totalPeopleAhead m) (ri_partySize input)) w"
      by (rule reliable_returns [OF reliable_quiet h]) (rule ml_eta.quiet_predict same_env.frame_rules)+
    show "wp (predictEta ?rid (rm_totalPeopleAhead m) (ri_partySize input)) (\<lambda>_ w'. db w' = db w) (\<lambda>_ _. True) w"
      by (rule ml_eta.wp_predict)
    show "stays same_env (predictEta ?rid (rm_totalPeopleAhead m) (ri_partySize input))"
      by (rule same_env.frame_rules)
  qed (rule rest)
qed

text \<open>
  Where the restaurant admits the party, registration returns exactly when the guest does not wait
  already: the queries before the transaction and the checks in it refuse the same requests.
\<close>

lemma register_returns:
  assumes h: "healthy (ext w)" and adm: "admits (ext w) (ri_restaurantId input) (ri_partySize input)"
    and fresh: "fresh_ids w"
  shows "returns (register_execute input) w \<longleftrightarrow> \<not> waits_already input (db w)"
proof -
  let ?rid = "ri_restaurantId input" and ?ph = "ri_guestPhone input" and ?u = "ri_userId input"
  let ?es = "entries (db w)"
  let ?P = "\<not> waits_already input (db w)"
  let ?user = "truthy ?u \<and> list_ex (\<lambda>r. r_userId r = ?u \<and> r_status r = WAITING) ?es"
  let ?phone = "\<lambda>ph. list_ex (\<lambda>r. waiting_at ?rid r \<and> r_phone r = ph) ?es"
  have persist: "returns (bindE (getRegistrationMetrics ?rid) (register_persist input)) w1 \<longleftrightarrow>
      \<not> ?user \<and> \<not> ?phone (js_trim ?ph)" if w1: "db w1 = db w" "same_env w w1" for w1
  proof (rule returns_bind_iff [where Q = "\<lambda>_ w'. db w' = db w"])
    have rel: "reliable (getRegistrationMetrics ?rid)"
      unfolding getRegistrationMetrics_def start_of_day_def by (intro reliable_rules)
    show "returns (getRegistrationMetrics ?rid) w1"
      by (rule reliable_returns [OF rel]) (use w1 h in \<open>simp add: same_env_def\<close>)
    show "wp (getRegistrationMetrics ?rid) (\<lambda>_ w'. db w' = db w) (\<lambda>_ _. True) w1"
      by (rule wp_same_db [OF queries_same_db(6)]) (use w1 in simp_all)
    show "stays same_env (getRegistrationMetrics ?rid)" by (rule same_env.frame_rules)
    fix m and w2 :: world
    assume w2: "db w2 = db w" "same_env w1 w2"
    have env2: "same_env w w2" by (rule same_env.R_trans [OF w1(2) w2(2)])
    have h2: "healthy (ext w2)" using h env2 by (simp add: same_env_def)
    show "returns (register_persist input m) w2 \<longleftrightarrow> \<not> ?user \<and> \<not> ?phone (js_trim ?ph)"
      using register_persist_returns [OF h2 fresh_ids_later [OF fresh w2(1) env2]] w2(1) by simp
  qed
  have phone: "find (\<lambda>r. waiting_at ?rid r \<and> r_phone r = ?ph) ?es = None \<longleftrightarrow> \<not> ?phone ?ph"
    by (auto simp: find_None_iff list_ex_iff)
  have user: "latest_joined (filter (\<lambda>r. r_userId r = Some u \<and> r_status r = WAITING) ?es) = None \<longleftrightarrow>
      \<not> list_ex (\<lambda>r. r_userId r = Some u \<and> r_status r = WAITING) ?es" for u
    by (auto simp: latest_joined_None filter_empty_conv list_ex_iff)
  have already: "waits_already input (db w) \<longleftrightarrow> ?phone ?ph \<or> ?phone (js_trim ?ph) \<or> ?user"
    by (auto simp: waits_already_def waiting_at_def list_ex_iff)
  have queries: "returns (bindE (findActiveByPhone ?rid ?ph) (\<lambda>existingActivePhone.
        bindE (if truthy ?u then findActiveByUserId (the ?u) else retE None) (\<lambda>existingActiveUser.
        if existingActivePhone \<noteq> None then throwE (DomainError (ActiveQueueEntryExistsError ?ph))
        else if existingActiveUser \<noteq> None then throwE (DomainError ActiveUserQueueEntryExistsError)
        else bindE (getRegistrationMetrics ?rid) (register_persist input)))) w1 \<longleftrightarrow> ?P"
    if w1: "db w1 = db w" "same_env w w1" for w1
  proof -
    have h1: "healthy (ext w1)" using w1 h by (simp add: same_env_def)
    have later: "same_env w (w1\<lparr> tick := Suc n \<rparr>)" if "tick w1 \<le> n" for n
      using w1 that by (simp add: same_env_def)
    note persist1 = persist [of "w1\<lparr> tick := Suc (tick w1) \<rparr>"] persist [of "w1\<lparr> tick := Suc (Suc (tick w1)) \<rparr>"]
    show ?thesis
    proof (cases "truthy ?u")
      case True
      then obtain u where u: "?u = Some u" by (cases ?u) (simp_all add: truthy_def)
      have h2: "healthy (ext (w1\<lparr> tick := Suc (tick w1) \<rparr>))" using h1 by simp
      show ?thesis
        unfolding returns_findActive(1) [OF h1] if_P [OF True]
        using True u persist1 later w1
        by (simp add: returns_findActive(2) [OF h2] phone user already)
    next
      case False
      then show ?thesis
        unfolding returns_findActive(1) [OF h1]
        using persist1 later w1 by (simp add: phone already)
    qed
  qed
  show ?thesis
    unfolding register_execute_unfold Let_def
  proof (rule returns_bind_wp [OF status_admitted [OF h adm]])
    fix st and w1 :: world
    assume w1: "validateRestaurantActiveSubscription st = Inr () \<and> db w1 = db w \<and> same_env w w1"
    have h1: "healthy (ext w1)" "admits (ext w1) ?rid (ri_partySize input)"
      using w1 h adm by (simp_all add: same_env_def)
    show "returns (bindE (liftE DomainError (validateRestaurantActiveSubscription st)) (\<lambda>_.
      bindE (checkAvailability ?rid (ri_partySize input)) (\<lambda>tableCheck.
      if \<not> av_isOpen tableCheck \<or> \<not> av_acceptsQueue tableCheck
      then throwE (DomainError RestaurantNotAcceptingQueueError)
      else if av_isTableAvailable tableCheck
      then throwE (DomainError (TableAvailableError (av_availableCount tableCheck)))
      else
        bindE (findActiveByPhone ?rid ?ph) (\<lambda>existingActivePhone.
        bindE (if truthy ?u then findActiveByUserId (the ?u) else retE None) (\<lambda>existingActiveUser.
        if existingActivePhone \<noteq> None then throwE (DomainError (ActiveQueueEntryExistsError ?ph))
        else if existingActiveUser \<noteq> None then throwE (DomainError ActiveUserQueueEntryExistsError)
        else bindE (getRegistrationMetrics ?rid) (register_persist input)))))) w1 \<longleftrightarrow> ?P"
      unfolding w1 [THEN conjunct1] liftE_Inr returns_simps
    proof (rule returns_bind_wp [OF tables_checked [OF h1]])
      fix a and w2 :: world
      assume w2: "av_isOpen a \<and> av_acceptsQueue a \<and> \<not> av_isTableAvailable a \<and> db w2 = db w1 \<and> same_env w1 w2"
      have "db w2 = db w" "same_env w w2" using w1 w2 same_env.R_trans by auto
      from queries [OF this] w2
      show "returns (if \<not> av_isOpen a \<or> \<not> av_acceptsQueue a
          then throwE (DomainError RestaurantNotAcceptingQueueError)
          else if av_isTableAvailable a then throwE (DomainError (TableAvailableError (av_availableCount a)))
          else bindE (findActiveByPhone ?rid ?ph) (\<lambda>existingActivePhone.
            bindE (if truthy ?u then findActiveByUserId (the ?u) else retE None) (\<lambda>existingActiveUser.
            if existingActivePhone \<noteq> None then throwE (DomainError (ActiveQueueEntryExistsError ?ph))
            else if existingActiveUser \<noteq> None then throwE (DomainError ActiveUserQueueEntryExistsError)
            else bindE (getRegistrationMetrics ?rid) (register_persist input)))) w2 \<longleftrightarrow> ?P"
        by simp
    qed
  qed
qed

end
