(* ===== verification/FreshIds.thy ===== *)
theory FreshIds
  imports Admission
begin

text \<open>
  Every identifier in the database was drawn from the source of random identifiers at an earlier tick:
  of the rows of entries and of table assignments, in every reachable state. Where the source never
  repeats itself, the identifiers drawn from now on are therefore new. \<open>draws\<close> is that fact as a
  relation on worlds, with the composition rules of \<open>effect_order\<close>.
\<close>

definition db_ids :: "database \<Rightarrow> uuid set" where
  "db_ids d = r_id ` set (entries d) \<union> ta_id ` set (assigns d)"

definition drawn :: "world \<Rightarrow> world \<Rightarrow> uuid set" where
  "drawn w w' = random_uuid (ext w) ` {tick w..<tick w'}"

definition draws :: "world \<Rightarrow> world \<Rightarrow> bool" where
  "draws w w' \<longleftrightarrow> same_env w w' \<and> db_ids (db w') \<subseteq> db_ids (db w) \<union> drawn w w'"

interpretation draws: effect_order draws
proof
  show "draws w w" for w by (simp add: draws_def same_env_def)
  fix u v w assume uv: "draws u v" and vw: "draws v w"
  have "drawn u v \<subseteq> drawn u w" "drawn v w \<subseteq> drawn u w"
    using uv vw by (auto simp: draws_def drawn_def same_env_def)
  with uv vw show "draws u w" unfolding draws_def by (auto intro: same_env.R_trans)
qed

lemma draws_same: "stays same_db m \<Longrightarrow> stays same_env m \<Longrightarrow> stays draws m"
  unfolding stays_def same_db_def draws_def by simp

lemma draws_kept:
  assumes "stays same_env m" and "\<And>w. wp m (\<lambda>_ w'. db_ids (db w') \<subseteq> db_ids (db w)) (\<lambda>_ w'. db_ids (db w') \<subseteq> db_ids (db w)) w"
  shows "stays draws m"
  using assms(1) assms(2) [unfolded wp_snd] unfolding stays_def draws_def by auto

subsection \<open>Calls that draw nothing\<close>

lemma cancel_messages_same_db [db_rules]: "stays same_db (cancel_messages input e)"
  unfolding cancel_messages_def Let_def
  by (intro same_db.stays_bindE same_db.stays_if same_db.stays_retE db_rules)

lemma draws_calls:
  "stays draws new_date" "stays draws (load_entry rid i)" "stays draws (findActiveEntries rid)"
  "stays draws (predictEta rid n p)" "stays draws (removeLiveEntry i)" "stays draws (assignTables rid ts)"
  "stays draws (findActiveTableAssignments i)" "stays draws (seat_messages si e)" "stays draws (cancel_messages ci e)"
  "stays draws (skip_messages ki e x pos)"
  by (rule draws_same; intro new_date_same_db load_entry_same_db queries_same_db predictEta_same_db
      quiet_same_db [OF quiet_removeLiveEntry] restaurant_same_db seat_messages_same_db cancel_messages_same_db
      skip_messages_same_db same_env.frame_rules same_env.st_tails same_env.st_assignTables same_env.st_skip_messages)+

subsection \<open>Transactions\<close>

lemma map_rows_ids: "(\<And>r. r_id r = i \<Longrightarrow> r_id (f r) = i) \<Longrightarrow> db_ids (map_rows (at_id i f) d) = db_ids d"
proof -
  assume f: "\<And>r. r_id r = i \<Longrightarrow> r_id (f r) = i"
  have "r_id (at_id i f r) = r_id r" for r using f by (simp add: at_id_def)
  then show ?thesis by (simp add: db_ids_def map_rows_def image_image)
qed

lemma modify_row_db_ids:
  "modify_row queue_repo i f d = Inr (x, d') \<Longrightarrow> (\<And>r. r_id r = i \<Longrightarrow> r_id (f r) = i) \<Longrightarrow> db_ids d' = db_ids d"
  by (erule modify_row_Inr) (simp add: map_rows_ids)

lemma tx_positions_db_ids: "tx_positions us d = Inr d' \<Longrightarrow> db_ids d' = db_ids d"
proof (induction us d rule: tx_positions.induct)
  case (2 u t us d)
  then obtain x d1 where m: "modify_row queue_repo (pu_id u) (apply_position u t) d = Inr (x, d1)"
    and "tx_positions us d1 = Inr d'" by (auto split: sum.splits)
  with 2(1) [of "(x, d1)"] modify_row_db_ids [OF m] show ?case
    by (simp add: apply_position_def Let_def split: option.splits)
qed simp

lemma wp_db_run_ids:
  assumes "\<And>x d. q (db w) = Inr (x, d) \<Longrightarrow> db_ids d \<subseteq> D" and "db_ids (db w) \<subseteq> D"
  shows "wp (db_run q) (\<lambda>_ w'. db_ids (db w') \<subseteq> D) (\<lambda>_ w'. db_ids (db w') \<subseteq> D) w"
  by (rule wp_db_runI) (use assms in auto)

lemma add_history_ids [simp]: "db_ids (add_history h d) = db_ids d"
  by (simp add: db_ids_def add_history_def)

lemma draws_update: "stays draws (updateStatusWithHistory p)"
proof (rule draws_kept [OF same_env.st_transactions(2)])
  fix w :: world
  have "db_ids d \<subseteq> db_ids (db w)" if "tx_update_status p t (db w) = Inr (x, d)" for t x d
    using that modify_row_db_ids
    by (fastforce simp: tx_update_status_def Let_def split: sum.splits)
  then show "wp (updateStatusWithHistory p) (\<lambda>_ w'. db_ids (db w') \<subseteq> db_ids (db w))
      (\<lambda>_ w'. db_ids (db w') \<subseteq> db_ids (db w)) w"
    unfolding updateStatusWithHistory_def wp_run wp_bindE wp_retE new_date_def wp_ask
    by (intro wp_db_run_ids) simp_all
qed

lemma draws_batch: "stays draws (batchUpdatePositions us)"
  by (rule draws_kept [OF same_env.st_transactions(4)], rule wp_batchUpdatePositions)
    (auto dest: tx_positions_db_ids)

lemma draws_release_rows: "stays draws (releaseTableAssignments i)"
proof (rule draws_kept [OF same_env.st_transactions(5)])
  fix w :: world
  have "db_ids (tx_release i t d) = db_ids d" for t d
  proof -
    have "map ta_id (update_where p (assignment_release t) as) = map ta_id as" for p as
      by (induction as) (auto simp: update_where_def assignment_release_def)
    then have "ta_id ` set (update_where p (assignment_release t) as) = ta_id ` set as" for p as
      by (metis list.set_map)
    then show ?thesis by (simp add: db_ids_def tx_release_def)
  qed
  then show "wp (releaseTableAssignments i) (\<lambda>_ w'. db_ids (db w') \<subseteq> db_ids (db w))
      (\<lambda>_ w'. db_ids (db w') \<subseteq> db_ids (db w)) w"
    unfolding releaseTableAssignments_def wp_run wp_bindE new_date_def wp_ask
    by (intro wp_db_run_ids) auto
qed

lemma draws_assign: "stays draws (assignTablesWithHistory e ts cb prev)"
proof -
  have "wp (assignTablesWithHistory e ts cb prev) (\<lambda>_ w'. db_ids (db w') \<subseteq> db_ids (db w) \<union> drawn w w' )
      (\<lambda>_ w'. db_ids (db w') \<subseteq> db_ids (db w) \<union> drawn w w') w" for w
  proof -
    have rows: "wp (assignment_rows e ts cb) (\<lambda>rows w'. db w' = db w \<and> ext w' = ext w \<and> tick w \<le> tick w' \<and>
        ta_id ` set rows \<subseteq> drawn w w') (\<lambda>_ _. False) w"
      unfolding assignment_rows_def
      by (rule wp_mapE [where zs = "[]" and I = "\<lambda>rows rest w'. db w' = db w \<and> ext w' = ext w \<and> tick w \<le> tick w' \<and>
          ta_id ` set rows \<subseteq> drawn w w'"])
        (auto simp: wp_simps random_id_def new_date_def drawn_def split: option.split)
    have tx: "db_ids d \<subseteq> db_ids (db w) \<union> ta_id ` set rows"
      if run: "tx_assign rows (toPersistence e) prev cb t (db w) = Inr (x, d)" for rows t x d
      using run
    proof (rule tx_assign_Inr)
      fix r assume "r \<in> set (entries (db w))" "r_id r = r_id (toPersistence e)" "assigns d = assigns (db w) @ rows"
        "entries d = map (at_id (r_id r) (\<lambda>_. toPersistence e)) (entries (db w))"
      then show ?thesis by (auto simp: db_ids_def at_id_def image_Un intro: rev_image_eqI)
    qed
    show ?thesis
      unfolding assignTablesWithHistory_def wp_run wp_bindE wp_retE new_date_def wp_ask
    proof (rule wp_mono [OF rows])
      fix rows :: "table_assignment list" and w1 :: world
      assume w1: "db w1 = db w \<and> ext w1 = ext w \<and> tick w \<le> tick w1 \<and> ta_id ` set rows \<subseteq> drawn w w1"
      have sub: "drawn w w1 \<subseteq> drawn w w'" if "tick w1 \<le> tick w'" for w'
        using that by (auto simp: drawn_def)
      show "wp (db_run (tx_assign rows (toPersistence e) prev cb (clock (ext w1) (tick w1))))
          (\<lambda>_ w'. db_ids (db w') \<subseteq> db_ids (db w) \<union> drawn w w')
          (\<lambda>_ w'. db_ids (db w') \<subseteq> db_ids (db w) \<union> drawn w w') (w1\<lparr> tick := Suc (tick w1) \<rparr>)"
      proof -
        let ?q = "tx_assign rows (toPersistence e) prev cb (clock (ext w1) (tick w1))" and ?w1 = "w1\<lparr> tick := Suc (tick w1) \<rparr>"
        let ?D = "db_ids (db w) \<union> drawn w w1"
        have ids: "wp (db_run ?q) (\<lambda>_ w'. db_ids (db w') \<subseteq> ?D) (\<lambda>_ w'. db_ids (db w') \<subseteq> ?D) ?w1"
        proof (rule wp_db_run_ids)
          fix x d assume "?q (db ?w1) = Inr (x, d)"
          with w1 have "?q (db w) = Inr (x, d)" by simp
          from tx [OF this] w1 show "db_ids d \<subseteq> ?D" by blast
        qed (use w1 in simp)
        have env: "wp (db_run ?q) (\<lambda>_. same_env ?w1) (\<lambda>_. same_env ?w1) ?w1"
          by (rule same_env.st_db_run [unfolded stays_wp, rule_format])
        have enough: "db_ids (db w') \<subseteq> db_ids (db w) \<union> drawn w w'" if "db_ids (db w') \<subseteq> ?D \<and> same_env ?w1 w'" for w'
        proof -
          have "tick w1 \<le> tick w'" using that by (simp add: same_env_def)
          then show ?thesis using that sub by blast
        qed
        show ?thesis by (rule wp_mono [OF wp_conj [OF ids env]]) (erule enough)+
      qed
    qed simp
  qed
  then show ?thesis
    using same_env.st_transactions(3) [of e ts cb prev]
    unfolding stays_wp draws_def by (auto intro: wp_conj)
qed

lemma draws_create:
  assumes k: "\<And>x. stays draws (k x)" and id: "\<And>i. e_id (f i) = i"
  shows "stays draws (bindE random_id (\<lambda>i. bindE (createWithHistory (f i) cb) k))"
proof -
  have tx: "db_ids d \<subseteq> insert (e_id e) (db_ids (db w))" if run: "tx_create (toPersistence e) cb t (db w) = Inr (x, d)" for e t x d w
    using tx_create_Inr [OF run] by (auto simp: db_ids_def add_history_def)
  have create: "wp (createWithHistory e cb) (\<lambda>_ w'. same_env w w' \<and> db_ids (db w') \<subseteq> insert (e_id e) (db_ids (db w)))
      (\<lambda>_ w'. same_env w w' \<and> db_ids (db w') \<subseteq> insert (e_id e) (db_ids (db w))) w" for e w
  proof (rule wp_conj)
    show "wp (createWithHistory e cb) (\<lambda>_. same_env w) (\<lambda>_. same_env w) w"
      using same_env.st_transactions(1) by (simp add: stays_wp)
    show "wp (createWithHistory e cb) (\<lambda>_ w'. db_ids (db w') \<subseteq> insert (e_id e) (db_ids (db w)))
        (\<lambda>_ w'. db_ids (db w') \<subseteq> insert (e_id e) (db_ids (db w))) w"
      by (rule wp_create_tx) (auto dest: tx)
  qed
  have "wp (bindE random_id (\<lambda>i. bindE (createWithHistory (f i) cb) k)) (\<lambda>_. draws w) (\<lambda>_. draws w) w" for w
  proof -
    let ?i = "random_uuid (ext w) (tick w)" and ?w = "w\<lparr> tick := Suc (tick w) \<rparr>"
    have new: "draws w w'" if "same_env ?w w' \<and> db_ids (db w') \<subseteq> insert (e_id (f ?i)) (db_ids (db ?w))" for w'
      using that id by (auto simp: draws_def same_env_def drawn_def)
    have "wp (createWithHistory (f ?i) cb) (\<lambda>x. wp (k x) (\<lambda>_. draws w) (\<lambda>_. draws w)) (\<lambda>_. draws w) ?w"
    proof (rule wp_mono [OF create])
      fix x and w' :: world
      assume "same_env ?w w' \<and> db_ids (db w') \<subseteq> insert (e_id (f ?i)) (db_ids (db ?w))"
      then have "draws w w'" by (rule new)
      with k [of x] show "wp (k x) (\<lambda>_. draws w) (\<lambda>_. draws w) w'"
        unfolding wp_snd stays_def by (blast intro: draws.R_trans)
    qed (rule new)
    then show ?thesis by (simp add: wp_bindE random_id_def wp_ask)
  qed
  then show ?thesis by (simp add: stays_wp)
qed

subsection \<open>The use cases\<close>

lemma draws_recalculate: "stays draws (recalculate predictEta rid)" "stays draws (refresh_queue rid i)"
proof -
  have notices: "stays draws (save_live_deltas rid ds)" "stays draws (notify_tickets rid ds)"
      "stays draws (notify_restaurant rid ds)" for ds
    unfolding save_live_deltas_def notify_tickets_def notify_restaurant_def
    by (rule draws_same; intro same_db.stays_mapE quiet_same_db quiet_guarded quiet_saveLiveEntry broadcast_same_db
        same_env.stays_mapE same_env.frame_rules)+
  show rec: "stays draws (recalculate predictEta rid)"
    unfolding recalculate_def Let_def
    by (intro draws.stays_bindE draws.stays_if draws.stays_retE draws.stays_mapE draws_calls draws_batch notices)
  show "stays draws (refresh_queue rid i)"
    unfolding refresh_queue_def by (intro draws.stays_bindE draws_calls rec)
qed

lemma draws_cancel: "stays draws (cancel_execute input)"
proof -
  have "stays draws (releaseTables r rs)" for r rs
    by (rule draws_same [OF restaurant_same_db(4)])
      (simp add: same_env.st_releaseTables)
  then show ?thesis
    unfolding cancel_execute_unfold release_assignments_def Let_def
    by (intro draws.stays_bindE draws.stays_if draws.stays_retE draws.stays_liftE draws_calls draws_update
        draws_release_rows draws_recalculate)
qed

lemma draws_skip: "stays draws (skip_execute input)"
proof -
  have leave: "stays draws (skip_leave input e)" for e
    unfolding skip_leave_def
    by (intro draws.stays_bindE draws.stays_liftE draws_calls draws_update draws_recalculate)
  have shift: "stays draws (skip_shift input e n es k)" for e n es k
    unfolding skip_shift_def Let_def
    by (intro draws.stays_bindE draws_calls draws_update draws_batch draws_recalculate)
  show ?thesis
    unfolding skip_execute_unfold Let_def
    by (intro draws.stays_bindE draws.stays_if draws.stays_case_option draws.stays_throwE leave shift draws_calls)
qed

lemma draws_seating: "stays draws (seat_execute si)" "stays draws (assign_execute ai)"
proof -
  show "stays draws (seat_execute si)"
    unfolding seat_execute_unfold Let_def
    by (intro draws.stays_bindE draws.stays_liftE draws_calls draws_assign draws_recalculate)
  have ahead: "stays draws (catchE (bindE (countPeopleAheadAtJoin rid t) (\<lambda>n. retE (Some n))) (\<lambda>_. retE None))" for rid t
    by (rule draws_same; intro same_db.stays_catchE same_db.stays_bindE same_db.stays_retE queries_same_db
        same_env.stays_catchE same_env.stays_bindE same_env.stays_retE same_env.frame_rules)
  have training: "stays same_db (publish_training p n)" for p n
    unfolding publish_training_def toMlEtaTrainingEvent_def publishToMlEta_def guarded_def
    by (intro same_db.stays_case_option same_db.stays_bindE same_db.stays_catchE same_db.stays_retE or_now_same_db
        attempt_same_db) simp
  have output_dto: "stays same_db (assign_toOutputDTO p ts)" for p ts
    unfolding assign_toOutputDTO_def by (intro same_db.stays_bindE same_db.stays_retE or_now_same_db)
  have tail: "stays draws (guarded (removeLiveEntry i))" "stays draws (ticket_seated_messages rid i ts p)"
      "stays draws (publish_training p n)" "stays draws (assign_toOutputDTO p ts)" for rid i ts p n
    by (rule draws_same; intro training output_dto quiet_same_db [OF ticket_seated_quiet]
        quiet_same_db [OF quiet_guarded] quiet_same_db [OF quiet_removeLiveEntry] same_env.frame_rules same_env.st_tails)+
  show "stays draws (assign_execute ai)"
    unfolding assign_execute_unfold Let_def
    by (intro ahead draws.stays_bindE draws.stays_if draws.stays_liftE draws.stays_throwE draws_calls draws_assign tail)
qed

lemma draws_register: "stays draws (register_execute input)"
proof -
  have guards: "stays draws (guarded (saveLiveEntry i r p eta))" "stays draws (guarded (broadcastToRestaurant r ev x))" for i r p eta ev x
    by (rule draws_same; intro quiet_same_db [OF quiet_guarded] quiet_same_db [OF quiet_saveLiveEntry] broadcast_same_db
        same_env.frame_rules)+
  have persist: "stays draws (register_persist input m)" for m
    unfolding register_persist_def Let_def
    by (intro draws_create guards draws.stays_bindE draws.stays_retE draws_calls) simp
  have queries: "stays draws (findActiveByPhone r ph)" "stays draws (findActiveByUserId u)" "stays draws (getRegistrationMetrics r)"
      "stays draws (getRestaurantStatus r)" "stays draws (checkAvailability r n)" for r ph u n
    by (rule draws_same; intro queries_same_db restaurant_same_db same_env.frame_rules same_env.st_restaurant)+
  show ?thesis
    unfolding register_execute_unfold Let_def
    by (intro draws.stays_bindE draws.stays_if draws.stays_throwE draws.stays_retE draws.stays_liftE queries persist)
qed

lemma draws_ring: "stays draws (ring_execute input)"
proof (rule draws_kept [OF same_env.st_ring])
  fix w :: world
  let ?S = "\<lambda>w'. db_ids (db w') \<subseteq> db_ids (db w)"
  show "wp (ring_execute input) (\<lambda>_. ?S) (\<lambda>_. ?S) w"
    unfolding ring_execute_unfold
  proof (subst wp_bindE, rule wp_load_entry)
    fix r and w1 :: world
    assume r: "r \<in> set (entries (db w))" and w1: "db w1 = db w"
    have saved: "wp (bindE (save queue_repo e) (\<lambda>_. k)) (\<lambda>_. ?S) (\<lambda>_. ?S) w2"
      if e: "e_id e = r_id r" and w2: "db w2 = db w" and k: "stays same_db k" for e w2 and k :: "ring_output io"
    proof -
      have "e_id e \<in> r_id ` set (entries (db w))" using e r by simp
      then obtain q where q: "find_row queue_repo (e_id e) (db w) = Some q" using find_row_exists by blast
      have "wp (save queue_repo e) (\<lambda>_. ?S) (\<lambda>_. ?S) w2"
        unfolding save_def Let_def wp_run
      proof (rule wp_db_run_ids)
        fix x d
        assume "(case find_row queue_repo (entity_key queue_repo e) (db w2) of
           None \<Rightarrow> map_sum (\<lambda>e. e) (\<lambda>(_, d'). ((), d')) (insert_row queue_repo (to_persistence queue_repo e) (db w2))
         | Some _ \<Rightarrow> map_sum (\<lambda>e. e) (\<lambda>(_, d'). ((), d')) (modify_row queue_repo (entity_key queue_repo e)
             (\<lambda>old. keep_created queue_repo old (to_persistence queue_repo e)) (db w2))) = Inr (x, d)"
        with q w2 obtain y where "modify_row queue_repo (e_id e) (\<lambda>old. keep_created_row old (toPersistence e)) (db w) = Inr (y, d)"
          by (auto simp: modify_row_def)
        then show "db_ids d \<subseteq> db_ids (db w)"
          by (simp add: modify_row_db_ids keep_created_row_def)
      qed (simp add: w2)
      then show ?thesis
        unfolding wp_bindE
        by (rule wp_mono) (use k in \<open>auto simp: stays_def same_db_def wp_snd\<close>)
    qed
    have rest: "stays same_db (bindE (ask_cfg cfg_ticketDeepLinkBaseUrl) (\<lambda>base.
        let deepLink = deep_link base (e_id e) in
        bindE (dispatch_notification e deepLink) (\<lambda>notificationDispatched.
        bindE (called_message e deepLink) (\<lambda>_.
        bindE (or_now (e_lastRingedAt e)) (\<lambda>t.
        retE \<lparr> go_queueEntryId = e_id e, go_restaurantId = e_restaurantId e, go_guestName = e_guestName e,
               go_ringCount = e_ringCount e, go_lastRingedAt = t,
               go_notificationDispatched = notificationDispatched \<rparr>)))))" for e
      unfolding Let_def
      by (intro same_db.stays_bindE same_db.stays_retE ask_cfg_same_db or_now_same_db quiet_same_db [OF dispatch_quiet]
          quiet_same_db [OF called_quiet])
    show "wp (bindE new_date (\<lambda>t1. bindE new_date (\<lambda>t2.
        bindE (liftE DomainError (ring t1 t2 (toDomain r))) (\<lambda>entry. bindE (save queue_repo entry) (\<lambda>_.
        bindE (ask_cfg cfg_ticketDeepLinkBaseUrl) (\<lambda>base.
        let deepLink = deep_link base (e_id entry) in
        bindE (dispatch_notification entry deepLink) (\<lambda>notificationDispatched.
        bindE (called_message entry deepLink) (\<lambda>_.
        bindE (or_now (e_lastRingedAt entry)) (\<lambda>t.
        retE \<lparr> go_queueEntryId = e_id entry, go_restaurantId = e_restaurantId entry, go_guestName = e_guestName entry,
               go_ringCount = e_ringCount entry, go_lastRingedAt = t,
               go_notificationDispatched = notificationDispatched \<rparr>))))))))) (\<lambda>_. ?S) (\<lambda>_. ?S) w1"
      unfolding new_date_def wp_bindE [of "ask clock"] wp_bindE [of "liftE c v" for c v] wp_ask wp_liftE
    proof (split sum.split, intro conjI allI impI)
      fix e assume "ring (clock (ext w1) (tick w1)) (clock (ext (w1\<lparr> tick := Suc (tick w1) \<rparr>)) (tick (w1\<lparr> tick := Suc (tick w1) \<rparr>)))
          (toDomain r) = Inr e"
      then have id: "e_id e = r_id r" by (auto simp: ring_Inr)
      show "wp (bindE (save queue_repo e) (\<lambda>_. bindE (ask_cfg cfg_ticketDeepLinkBaseUrl) (\<lambda>base.
          let deepLink = deep_link base (e_id e) in
          bindE (dispatch_notification e deepLink) (\<lambda>notificationDispatched.
          bindE (called_message e deepLink) (\<lambda>_.
          bindE (or_now (e_lastRingedAt e)) (\<lambda>t.
          retE \<lparr> go_queueEntryId = e_id e, go_restaurantId = e_restaurantId e, go_guestName = e_guestName e,
                 go_ringCount = e_ringCount e, go_lastRingedAt = t,
                 go_notificationDispatched = notificationDispatched \<rparr>)))))) (\<lambda>_. ?S) (\<lambda>_. ?S)
          (w1\<lparr> tick := Suc (tick w1), tick := Suc (tick (w1\<lparr> tick := Suc (tick w1) \<rparr>)) \<rparr>)"
        by (rule saved [OF id _ rest]) (simp add: w1)
    qed (simp_all add: w1)
  qed simp
qed

lemma handle_draws: "stays draws (handle req)"
proof -
  have q: "stays draws (eta_execute_query r n)" "stays draws (staff_queue_execute si)"
      "stays draws (active_queue_execute rid u)" "stays draws (customer_status_execute u)" for r n si rid u
    by (rule draws_same; intro eta_query_same_db query_use_cases_same_db same_env.st_query_use_cases)+
  show ?thesis
    by (cases req) (auto simp: answer_def intro!: draws.stays_bindE q draws_register draws_seating draws_skip draws_cancel draws_ring)
qed

lemma after_draws: "draws (start_world en) (after en reqs)"
proof (induction reqs rule: rev_induct)
  case Nil
  then show ?case by (simp add: after_def serve_def draws.R_refl)
next
  case (snoc req reqs)
  have "draws (after en reqs) (after en (reqs @ [req]))"
    using handle_draws [of req] by (simp add: after_def serve_def stays_def)
  with snoc show ?case by (rule draws.R_trans)
qed

text \<open>A source that never repeats itself keeps giving new identifiers.\<close>

lemma fresh_after: "inj (random_uuid en) \<Longrightarrow> fresh_ids (after en reqs)"
proof -
  assume inj: "inj (random_uuid en)"
  let ?w = "after en reqs"
  have sub: "db_ids (db ?w) \<subseteq> random_uuid en ` {0..<tick ?w}"
    using after_draws [of en reqs] by (simp add: draws_def drawn_def start_world_def empty_database_def db_ids_def)
  have "random_uuid en t \<notin> db_ids (db ?w)" if "tick ?w \<le> t" for t
  proof
    assume "random_uuid en t \<in> db_ids (db ?w)"
    with sub obtain s where "s < tick ?w" "random_uuid en t = random_uuid en s" by auto
    with injD [OF inj] that show False by fastforce
  qed
  then show "fresh_ids ?w" using inj_on_subset [OF inj] by (auto simp: fresh_ids_def db_ids_def)
qed

end
