(* ===== verification/Demo.thy ===== *)
theory Demo
  imports HttpRules FreshIds
begin

text \<open>
  A concrete environment in which every service answers and nothing fails, and a few requests: the
  inputs at which the properties are evaluated.
\<close>

definition open_restaurant :: "uuid \<Rightarrow> status_result" where
  "open_restaurant i = \<lparr> rs_restaurantId = i, rs_isBlocked = False, rs_blockReason = None,
     rs_isSubscriptionActive = True, rs_subscriptionPlanCode = Some QUEUE_PRO \<rparr>"

definition demo_env :: env where
  "demo_env =
     \<lparr> clock = (\<lambda>t. 60000 * int t), random_uuid = (\<lambda>t. show_nat t), local_midnight = (\<lambda>_. 0),
       db_fault = (\<lambda>_. None), redis_fault = (\<lambda>_. None), socket_up = (\<lambda>_. True),
       socket_fault = (\<lambda>_. None), bull_fault = (\<lambda>_. None), mq_fault = (\<lambda>_. None),
       gate_at = (\<lambda>_. Pass), breaker_falls_back = (\<lambda>_. True),
       http_status = (\<lambda>_ i. Inr (Some \<lparr> env_success = Some True, env_data = Some (open_restaurant i),
         env_message = None \<rparr>)),
       http_availability = (\<lambda>_ i n. Inr (Some \<lparr> env_success = Some True,
         env_data = Some \<lparr> av_restaurantId = i, av_isOpen = True, av_acceptsQueue = True,
           av_isTableAvailable = False, av_availableCount = 0 \<rparr>, env_message = None \<rparr>)),
       http_assign = (\<lambda>_ _ _. Inr (Some \<lparr> env_success = Some True, env_data = Some (), env_message = None \<rparr>)),
       http_release = (\<lambda>_ _ _. Inr (Some \<lparr> env_success = Some True, env_data = Some (), env_message = None \<rparr>)),
       http_eta = (\<lambda>_ _ n _. Inr (Some (JFinite (of_int (4 * n))))),
       cfg = \<lparr> cfg_useMock = False, cfg_timeoutMs = 3000, cfg_ticketDeepLinkBaseUrl = None \<rparr> \<rparr>"

definition demo_guest :: "string \<Rightarrow> register_input" where
  "demo_guest ph =
     \<lparr> ri_restaurantId = ''r'', ri_userId = None, ri_staffUserId = Some ''s'', ri_guestName = ''g'',
       ri_guestPhone = ph, ri_partySize = 2, ri_specialNotes = None, ri_fid = None,
       ri_registrationType = None \<rparr>"

definition demo_online_guest :: register_input where
  "demo_online_guest = (demo_guest ''1'')\<lparr> ri_userId := Some ''u'', ri_staffUserId := None \<rparr>"

text \<open>
  A framework that satisfies the contract of zod: one restaurant and one entry pass, the body of a
  request is its list of tables.
\<close>

definition demo_framework :: "(uuid list) framework" where
  "demo_framework =
     \<lparr> fw_production = True, fw_orderPublicKey = None, fw_restaurantPublicKey = None,
       fw_verify = (\<lambda>_ _ _. S2SPass),
       zs_restaurant = (\<lambda>_ ps. if ps ''restaurantId'' = JStr ''r1'' then Inr ''r1'' else Inl []),
       zs_entry = (\<lambda>_ ps. if ps ''queueEntryId'' = JStr ''e1'' then Inr ''e1'' else Inl []),
       zs_restaurant_entry = (\<lambda>_ ps. if ps ''restaurantId'' = JStr ''r1'' \<and> ps ''queueEntryId'' = JStr ''e1''
         then Inr (''r1'', ''e1'') else Inl []),
       zs_restaurant_user = (\<lambda>_. Inl []), zs_user = (\<lambda>_. Inl []), zs_eta_query = (\<lambda>_. Inr 2),
       zs_staff_query = (\<lambda>_. Inr (None, None)),
       zs_join_body = (\<lambda>null _. Inr \<lparr> jb_guestName = ''Ann'', jb_guestPhone = ''+15551234567'', jb_partySize = 2,
         jb_specialNotes = null (Some []), jb_fid = null None \<rparr>),
       zs_walk_in_body = (\<lambda>_. Inl []),
       zs_assign_body = (\<lambda>refine ids. let ts = map (\<lambda>i. \<lparr> at_tableId = i, at_count = 4 \<rparr>) ids in
         if refine ts = [] then Inr ts else Inl (refine ts)),
       zs_seat_body = (\<lambda>refine ids. if refine ids = [] then Inr ids else Inl (refine ids)),
       zs_skip_body = (\<lambda>_. Inl []), zs_cancel_body = (\<lambda>_ _. Inl []) \<rparr>"

lemma demo_framework_contract: "zod_contract demo_framework"
  by (auto simp: zod_contract_def demo_framework_def Let_def js_trim_def js_space_def split: if_splits)

definition demo_seat_request :: "(uuid list) http_request" where
  "demo_seat_request =
     \<lparr> hq_route = None, hq_internal = False, hq_method = ''POST'', hq_path = [],
       hq_headers = (\<lambda>_. JUndef)(''x-user-id'' := JStr ''s1'', ''x-user-role'' := JStr ''staff'',
         ''x-restaurant-id'' := JStr ''r1''),
       hq_values = (\<lambda>_. [])(''restaurantId'' := ''r1'', ''queueEntryId'' := ''e1''),
       hq_query = [], hq_body = Inr [''t1'', ''t2''] \<rparr>"

lemma demo_env_good:
  "healthy demo_env" "grants demo_env" "admits demo_env ''r'' 2" "inj (random_uuid demo_env)"
proof -
  show "healthy demo_env" "grants demo_env" "admits demo_env ''r'' 2"
    by (simp_all add: healthy_def grants_def admits_def demo_env_def open_restaurant_def QUEUE_PRO_def)
  have "inj show_nat" by (rule inj_on_inverseI [of _ read_nat]) simp
  then show "inj (random_uuid demo_env)" by (simp add: demo_env_def)
qed

text \<open>A guest who registered in this environment waits.\<close>

lemma demo_guest_admitted: "\<not> waits_already (demo_guest ''1'') (db (after demo_env []))"
  by (simp add: waits_already_def after_def serve_def start_world_def empty_database_def)

lemma demo_guest_registered:
  assumes "ri_restaurantId g = ''r''" and "ri_partySize g = 2"
  shows "\<exists>r \<in> set (entries (db (after demo_env [RegisterReq g]))).
    r_restaurantId r = ''r'' \<and> r_status r = WAITING \<and> r_registrationType r = resolved_type g"
proof -
  let ?w = "after demo_env []"
  have "\<not> waits_already g (db ?w)"
    by (simp add: waits_already_def after_def serve_def start_world_def empty_database_def)
  then have "returns (register_execute g) ?w"
    using register_returns [of ?w g] fresh_after [of demo_env "[]"] demo_env_good assms by simp
  then obtain out w' where run: "register_execute g ?w = (Inr out, w')" by (auto simp: returns_Inr)
  have "wp (register_execute g) (\<lambda>out w'. registered g out (db ?w) (db w')) (\<lambda>_ _. True) ?w"
    by (rule wp_register) (simp_all add: after_inv)
  from wp_Inr [OF this run] assms obtain e where e: "entries (db w') = entries (db ?w) @ [toPersistence e]"
    "e_restaurantId e = ''r''" "e_status e = WAITING" "e_registrationType e = resolved_type g"
    by (auto simp: registered_def)
  moreover have "after demo_env [RegisterReq g] = w'"
    using run by (simp add: after_def serve_def answer_def bindE_def retE_def)
  ultimately show ?thesis by (intro bexI [of _ "toPersistence e"]) simp_all
qed

lemma demo_guest_waits: "\<exists>i. waits ''r'' i (db (after demo_env [RegisterReq (demo_guest ''1'')]))"
  using demo_guest_registered [of "demo_guest ''1''"] by (auto simp: demo_guest_def intro: waitsI)

end
