(* ===== verification/WaitingLine.thy ===== *)
theory WaitingLine
  imports Tenancy
begin

text \<open>
  The waiting line of a restaurant as an abstract queue: the list of the identifiers of its waiting
  entries, in order. \<open>line_spec\<close> says what a request does to the line of its restaurant, when it returns
  with a response and when it rejects; the lemmas show that the use cases, with their database, live state, predictions
  and recalculations, do no more than that.
\<close>

definition line_left :: "uuid \<Rightarrow> uuid list \<Rightarrow> uuid list \<Rightarrow> bool" where
  "line_left i xs ys \<longleftrightarrow> i \<in> set xs \<and> ys = filter (\<lambda>k. k \<noteq> i) xs"

definition line_moved :: "uuid \<Rightarrow> int \<Rightarrow> uuid list \<Rightarrow> uuid list \<Rightarrow> bool" where
  "line_moved i n xs ys \<longleftrightarrow>
     list_ex (\<lambda>k. xs ! k = i \<and> ys = move_item k (min (k + nat n) (length xs - 1)) xs) [0..<length xs]"

fun line_spec :: "request \<Rightarrow> response option \<Rightarrow> uuid list \<Rightarrow> uuid list \<Rightarrow> bool" where
  "line_spec (RegisterReq i) res xs ys \<longleftrightarrow>
     (case res of
        None \<Rightarrow> ys = xs
      | Some (RegisterRes out) \<Rightarrow> ro_queueEntryId out \<notin> set xs \<and> distinct ys \<and> line_left (ro_queueEntryId out) ys xs
      | Some _ \<Rightarrow> False)"
| "line_spec (AssignReq i) res xs ys \<longleftrightarrow> (if res = None then ys = xs else line_left (ai_queueEntryId i) xs ys)"
| "line_spec (SeatReq i) res xs ys \<longleftrightarrow> res = None \<and> ys = xs \<or> line_left (sp_queueEntryId i) xs ys"
| "line_spec (CancelReq i) res xs ys \<longleftrightarrow> res = None \<and> ys = xs \<or> line_left (ci_queueEntryId i) xs ys"
| "line_spec (SkipReq i) res xs ys \<longleftrightarrow>
     (if res = None then line_skipped (sk_queueEntryId i) xs ys
      else case sk_skipPositions i of
        Some n \<Rightarrow> if 0 < n then line_moved (sk_queueEntryId i) n xs ys else line_left (sk_queueEntryId i) xs ys
      | None \<Rightarrow> line_left (sk_queueEntryId i) xs ys)"
| "line_spec (RingReq i) res xs ys \<longleftrightarrow> ys = xs \<and> (res \<noteq> None \<longrightarrow> rg_queueEntryId i \<in> set xs)"
| "line_spec _ res xs ys \<longleftrightarrow> ys = xs"

subsection \<open>Lines and replaced rows\<close>

lemma insort_key_map: "(\<And>y. k (g y) = k y) \<Longrightarrow> insort_key k (g x) (map g xs) = map g (insort_key k x xs)"
  by (induction xs) auto

lemma sort_key_map_same: "(\<And>y. k (g y) = k y) \<Longrightarrow> sort_key k (map g xs) = map g (sort_key k xs)"
  by (induction xs) (simp_all add: insort_key_map)

text \<open>A ring keeps the place of the entry.\<close>

lemma rung_line:
  assumes inv: "db_inv d" and rung: "rung i out d d'"
  shows "queue_ids rid d' = queue_ids rid d"
proof -
  from rung obtain r e t1 t2 where r: "r \<in> set (entries d)" and run: "ring t1 t2 (toDomain r) = Inr e"
    and rep: "row_replaced e d d'"
    by (auto simp: rung_def)
  have e: "e_id e = r_id r" "e_status e = r_status r" "e_restaurantId e = r_restaurantId r"
    "e_position e = r_position r" "e_joinedAt e = r_joinedAt r"
    using run by (simp_all add: ring_Inr)
  define g where "g q = (if q = r then toPersistence e else q)" for q
  have at: "at_id (e_id e) (\<lambda>_. toPersistence e) q = g q" if "q \<in> set (entries d)" for q
    using db_inv_row_eq [OF inv that r] e(1) by (auto simp: at_id_def g_def)
  then have d': "entries d' = map g (entries d)" using rep by (simp add: row_replaced_def)
  have same: "waiting_at rid (g q) = waiting_at rid q" "queue_order (g q) = queue_order q" "r_id (g q) = r_id q" for q
    using e by (auto simp: g_def waiting_at_def queue_order_def)
  have "filter (waiting_at rid) (map g xs) = map g (filter (waiting_at rid) xs)" for xs
    by (induction xs) (simp_all add: same)
  then show ?thesis
    by (simp add: queue_ids_def active_rows_def d' sort_key_map_same [of queue_order g, OF same(2)] same comp_def)
qed

lemma rung_in:
  assumes "rung i out d d'"
  shows "rg_queueEntryId i \<in> set (queue_ids (rg_restaurantId i) d)"
proof -
  from assms obtain r where "r \<in> set (entries d)" "r_id r = rg_queueEntryId i" "r_restaurantId r = rg_restaurantId i"
    "r_status r = WAITING"
    unfolding rung_def by blast
  then show ?thesis by (force simp: queue_ids_def set_active_rows waiting_at_def)
qed

text \<open>A registration puts one new entry into the line and keeps the order of the others.\<close>

lemma registered_line:
  assumes inv: "db_inv d'" and reg: "registered i out d d'"
  shows "line_spec (RegisterReq i) (Some (RegisterRes out)) (queue_ids (ri_restaurantId i) d) (queue_ids (ri_restaurantId i) d')"
proof -
  let ?rid = "ri_restaurantId i"
  from reg obtain e where d': "entries d' = entries d @ [toPersistence e]"
    and e: "e_restaurantId e = ?rid" "e_status e = WAITING" and out: "ro_queueEntryId out = e_id e"
    by (auto simp: registered_def register_toOutputDTO_def)
  have ids: "distinct (map r_id (entries d'))" using db_invD(5) [OF inv] .
  have new: "e_id e \<notin> r_id ` set (entries d)" using ids by (simp add: d')
  have wait: "waiting_at ?rid (toPersistence e)" using e by (simp add: waiting_at_def)
  have "filter (\<lambda>q. r_id q \<noteq> e_id e) (filter (waiting_at ?rid) (entries d')) = filter (waiting_at ?rid) (entries d)"
  proof -
    have "filter (\<lambda>q. r_id q \<noteq> e_id e) (filter (waiting_at ?rid) (entries d)) = filter (waiting_at ?rid) (entries d)"
      by (rule filter_True) (use new in force)
    then show ?thesis by (simp add: d' wait)
  qed
  then have rows: "filter (\<lambda>q. r_id q \<noteq> e_id e) (active_rows ?rid d') = active_rows ?rid d"
    by (simp add: active_rows_def filter_sort)
  have "filter (\<lambda>k. k \<noteq> e_id e) (queue_ids ?rid d') = queue_ids ?rid d"
    using rows by (simp add: queue_ids_def filter_map comp_def)
  moreover have "e_id e \<in> set (queue_ids ?rid d')"
    using wait by (force simp: queue_ids_def set_active_rows d')
  moreover have "e_id e \<notin> set (queue_ids ?rid d)"
    using new by (auto simp: queue_ids_def set_active_rows)
  moreover have "distinct (queue_ids ?rid d')"
    using distinct_active_ids [OF inv, of ?rid] by (simp add: queue_ids_def)
  ultimately show ?thesis by (simp add: out line_left_def)
qed

lemma seats_in: "seats rid i d e \<Longrightarrow> i \<in> set (queue_ids rid d)"
  by (force simp: seats_def queue_ids_def set_active_rows waiting_at_def)

lemma tables_assigned_line:
  "tables_assigned i out d d' \<Longrightarrow>
   line_left (ai_queueEntryId i) (queue_ids (ai_restaurantId i) d) (queue_ids (ai_restaurantId i) d')"
  unfolding tables_assigned_def line_left_def using queue_ids_leave seatsD seats_in by fastforce

lemma party_seated_line:
  "party_seated i out d d' \<Longrightarrow>
   line_left (sp_queueEntryId i) (queue_ids (sp_restaurantId i) d) (queue_ids (sp_restaurantId i) d')"
  unfolding party_seated_def left_queue_def line_left_def using seatsD(1) seats_in by fastforce

lemma seat_rejected_line:
  "seat_rejected i d d' \<Longrightarrow> queue_ids (sp_restaurantId i) d' = queue_ids (sp_restaurantId i) d \<or>
   line_left (sp_queueEntryId i) (queue_ids (sp_restaurantId i) d) (queue_ids (sp_restaurantId i) d')"
  unfolding seat_rejected_def line_left_def using seatsD(1) seats_in by fastforce

lemma cancels_in: "cancels i d e \<Longrightarrow> ci_queueEntryId i \<in> set (queue_ids (ci_restaurantId i) d)"
  by (force simp: cancels_def queue_ids_def set_active_rows waiting_at_def)

lemma entry_cancelled_line:
  "entry_cancelled i out d d' \<Longrightarrow>
   line_left (ci_queueEntryId i) (queue_ids (ci_restaurantId i) d) (queue_ids (ci_restaurantId i) d')"
  unfolding entry_cancelled_def left_queue_def line_left_def using cancelsD(1) cancels_in by fastforce

lemma cancel_rejected_line:
  "cancel_rejected i d d' \<Longrightarrow> queue_ids (ci_restaurantId i) d' = queue_ids (ci_restaurantId i) d \<or>
   line_left (ci_queueEntryId i) (queue_ids (ci_restaurantId i) d) (queue_ids (ci_restaurantId i) d')"
  unfolding cancel_rejected_def line_left_def using cancelsD(1) cancels_in by fastforce

lemma skips_in: "skips i d e \<Longrightarrow> e_id e = sk_queueEntryId i \<and> sk_queueEntryId i \<in> set (queue_ids (sk_restaurantId i) d)"
  by (force simp: skips_def skip_Inr queue_ids_def set_active_rows waiting_at_def)

lemma party_skipped_line:
  assumes "party_skipped i out d d'"
  shows "line_spec (SkipReq i) (Some res) (queue_ids (sk_restaurantId i) d) (queue_ids (sk_restaurantId i) d')"
proof -
  from assms obtain e where n: "\<forall>n. sk_skipPositions i = Some n \<longrightarrow> n \<le> 0" and e: "skips i d e"
    and left: "left_queue (sk_restaurantId i) e d d'"
    unfolding party_skipped_def by blast
  have "line_left (sk_queueEntryId i) (queue_ids (sk_restaurantId i) d) (queue_ids (sk_restaurantId i) d')"
    using left skips_in [OF e] by (simp add: left_queue_def line_left_def)
  then show ?thesis using n by (auto split: option.split)
qed

lemma party_shifted_line:
  assumes "party_shifted i out d d'"
  shows "line_spec (SkipReq i) (Some res) (queue_ids (sk_restaurantId i) d) (queue_ids (sk_restaurantId i) d')"
proof -
  let ?ids = "queue_ids (sk_restaurantId i) d"
  from assms obtain n k where n: "sk_skipPositions i = Some n" "0 < n" and k: "k < length ?ids" "?ids ! k = sk_queueEntryId i"
    and d': "queue_ids (sk_restaurantId i) d' = move_item k (min (k + nat n) (length ?ids - 1)) ?ids"
    unfolding party_shifted_def Let_def by blast
  have "line_moved (sk_queueEntryId i) n ?ids (queue_ids (sk_restaurantId i) d')"
    unfolding line_moved_def list_ex_iff by (rule bexI [of _ k]) (use k d' in simp_all)
  with n show ?thesis by simp
qed

subsection \<open>Every request is a step of its line\<close>

definition line_step :: "request \<Rightarrow> ('a \<Rightarrow> response) \<Rightarrow> uuid \<Rightarrow> 'a io \<Rightarrow> world \<Rightarrow> bool" where
  "line_step req f rid m w \<longleftrightarrow>
     (case m w of
        (Inl _, w') \<Rightarrow> line_spec req None (queue_ids rid (db w)) (queue_ids rid (db w'))
      | (Inr x, w') \<Rightarrow> line_spec req (Some (f x)) (queue_ids rid (db w)) (queue_ids rid (db w')))"

lemma line_stepI:
  "wp m (\<lambda>x w'. line_spec req (Some (f x)) (queue_ids rid (db w)) (queue_ids rid (db w')))
     (\<lambda>_ w'. line_spec req None (queue_ids rid (db w)) (queue_ids rid (db w'))) w \<Longrightarrow> line_step req f rid m w"
  by (simp add: line_step_def wp_def)

lemma line_steps:
  assumes inv: "db_inv (db w)"
  shows "line_step (RegisterReq a) RegisterRes (ri_restaurantId a) (register_execute a) w"
    "line_step (AssignReq b) SeatedRes (ai_restaurantId b) (assign_execute b) w"
    "line_step (SeatReq c) SeatedRes (sp_restaurantId c) (seat_execute c) w"
    "line_step (SkipReq e) SkipRes (sk_restaurantId e) (skip_execute e) w"
    "line_step (CancelReq f) CancelRes (ci_restaurantId f) (cancel_execute f) w"
    "line_step (RingReq g) RingRes (rg_restaurantId g) (ring_execute g) w"
proof -
  show "line_step (RegisterReq a) RegisterRes (ri_restaurantId a) (register_execute a) w"
    by (rule line_stepI, rule wp_register [OF inv]) (auto dest: registered_line simp del: line_spec.simps, simp)
  show "line_step (AssignReq b) SeatedRes (ai_restaurantId b) (assign_execute b) w"
    by (rule line_stepI, rule wp_assign [OF inv]) (auto dest: tables_assigned_line)
  show "line_step (SeatReq c) SeatedRes (sp_restaurantId c) (seat_execute c) w"
    by (rule line_stepI, rule wp_seat [OF inv]) (auto dest: party_seated_line seat_rejected_line)
  show "line_step (SkipReq e) SkipRes (sk_restaurantId e) (skip_execute e) w"
    by (rule line_stepI, rule wp_skip [OF inv])
      (auto intro: party_skipped_line party_shifted_line simp del: line_spec.simps, simp add: skip_rejected_def)
  show "line_step (CancelReq f) CancelRes (ci_restaurantId f) (cancel_execute f) w"
    by (rule line_stepI, rule wp_cancel [OF inv]) (auto dest: entry_cancelled_line cancel_rejected_line)
  show "line_step (RingReq g) RingRes (rg_restaurantId g) (ring_execute g) w"
    by (rule line_stepI, rule wp_ring [OF inv]) (use rung_line [OF inv] rung_in in auto)
qed

lemma line_step_same: "stays same_db m \<Longrightarrow> (\<And>res ys. line_spec req res ys ys) \<Longrightarrow> line_step req f rid m w"
  by (cases "m w"; cases "fst (m w)") (auto simp: line_step_def stays_def same_db_def dest: spec [of _ w])

lemma line_step_answer: "line_step req f rid m w \<Longrightarrow> line_step req (\<lambda>r. r) rid (answer f m) w"
  by (cases "m w"; cases "fst (m w)") (auto simp: line_step_def answer_def bindE_def retE_def)

lemma handle_line:
  assumes "db_inv (db w)" and "restaurant_of req = Some rid"
  shows "line_step req (\<lambda>r. r) rid (handle req) w"
  using assms(2)
  by (cases req)
    (auto intro!: line_step_answer line_steps [OF assms(1)] line_step_same eta_query_same_db query_use_cases_same_db)

end
