(* ===== verification/Push.thy ===== *)
theory Push
  imports Messages "HOL-Library.AList"
begin

text \<open>
  Push notifications behind the job queue: the client of Firebase (\<open>firebase.client.ts\<close>), the service
  that sends one message with bounded retries (\<open>firebase-push-notification.service.ts\<close>) and the
  worker that runs a job (\<open>notification.worker.ts\<close>). The Firebase SDK is the parameter \<open>fcm\<close>: what
  the n-th call of \<open>send\<close> answers. The loop is a function that ends because the attempts left
  decrease; \<open>first_settled\<close> is the reference it is shown equal to.
\<close>

subsection \<open>The messaging client\<close>

record fcm_error =
  fe_code :: "string option"
  fe_message :: "string option"
  fe_text :: string

record fcm_message =
  fm_fid :: string
  fm_title :: string
  fm_body :: string
  fm_data :: "(string \<times> string) list"
  fm_link :: "string option"
  fm_androidPriority :: string
  fm_androidChannelId :: string
  fm_androidSound :: string
  fm_apnsSound :: string
  fm_apnsBadge :: int

record push_env =
  pe_enabled :: bool
  pe_apps :: bool
  pe_projectId :: "string option"
  pe_clientEmail :: "string option"
  pe_privateKey :: "string option"
  pe_init :: "string \<times> string \<times> string \<Rightarrow> bool"
  pe_fcm :: "nat \<Rightarrow> fcm_message \<Rightarrow> fcm_error + string"
  pe_maxRetries :: int
  pe_retryDelayMs :: int

record push_state =
  ps_client :: bool
  ps_calls :: "fcm_message list"
  ps_sleeps :: "int list"

text \<open>\<open>replace(/\\n/g, '\n')\<close>: a backslash followed by an n becomes a line feed.\<close>

fun unescape_newlines :: "string \<Rightarrow> string" where
  "unescape_newlines (c # d # s) =
     (if c = CHR 0x5C \<and> d = CHR ''n'' then CHR 0x0A # unescape_newlines s else c # unescape_newlines (d # s))"
| "unescape_newlines s = s"

text \<open>Whether there is a messaging client; it is created once and kept.\<close>

definition getFirebaseMessaging :: "push_env \<Rightarrow> push_state \<Rightarrow> bool \<times> push_state" where
  "getFirebaseMessaging en s =
     (if \<not> pe_enabled en then (False, s)
      else if ps_client s then (True, s)
      else if pe_apps en then (True, s\<lparr> ps_client := True \<rparr>)
      else if \<not> truthy (pe_projectId en) \<or> \<not> truthy (pe_clientEmail en) \<or> \<not> truthy (pe_privateKey en)
      then (False, s)
      else if pe_init en (the (pe_projectId en), the (pe_clientEmail en), unescape_newlines (the (pe_privateKey en)))
      then (True, s\<lparr> ps_client := True \<rparr>)
      else (False, s))"

subsection \<open>Sending one message\<close>

definition INVALID_TOKEN_ERROR_CODES :: "string list" where
  "INVALID_TOKEN_ERROR_CODES =
     [''messaging/invalid-registration-token'', ''messaging/registration-token-not-registered'',
      ''messaging/invalid-argument'']"

definition PERMANENT_CLIENT_ERROR_CODES :: "string list" where
  "PERMANENT_CLIENT_ERROR_CODES =
     [''messaging/authentication-error'', ''messaging/mismatched-credential'', ''messaging/forbidden'',
      ''messaging/invalid-payload'', ''messaging/payload-size-limit-exceeded'',
      ''messaging/invalid-data-payload-key'', ''messaging/third-party-auth-error'',
      ''messaging/invalid-recipient'', ''messaging/invalid-options'']"

definition MISSING_TOKEN :: string where "MISSING_TOKEN = ''Missing or invalid token format''"
definition MAX_RETRIES_EXCEEDED :: string where "MAX_RETRIES_EXCEEDED = ''Max bounded retries exceeded''"
definition MOCK_MESSAGE_ID :: string where "MOCK_MESSAGE_ID = ''mock-fcm-id''"

record push_result =
  pr_success :: bool
  pr_messageId :: "string option"
  pr_error :: "string option"
  pr_isTokenInvalid :: bool

definition push_sent :: "string \<Rightarrow> push_result" where
  "push_sent messageId = \<lparr> pr_success = True, pr_messageId = Some messageId, pr_error = None, pr_isTokenInvalid = False \<rparr>"

definition push_failed :: "string \<Rightarrow> bool \<Rightarrow> push_result" where
  "push_failed error invalid =
     \<lparr> pr_success = False, pr_messageId = None, pr_error = Some error, pr_isTokenInvalid = invalid \<rparr>"

text \<open>The data of the payload with the deep link set, as an object assignment sets a property.\<close>

definition enriched_data :: "push_payload \<Rightarrow> (string \<times> string) list" where
  "enriched_data payload =
     (if truthy (pp_deepLink payload)
      then AList.update ''deepLink'' (the (pp_deepLink payload)) (pp_data payload)
      else pp_data payload)"

definition push_message :: "push_payload \<Rightarrow> fcm_message" where
  "push_message payload =
     \<lparr> fm_fid = pp_fid payload, fm_title = pp_title payload, fm_body = pp_body payload,
       fm_data = enriched_data payload,
       fm_link = (if truthy (pp_deepLink payload) then pp_deepLink payload else None),
       fm_androidPriority = ''high'', fm_androidChannelId = ''queue_alerts'', fm_androidSound = ''default'',
       fm_apnsSound = ''default'', fm_apnsBadge = 1 \<rparr>"

definition fcm_code :: "fcm_error \<Rightarrow> string" where
  "fcm_code e = or_else (fe_code e) []"

definition fcm_text :: "fcm_error \<Rightarrow> string" where
  "fcm_text e = or_else (fe_message e) (fe_text e)"

definition fcm_call :: "push_env \<Rightarrow> fcm_message \<Rightarrow> push_state \<Rightarrow> (fcm_error + string) \<times> push_state" where
  "fcm_call en m s = (pe_fcm en (length (ps_calls s)) m, s\<lparr> ps_calls := ps_calls s @ [m] \<rparr>)"

definition sleep :: "int \<Rightarrow> push_state \<Rightarrow> push_state" where
  "sleep ms s = s\<lparr> ps_sleeps := ps_sleeps s @ [ms] \<rparr>"

function send_loop :: "push_env \<Rightarrow> fcm_message \<Rightarrow> int \<Rightarrow> push_state \<Rightarrow> push_result \<times> push_state" where
  "send_loop en m tries s =
     (if tries \<le> pe_maxRetries en then
        (case fcm_call en m s of
           (Inr messageId, s1) \<Rightarrow> (push_sent messageId, s1)
         | (Inl err, s1) \<Rightarrow>
             if fcm_code err \<in> set INVALID_TOKEN_ERROR_CODES then (push_failed (fcm_text err) True, s1)
             else if fcm_code err \<in> set PERMANENT_CLIENT_ERROR_CODES then (push_failed (fcm_text err) False, s1)
             else if tries + 1 \<le> pe_maxRetries en
             then send_loop en m (tries + 1) (sleep (pe_retryDelayMs en * (tries + 1)) s1)
             else (push_failed (fcm_text err) False, s1))
      else (push_failed MAX_RETRIES_EXCEEDED False, s))"
  by pat_completeness auto

termination
  by (relation "measure (\<lambda>(en, m, tries, s). nat (pe_maxRetries en + 1 - tries))") auto

declare send_loop.simps [simp del]

definition push_send :: "push_env \<Rightarrow> push_payload \<Rightarrow> push_state \<Rightarrow> push_result \<times> push_state" where
  "push_send en payload s =
     (case getFirebaseMessaging en s of
        (False, s1) \<Rightarrow> (push_sent MOCK_MESSAGE_ID, s1)
      | (True, s1) \<Rightarrow>
          if pp_fid payload = [] then (push_failed MISSING_TOKEN True, s1)
          else send_loop en (push_message payload) 0 s1)"

subsection \<open>The worker\<close>

text \<open>Processing a job throws when the message was not sent and the token is not to blame.\<close>

definition process_job :: "push_env \<Rightarrow> push_payload \<Rightarrow> (push_state, string, push_result) eff" where
  "process_job en payload s =
     (case push_send en payload s of
        (result, s1) \<Rightarrow>
          if \<not> pr_success result \<and> \<not> pr_isTokenInvalid result
          then (Inl (or_else (pr_error result) ''Push notification dispatch failed''), s1)
          else (Inr result, s1))"

subsection \<open>The loop and its reference\<close>

text \<open>An answer that ends the loop whatever retries are left.\<close>

definition settled :: "fcm_error + string \<Rightarrow> bool" where
  "settled a =
     (case a of
        Inr _ \<Rightarrow> True
      | Inl e \<Rightarrow> fcm_code e \<in> set INVALID_TOKEN_ERROR_CODES \<or> fcm_code e \<in> set PERMANENT_CLIENT_ERROR_CODES)"

definition answer_result :: "fcm_error + string \<Rightarrow> push_result" where
  "answer_result a =
     (case a of
        Inr i \<Rightarrow> push_sent i
      | Inl e \<Rightarrow> push_failed (fcm_text e) (fcm_code e \<in> set INVALID_TOKEN_ERROR_CODES))"

text \<open>The answers up to the first one that settles, or all of them.\<close>

fun first_settled :: "(fcm_error + string) list \<Rightarrow> (fcm_error + string) list" where
  "first_settled [] = []"
| "first_settled (a # as) = (if settled a then [a] else a # first_settled as)"

lemma first_settled_length: "length (first_settled as) \<le> length as"
  by (induction as) auto

lemma first_settled_Nil [simp]: "first_settled as = [] \<longleftrightarrow> as = []"
  by (cases as) auto

definition fcm_answers :: "push_env \<Rightarrow> fcm_message \<Rightarrow> nat \<Rightarrow> nat \<Rightarrow> (fcm_error + string) list" where
  "fcm_answers en m from n = map (\<lambda>k. pe_fcm en (from + k) m) [0..<n]"

lemma fcm_answers_Suc:
  "fcm_answers en m from (Suc n) = pe_fcm en from m # fcm_answers en m (Suc from) n"
  by (simp add: fcm_answers_def upt_conv_Cons map_Suc_upt [symmetric] del: upt_Suc)

lemma send_loop_run:
  assumes "pe_maxRetries en = tries + int n"
  shows "send_loop en m tries s =
    (let as = first_settled (fcm_answers en m (length (ps_calls s)) (Suc n))
     in (answer_result (last as),
         s\<lparr> ps_calls := ps_calls s @ replicate (length as) m,
            ps_sleeps := ps_sleeps s @ map (\<lambda>k. pe_retryDelayMs en * (tries + int k + 1)) [0..<length as - 1] \<rparr>))"
  using assms
proof (induction n arbitrary: tries s)
  case 0
  then show ?case
    by (auto simp: send_loop.simps [of en m tries s] fcm_call_def fcm_answers_Suc fcm_answers_def
        answer_result_def settled_def Let_def split: sum.split)
next
  case (Suc n)
  let ?s = "sleep (pe_retryDelayMs en * (tries + 1)) (s\<lparr> ps_calls := ps_calls s @ [m] \<rparr>)"
  let ?a = "pe_fcm en (length (ps_calls s)) m"
  show ?case
  proof (cases "settled ?a")
    case True
    with Suc.prems show ?thesis
      by (cases ?a) (auto simp: send_loop.simps [of en m tries s] fcm_call_def fcm_answers_Suc settled_def
          answer_result_def Let_def)
  next
    case False
    let ?as = "first_settled (fcm_answers en m (Suc (length (ps_calls s))) (Suc n))"
    have IH: "send_loop en m (tries + 1) ?s = (answer_result (last ?as),
        ?s\<lparr> ps_calls := ps_calls ?s @ replicate (length ?as) m,
            ps_sleeps := ps_sleeps ?s @ map (\<lambda>k. pe_retryDelayMs en * (tries + 1 + int k + 1)) [0..<length ?as - 1] \<rparr>)"
      using Suc.IH [of "tries + 1" ?s] Suc.prems by (simp add: sleep_def Let_def)
    have ne: "?as \<noteq> []" by (simp add: fcm_answers_def)
    have shift: "map (\<lambda>k. pe_retryDelayMs en * (tries + int k + 1)) [0..<length ?as] =
        pe_retryDelayMs en * (tries + 1) # map (\<lambda>k. pe_retryDelayMs en * (tries + 1 + int k + 1)) [0..<length ?as - 1]"
      using ne by (cases "length ?as") (simp_all add: upt_conv_Cons map_Suc_upt [symmetric] algebra_simps del: upt_Suc)
    obtain e where a: "?a = Inl e" using False by (cases ?a) (auto simp: settled_def)
    have step: "send_loop en m tries s = send_loop en m (tries + 1) ?s"
      using False Suc.prems a
      by (simp add: send_loop.simps [of en m tries s] fcm_call_def settled_def)
    show ?thesis
      unfolding step IH using False ne shift
      by (simp add: fcm_answers_Suc [of en m "length (ps_calls s)"] Let_def sleep_def)
  qed
qed


text \<open>Never more calls than the retries allow, even when none is.\<close>

lemma send_loop_calls:
  "length (ps_calls (snd (send_loop en m 0 s))) \<le> length (ps_calls s) + nat (pe_maxRetries en + 1)"
proof (cases "0 \<le> pe_maxRetries en")
  case True
  then obtain n where n: "pe_maxRetries en = 0 + int n" using nonneg_int_cases by fastforce
  have "length (first_settled (fcm_answers en m (length (ps_calls s)) (Suc n))) \<le> Suc n"
    using first_settled_length [of "fcm_answers en m (length (ps_calls s)) (Suc n)"] by (simp add: fcm_answers_def)
  then show ?thesis using n by (simp add: send_loop_run [OF n] Let_def nat_add_distrib)
qed (simp add: send_loop.simps [of en m 0 s])

lemma getFirebaseMessaging_calls [simp]:
  "ps_calls (snd (getFirebaseMessaging en s)) = ps_calls s" "ps_sleeps (snd (getFirebaseMessaging en s)) = ps_sleeps s"
  by (simp_all add: getFirebaseMessaging_def)

lemma push_send_calls:
  "length (ps_calls (snd (push_send en p s))) \<le> length (ps_calls s) + nat (pe_maxRetries en + 1)"
proof -
  obtain b s1 where g: "getFirebaseMessaging en s = (b, s1)" by fastforce
  then have "ps_calls s1 = ps_calls s" using getFirebaseMessaging_calls(1) [of en s] by simp
  with g send_loop_calls [of en "push_message p" s1] show ?thesis
    by (cases b) (simp_all add: push_send_def)
qed

lemma process_job_state [simp]: "snd (process_job en p s) = snd (push_send en p s)"
  by (simp add: process_job_def split: prod.split)

lemma process_jobs_calls:
  "length (ps_calls (((\<lambda>s. snd (process_job en p s)) ^^ k) s)) \<le> length (ps_calls s) + k * nat (pe_maxRetries en + 1)"
proof (induction k)
  case 0
  then show ?case by simp
next
  case (Suc k)
  then show ?case
    using push_send_calls [of en p "((\<lambda>s. snd (push_send en p s)) ^^ k) s"] by simp
qed

lemma push_send_run:
  assumes "getFirebaseMessaging en s = (True, s1)" and "pp_fid p \<noteq> []" and "pe_maxRetries en = int n"
  shows "push_send en p s =
    (let as = first_settled (fcm_answers en (push_message p) (length (ps_calls s1)) (Suc n))
     in (answer_result (last as),
         s1\<lparr> ps_calls := ps_calls s1 @ replicate (length as) (push_message p),
            ps_sleeps := ps_sleeps s1 @ map (\<lambda>k. pe_retryDelayMs en * (int k + 1)) [0..<length as - 1] \<rparr>))"
  using assms send_loop_run [of en 0 n "push_message p" s1] by (simp add: push_send_def)

end
