(* ===== verification/Process.thy ===== *)
theory Process
  imports Responses Effects "HOL-Library.Sublist"
begin

text \<open>
  The process around the service: the state of the Redis client and its service
  (\<open>redis.client.ts\<close>, \<open>redis.service.ts\<close>), the queues of the job service (\<open>bullmq.service.ts\<close>), the
  health check (\<open>health.service.ts\<close>, \<open>health.controller.ts\<close>), the socket server's closing
  (\<open>socket.server.ts\<close>, \<open>redis-adapter.ts\<close>) and the bootstrap and shutdown of \<open>server.ts\<close>. A call of a
  library object is a step of a log; which of them reject is given by the environment, by the name of
  the call and how many calls were made before.
\<close>

subsection \<open>The state of the process\<close>

datatype redis_status = RS_WAIT | RS_CONNECTING | RS_CONNECT | RS_READY | RS_RECONNECTING | RS_CLOSE | RS_END

record proc =
  p_calls :: "string list"
  p_redis :: redis_status
  p_queues :: "string list"
  p_adapter :: bool
  p_active_io :: bool
  p_shutting :: bool
  p_timer :: bool
  p_exits :: "int list"
  p_fails :: "string \<Rightarrow> nat \<Rightarrow> js_error option"

type_synonym 'a proc_io = "(proc, js_error, 'a) eff"

text \<open>Call a method of a library object: the call is made, and may reject.\<close>

definition call :: "string \<Rightarrow> unit proc_io" where
  "call name p =
     (let p' = p\<lparr> p_calls := p_calls p @ [name] \<rparr>
      in case p_fails p name (length (p_calls p)) of Some e \<Rightarrow> (Inl e, p') | None \<Rightarrow> (Inr (), p'))"

definition change :: "(proc \<Rightarrow> proc) \<Rightarrow> unit proc_io" where
  "change f p = (Inr (), f p)"

definition look :: "(proc \<Rightarrow> 'a) \<Rightarrow> 'a proc_io" where
  "look f p = (Inr (f p), p)"

text \<open>Calls one after the other, up to the first that rejects.\<close>

fun calls :: "string list \<Rightarrow> unit proc_io" where
  "calls [] = retE ()"
| "calls (n # ns) = bindE (call n) (\<lambda>_. calls ns)"

subsection \<open>Redis\<close>

text \<open>The delay before the next attempt to reconnect; \<open>None\<close> gives up.\<close>

definition retryStrategy :: "int \<Rightarrow> int option" where
  "retryStrategy retries = (if retries > 10 then None else Some (min (retries * 500) 5000))"

definition redis_connect :: "unit proc_io" where
  "redis_connect = bindE (look p_redis) (\<lambda>st. if st = RS_WAIT then call ''redis.connect'' else retE ())"

definition redis_disconnect :: "unit proc_io" where
  "redis_disconnect =
     bindE (look p_redis) (\<lambda>st.
     if st \<noteq> RS_END \<and> st \<noteq> RS_CLOSE \<and> st \<noteq> RS_WAIT then call ''redis.quit'' else retE ())"

subsection \<open>Health\<close>

text \<open>A probe answers, or rejects: the database any row, Redis and the job queue a text.\<close>

definition database_isHealthy :: "js_error + unit \<Rightarrow> bool" where
  "database_isHealthy probe = (case probe of Inl _ \<Rightarrow> False | Inr _ \<Rightarrow> True)"

definition redis_isHealthy :: "js_error + string \<Rightarrow> bool" where
  "redis_isHealthy ping = (case ping of Inl _ \<Rightarrow> False | Inr res \<Rightarrow> res = ''PONG'')"

definition bullmq_isHealthy :: "js_error + string \<Rightarrow> bool" where
  "bullmq_isHealthy ping = (case ping of Inl _ \<Rightarrow> False | Inr status \<Rightarrow> status = ''PONG'')"

datatype health_status = UP | DOWN

record health_result =
  hc_status :: health_status
  hc_timestamp :: millis
  hc_application :: health_status
  hc_database :: health_status
  hc_redis :: health_status
  hc_bullmq :: health_status

definition health_check :: "js_error + unit \<Rightarrow> js_error + string \<Rightarrow> js_error + string \<Rightarrow> millis \<Rightarrow> health_result" where
  "health_check db_probe redis_ping bull_ping now =
     (let dbHealthy = database_isHealthy db_probe;
          redisHealthy = redis_isHealthy redis_ping;
          bullmqHealthy = bullmq_isHealthy bull_ping;
          isHealthy = dbHealthy \<and> redisHealthy \<and> bullmqHealthy
      in \<lparr> hc_status = (if isHealthy then UP else DOWN), hc_timestamp = now, hc_application = UP,
           hc_database = (if dbHealthy then UP else DOWN), hc_redis = (if redisHealthy then UP else DOWN),
           hc_bullmq = (if bullmqHealthy then UP else DOWN) \<rparr>)"

definition health_answer :: "health_result \<Rightarrow> nat \<times> health_result" where
  "health_answer result = (if hc_status result = UP then HTTP_OK else HTTP_SERVICE_UNAVAILABLE, result)"

subsection \<open>Job queues\<close>

text \<open>One queue object per name, in the order they were first asked for.\<close>

definition getQueue :: "string \<Rightarrow> unit proc_io" where
  "getQueue name =
     bindE (look p_queues) (\<lambda>queues.
     if name \<in> set queues then retE ()
     else change (\<lambda>p. p\<lparr> p_queues := p_queues p @ [name] \<rparr>))"

definition bullmq_addJob :: "string \<Rightarrow> unit proc_io" where
  "bullmq_addJob name = bindE (getQueue name) (\<lambda>_. call (''queue.add:'' @ name))"

definition queue_close_name :: "string \<Rightarrow> string" where
  "queue_close_name name = ''queue.close:'' @ name"

definition bullmq_close :: "unit proc_io" where
  "bullmq_close =
     bindE (look p_queues) (\<lambda>queues.
     bindE (calls (map queue_close_name queues)) (\<lambda>_.
     bindE (change (\<lambda>p. p\<lparr> p_queues := [] \<rparr>)) (\<lambda>_.
     call ''bullmq.quit'')))"

subsection \<open>The socket server\<close>

text \<open>\<open>Promise.all\<close> of two calls: both are made, and a rejection of either is thrown.\<close>

definition both :: "string \<Rightarrow> string \<Rightarrow> unit proc_io" where
  "both a b p =
     (case call a p of (ra, p1) \<Rightarrow> (case call b p1 of (rb, p2) \<Rightarrow>
        (case ra of Inl e \<Rightarrow> (Inl e, p2) | Inr _ \<Rightarrow> (rb, p2))))"

text \<open>The adapter's connections are closed best effort.\<close>

definition adapter_close :: "unit proc_io" where
  "adapter_close = catchE (both ''pub.quit'' ''sub.quit'') (\<lambda>_. retE ())"

definition closeSocketServer :: "unit proc_io" where
  "closeSocketServer =
     bindE (call ''io.disconnectSockets'') (\<lambda>_.
     bindE (call ''io.close'') (\<lambda>_.
     bindE (look p_adapter) (\<lambda>adapter.
     bindE (if adapter then adapter_close else retE ()) (\<lambda>_.
     change (\<lambda>p. p\<lparr> p_active_io := False \<rparr>)))))"

text \<open>An adapter that cannot be created is left out; the server starts with the one in memory.\<close>

definition initSocketServer :: "bool \<Rightarrow> unit proc_io" where
  "initSocketServer useRedis =
     bindE (call ''io.create'') (\<lambda>_.
     bindE (if useRedis
            then catchE
              (bindE (call ''adapter.create'') (\<lambda>_.
               bindE (change (\<lambda>p. p\<lparr> p_adapter := True \<rparr>)) (\<lambda>_.
               call ''io.adapter''))) (\<lambda>_. retE ())
            else retE ()) (\<lambda>_.
     change (\<lambda>p. p\<lparr> p_active_io := True \<rparr>)))"

subsection \<open>Bootstrap and shutdown\<close>

definition exit_process :: "int \<Rightarrow> unit proc_io" where
  "exit_process code = change (\<lambda>p. p\<lparr> p_exits := p_exits p @ [code] \<rparr>)"

definition bootstrap :: "bool \<Rightarrow> unit proc_io" where
  "bootstrap useRedis =
     bindE (call ''database.connect'') (\<lambda>_.
     bindE redis_connect (\<lambda>_.
     bindE (catchE (call ''rabbitmq.connect'') (\<lambda>_. retE ())) (\<lambda>_.
     bindE (call ''workers.init'') (\<lambda>_.
     bindE (initSocketServer useRedis) (\<lambda>_.
     call ''server.listen'')))))"

definition main :: "bool \<Rightarrow> unit proc_io" where
  "main useRedis = catchE (bootstrap useRedis) (\<lambda>_. exit_process 1)"

definition shutdown_steps :: "unit proc_io" where
  "shutdown_steps =
     bindE closeSocketServer (\<lambda>_.
     bindE (call ''server.close'') (\<lambda>_.
     bindE (call ''workers.close'') (\<lambda>_.
     bindE bullmq_close (\<lambda>_.
     bindE (call ''rabbitmq.close'') (\<lambda>_.
     bindE redis_disconnect (\<lambda>_.
     call ''database.disconnect''))))))"

definition clear_timer :: "unit proc_io" where
  "clear_timer = change (\<lambda>p. p\<lparr> p_timer := False \<rparr>)"

definition handleShutdown :: "unit proc_io" where
  "handleShutdown =
     bindE (look p_shutting) (\<lambda>busy.
     if busy then retE ()
     else
       bindE (change (\<lambda>p. p\<lparr> p_shutting := True, p_timer := True \<rparr>)) (\<lambda>_.
       catchE (bindE shutdown_steps (\<lambda>_. bindE clear_timer (\<lambda>_. exit_process 0)))
         (\<lambda>_. bindE clear_timer (\<lambda>_. exit_process 1))))"

subsection \<open>What a shutdown does\<close>

text \<open>The calls a shutdown makes when nothing fails, in order.\<close>

definition shutdown_plan :: "proc \<Rightarrow> string list" where
  "shutdown_plan p =
     [''io.disconnectSockets'', ''io.close''] @
     (if p_adapter p then [''pub.quit'', ''sub.quit''] else []) @
     [''server.close'', ''workers.close''] @ map queue_close_name (p_queues p) @
     [''bullmq.quit'', ''rabbitmq.close''] @
     (if p_redis p \<in> {RS_CONNECTING, RS_CONNECT, RS_READY, RS_RECONNECTING} then [''redis.quit''] else []) @
     [''database.disconnect'']"

lemma wp_call:
  "wp (call n) Q E p =
     (case p_fails p n (length (p_calls p)) of
        Some e \<Rightarrow> E e (p\<lparr> p_calls := p_calls p @ [n] \<rparr>)
      | None \<Rightarrow> Q () (p\<lparr> p_calls := p_calls p @ [n] \<rparr>))"
  by (simp add: wp_def call_def Let_def split: option.split)

lemma wp_adapter_close:
  "Q () (p\<lparr> p_calls := p_calls p @ [''pub.quit'', ''sub.quit''] \<rparr>) \<Longrightarrow> wp adapter_close Q E p"
  unfolding adapter_close_def wp_catchE
  by (simp add: wp_def both_def call_def Let_def retE_def split: option.split)

lemma wp_change: "wp (change f) Q E p = Q () (f p)"
  by (simp add: wp_def change_def)

lemma wp_look: "wp (look f) Q E p = Q (f p) p"
  by (simp add: wp_def look_def)

lemmas wp_proc = wp_simps wp_call wp_change wp_look

text \<open>
  Where a shutdown that began at \<open>p\<close> is: the calls it made, the queues left; and where it may have
  stopped: after a beginning of the plan. Neither has exited the process yet.
\<close>

definition running_on :: "proc \<Rightarrow> proc \<Rightarrow> bool" where
  "running_on p p' \<longleftrightarrow> p_exits p' = p_exits p \<and> p_shutting p' = p_shutting p"

definition reached :: "proc \<Rightarrow> string list \<Rightarrow> string list \<Rightarrow> proc \<Rightarrow> bool" where
  "reached p ys qs q \<longleftrightarrow>
     p_calls q = p_calls p @ ys \<and> p_queues q = qs \<and> p_redis q = p_redis p \<and> p_adapter q = p_adapter p \<and> running_on p q"

definition stopped :: "proc \<Rightarrow> string list \<Rightarrow> proc \<Rightarrow> bool" where
  "stopped p plan q \<longleftrightarrow> running_on p q \<and> (\<exists>ys. prefix ys plan \<and> p_calls q = p_calls p @ ys)"

lemma reached_stopped: "reached p ys qs q \<Longrightarrow> prefix ys plan \<Longrightarrow> stopped p plan q"
  by (auto simp: reached_def stopped_def)

lemma reached_call:
  assumes "reached p ys qs q" and "prefix (ys @ [n]) plan"
    and "\<And>q'. reached p (ys @ [n]) qs q' \<Longrightarrow> Q () q'"
  shows "wp (call n) Q (\<lambda>_. stopped p plan) q"
  using assms by (auto simp: wp_call reached_def stopped_def running_on_def split: option.split)

lemma reached_calls:
  assumes "reached p ys qs q" and "prefix (ys @ ns) plan"
    and "\<And>q'. reached p (ys @ ns) qs q' \<Longrightarrow> Q () q'"
  shows "wp (calls ns) Q (\<lambda>_. stopped p plan) q"
  using assms
proof (induction ns arbitrary: ys q)
  case Nil
  then show ?case by (simp add: wp_retE)
next
  case (Cons n ns)
  show ?case
    unfolding calls.simps wp_bindE
  proof (rule reached_call [OF Cons.prems(1)])
    show "prefix (ys @ [n]) plan" using Cons.prems(2) by (auto simp: prefix_def)
  next
    fix q1 :: proc
    assume "reached p (ys @ [n]) qs q1"
    then show "wp (calls ns) Q (\<lambda>_. stopped p plan) q1" by (rule Cons.IH) (use Cons.prems in simp_all)
  qed
qed

lemma reached_redis:
  assumes "reached p ys qs q" and "prefix (ys @ (if quits then [''redis.quit''] else [])) plan"
    and quits: "quits \<longleftrightarrow> p_redis p \<in> {RS_CONNECTING, RS_CONNECT, RS_READY, RS_RECONNECTING}"
    and "\<And>q'. reached p (ys @ (if quits then [''redis.quit''] else [])) qs q' \<Longrightarrow> Q () q'"
  shows "wp redis_disconnect Q (\<lambda>_. stopped p plan) q"
proof -
  have eq: "quits \<longleftrightarrow> p_redis q \<noteq> RS_END \<and> p_redis q \<noteq> RS_CLOSE \<and> p_redis q \<noteq> RS_WAIT"
    using assms(1) quits by (cases "p_redis p") (auto simp: reached_def)
  show ?thesis
    using assms(2,4) unfolding redis_disconnect_def wp_bindE wp_look eq [symmetric]
    by (cases quits) (auto simp: wp_retE assms(1) intro: reached_call [OF assms(1)])
qed

lemma reached_adapter:
  assumes "reached p ys qs q" and "prefix (ys @ (if p_adapter p then [''pub.quit'', ''sub.quit''] else [])) plan"
    and "\<And>q'. reached p (ys @ (if p_adapter p then [''pub.quit'', ''sub.quit''] else [])) qs q' \<Longrightarrow> Q () q'"
  shows "wp (if p_adapter q then adapter_close else retE ()) Q (\<lambda>_. stopped p plan) q"
  using assms by (auto simp: reached_def running_on_def wp_retE intro!: wp_adapter_close)

lemma reached_change:
  "reached p ys (p_queues (f q)) (f q) \<Longrightarrow> (\<And>q'. reached p ys (p_queues (f q)) q' \<Longrightarrow> Q () q') \<Longrightarrow> wp (change f) Q E q"
  by (simp add: wp_change)

lemma reached_sockets:
  fixes p :: proc
  defines "ad \<equiv> (if p_adapter p then [''pub.quit'', ''sub.quit''] else [])"
  assumes "reached p [] qs q" and pre: "prefix ([''io.disconnectSockets'', ''io.close''] @ ad) plan"
    and fin: "\<And>q'. reached p ([''io.disconnectSockets'', ''io.close''] @ ad) qs q' \<Longrightarrow> Q () q'"
  shows "wp closeSocketServer Q (\<lambda>_. stopped p plan) q"
  unfolding closeSocketServer_def wp_bindE wp_look
proof (rule reached_call [OF assms(2)], goal_cases)
  case 1
  show ?case using pre by (auto simp: prefix_def)
next
  case (2 q1)
  show ?case
  proof (rule reached_call [OF 2], goal_cases)
    case 1
    show ?case using pre by (auto simp: prefix_def)
  next
    case (2 q2)
    show ?case
    proof (rule reached_adapter [OF 2], goal_cases)
      case 1
      show ?case using pre by (simp add: ad_def)
    next
      case (2 q3)
      then have "reached p ([''io.disconnectSockets'', ''io.close''] @ ad) qs (q3\<lparr> p_active_io := False \<rparr>)"
        by (simp add: reached_def running_on_def ad_def)
      then show ?case by (simp add: wp_change fin)
    qed
  qed
qed

lemma reached_bullmq_close:
  assumes r: "reached p ys qs q" and pre: "prefix (ys @ map queue_close_name qs @ [''bullmq.quit'']) plan"
    and fin: "\<And>q'. reached p (ys @ map queue_close_name qs @ [''bullmq.quit'']) [] q' \<Longrightarrow> Q () q'"
  shows "wp bullmq_close Q (\<lambda>_. stopped p plan) q"
proof -
  have qs: "p_queues q = qs" using r by (simp add: reached_def)
  show ?thesis
    unfolding bullmq_close_def wp_bindE wp_look wp_change qs
  proof (rule reached_calls [OF r], goal_cases)
    case 1
    show ?case using pre by (auto simp: prefix_def)
  next
    case (2 q1)
    then have "reached p (ys @ map queue_close_name qs) [] (q1\<lparr> p_queues := [] \<rparr>)"
      by (simp add: reached_def running_on_def)
    then show ?case by (rule reached_call) (use pre fin in simp_all)
  qed
qed

lemma wp_shutdown_steps:
  assumes fin: "\<And>q. reached p (shutdown_plan p) [] q \<Longrightarrow> Q () q"
  shows "wp shutdown_steps Q (\<lambda>_. stopped p (shutdown_plan p)) p"
proof -
  have start: "reached p [] (p_queues p) p" by (simp add: reached_def running_on_def)
  show ?thesis
    unfolding shutdown_steps_def wp_bindE
    apply (rule reached_sockets [OF start], simp add: shutdown_plan_def)
    apply (erule reached_call, simp add: shutdown_plan_def)
    apply (erule reached_call, simp add: shutdown_plan_def)
    apply (erule reached_bullmq_close, simp add: shutdown_plan_def)
    apply (erule reached_call, simp add: shutdown_plan_def)
    apply (erule reached_redis [OF _ _ refl], simp add: shutdown_plan_def)
    apply (erule reached_call, simp add: shutdown_plan_def)
    apply (rule fin, simp add: shutdown_plan_def)
    done
qed

lemma wp_handleShutdown:
  "wp handleShutdown
     (\<lambda>_ q. if p_shutting p then q = p
        else p_shutting q \<and> \<not> p_timer q \<and>
          (p_exits q = p_exits p @ [0] \<and> p_calls q = p_calls p @ shutdown_plan p \<or>
           p_exits q = p_exits p @ [1] \<and> (\<exists>ys. prefix ys (shutdown_plan p) \<and> p_calls q = p_calls p @ ys)))
     (\<lambda>_ _. False) p"
proof (cases "p_shutting p")
  case True
  then show ?thesis by (simp add: handleShutdown_def wp_proc)
next
  case False
  let ?p = "p\<lparr> p_shutting := True, p_timer := True \<rparr>"
  have plan: "shutdown_plan ?p = shutdown_plan p" by (simp add: shutdown_plan_def)
  have "wp (bindE shutdown_steps (\<lambda>_. bindE clear_timer (\<lambda>_. exit_process 0)))
      (\<lambda>_ q. p_shutting q \<and> \<not> p_timer q \<and> p_exits q = p_exits p @ [0] \<and> p_calls q = p_calls p @ shutdown_plan p)
      (\<lambda>_. stopped ?p (shutdown_plan ?p)) ?p"
    unfolding wp_bindE [of shutdown_steps]
    by (rule wp_shutdown_steps) (simp add: clear_timer_def exit_process_def wp_proc reached_def running_on_def plan)
  note main = this
  show ?thesis
    unfolding handleShutdown_def wp_bindE [of "look _"] wp_look if_not_P [OF False] wp_bindE [of "change _"] wp_change wp_catchE
    by (rule wp_mono [OF main])
      (auto simp: clear_timer_def exit_process_def wp_proc stopped_def running_on_def plan)
qed

lemma handleShutdown_busy [simp]: "p_shutting p \<Longrightarrow> handleShutdown p = (Inr (), p)"
  by (simp add: handleShutdown_def bindE_def look_def retE_def)

end
