(* ===== verification/Config.thy ===== *)
theory Config
  imports Push Process
begin

text \<open>
  The settings of the service: reading the environment variables (\<open>config/validate-env.ts\<close>), the object
  of settings (\<open>config/env.ts\<close>), what the Firebase client takes of it, the options of the socket server,
  and how the database connection is secured (\<open>database/prisma.ts\<close>). The schema is built with zod,
  which is a parameter: it is handed the variables and the functions the code registers with it, and
  answers with issues or values. A number of the schema is a rational number, or an integer where the
  schema asks for one.
\<close>

subsection \<open>Environment variables\<close>

type_synonym env_vars = "string \<Rightarrow> string option"

text \<open>The argument of a \<open>preprocess\<close> function, as far as it looks at it.\<close>

datatype env_input = EStr string | EBool bool | EOther

definition parse_flag :: "bool \<Rightarrow> env_input \<Rightarrow> bool" where
  "parse_flag otherwise val = (case val of EStr s \<Rightarrow> js_lower s = ''true'' | EBool b \<Rightarrow> b | EOther \<Rightarrow> otherwise)"

definition MOCK_TABLE_CHECK_flag :: "env_input \<Rightarrow> bool" where
  "MOCK_TABLE_CHECK_flag = parse_flag False"

definition WS_USE_REDIS_ADAPTER_flag :: "env_input \<Rightarrow> bool" where
  "WS_USE_REDIS_ADAPTER_flag = parse_flag False"

definition FCM_ENABLED_flag :: "env_input \<Rightarrow> bool" where
  "FCM_ENABLED_flag = parse_flag True"

datatype node_env = DEVELOPMENT | TESTING | PRODUCTION | TEST

datatype log_level = LL_TRACE | LL_DEBUG | LL_INFO | LL_WARN | LL_ERROR | LL_FATAL

record validated_env =
  v_NODE_ENV :: node_env
  v_PORT :: rat
  v_SERVICE_NAME :: string
  v_LOG_LEVEL :: log_level
  v_DATABASE_URL :: string
  v_DIRECT_DATABASE_URL :: "string option"
  v_DATABASE_CA_CERT :: "string option"
  v_REDIS_URL :: string
  v_RESTAURANT_SERVICE_URL :: string
  v_RESTAURANT_SERVICE :: string
  v_ETA_SERVICE_URL :: string
  v_S2S_PRIVATE_KEY :: "string option"
  v_S2S_ORDER_PUBLIC :: "string option"
  v_S2S_RESTAURANT_PUBLIC :: "string option"
  v_MOCK_TABLE_CHECK :: bool
  v_CORS_ORIGIN :: string
  v_WS_PATH :: string
  v_WS_USE_REDIS_ADAPTER :: bool
  v_FIREBASE_PROJECT_ID :: "string option"
  v_FIREBASE_CLIENT_EMAIL :: "string option"
  v_FIREBASE_PRIVATE_KEY :: "string option"
  v_FCM_ENABLED :: bool
  v_FCM_MAX_RETRIES :: int
  v_FCM_RETRY_DELAY_MS :: int
  v_TICKET_DEEP_LINK_BASE_URL :: "string option"
  v_RABBITMQ_URL :: string
  v_RABBITMQ_ML_ETA_QUEUE :: string
  v_ETA_TIMEOUT_MS :: rat
  v_ETA_RESET_TIMEOUT_MS :: "rat option"
  v_ETA_ERROR_THRESHOLD :: "rat option"
  v_ETA_VOLUME_THRESHOLD :: "rat option"
  v_RESTAURANT_TIMEOUT_MS :: rat
  v_RESTAURANT_RESET_TIMEOUT_MS :: "rat option"
  v_RESTAURANT_ERROR_THRESHOLD :: "rat option"
  v_RESTAURANT_VOLUME_THRESHOLD :: "rat option"

text \<open>\<open>envSchema.safeParse\<close>, given the three functions of the schema.\<close>

record env_schema =
  es_parse :: "(env_input \<Rightarrow> bool) \<Rightarrow> (env_input \<Rightarrow> bool) \<Rightarrow> (env_input \<Rightarrow> bool) \<Rightarrow> env_vars \<Rightarrow> issue list + validated_env"

text \<open>The values, or the lines written before the process exits with 1.\<close>

datatype env_outcome = EnvExit "string list" | EnvOk validated_env

definition issue_line :: "issue \<Rightarrow> string" where
  "issue_line i = join_dots (map key_text (is_path i)) @ '': '' @ is_message i"

definition validateEnv :: "env_schema \<Rightarrow> env_vars \<Rightarrow> env_outcome" where
  "validateEnv schema vars =
     (case es_parse schema MOCK_TABLE_CHECK_flag WS_USE_REDIS_ADAPTER_flag FCM_ENABLED_flag vars of
        Inl issues \<Rightarrow> EnvExit ((''Invalid environment configuration'' @ [CHR 0x0A]) # map issue_line issues)
      | Inr e \<Rightarrow> EnvOk e)"

subsection \<open>The settings\<close>

record breaker_settings =
  bs_timeoutMs :: rat
  bs_resetTimeoutMs :: "rat option"
  bs_errorThresholdPercentage :: "rat option"
  bs_volumeThreshold :: "rat option"

record app_config =
  ac_nodeEnv :: node_env
  ac_port :: rat
  ac_serviceName :: string
  ac_logLevel :: log_level
  ac_databaseUrl :: string
  ac_databaseCaCert :: "string option"
  ac_redisUrl :: string
  ac_restaurantServiceName :: string
  ac_restaurantServiceUrl :: string
  ac_etaServiceUrl :: string
  ac_mockTableCheck :: bool
  ac_s2sServiceName :: string
  ac_s2sPrivateKey :: "string option"
  ac_s2sOrderPublicKey :: "string option"
  ac_s2sRestaurantPublicKey :: "string option"
  ac_firebaseEnabled :: bool
  ac_firebaseProjectId :: "string option"
  ac_firebaseClientEmail :: "string option"
  ac_firebasePrivateKey :: "string option"
  ac_firebaseMaxRetries :: int
  ac_firebaseRetryDelayMs :: int
  ac_ticketDeepLinkBaseUrl :: "string option"
  ac_rabbitmqUrl :: string
  ac_rabbitmqMlEtaQueue :: string
  ac_etaBreaker :: breaker_settings
  ac_restaurantBreaker :: breaker_settings

definition app_config_of :: "validated_env \<Rightarrow> app_config" where
  "app_config_of e =
     \<lparr> ac_nodeEnv = v_NODE_ENV e, ac_port = v_PORT e, ac_serviceName = v_SERVICE_NAME e,
       ac_logLevel = v_LOG_LEVEL e, ac_databaseUrl = v_DATABASE_URL e,
       ac_databaseCaCert = v_DATABASE_CA_CERT e, ac_redisUrl = v_REDIS_URL e,
       ac_restaurantServiceName = v_RESTAURANT_SERVICE e,
       ac_restaurantServiceUrl = v_RESTAURANT_SERVICE_URL e, ac_etaServiceUrl = v_ETA_SERVICE_URL e,
       ac_mockTableCheck = v_MOCK_TABLE_CHECK e, ac_s2sServiceName = v_SERVICE_NAME e,
       ac_s2sPrivateKey = v_S2S_PRIVATE_KEY e, ac_s2sOrderPublicKey = v_S2S_ORDER_PUBLIC e,
       ac_s2sRestaurantPublicKey = v_S2S_RESTAURANT_PUBLIC e, ac_firebaseEnabled = v_FCM_ENABLED e,
       ac_firebaseProjectId = v_FIREBASE_PROJECT_ID e, ac_firebaseClientEmail = v_FIREBASE_CLIENT_EMAIL e,
       ac_firebasePrivateKey = map_option unescape_newlines (v_FIREBASE_PRIVATE_KEY e),
       ac_firebaseMaxRetries = v_FCM_MAX_RETRIES e, ac_firebaseRetryDelayMs = v_FCM_RETRY_DELAY_MS e,
       ac_ticketDeepLinkBaseUrl = v_TICKET_DEEP_LINK_BASE_URL e, ac_rabbitmqUrl = v_RABBITMQ_URL e,
       ac_rabbitmqMlEtaQueue = v_RABBITMQ_ML_ETA_QUEUE e,
       ac_etaBreaker = \<lparr> bs_timeoutMs = v_ETA_TIMEOUT_MS e, bs_resetTimeoutMs = v_ETA_RESET_TIMEOUT_MS e,
         bs_errorThresholdPercentage = v_ETA_ERROR_THRESHOLD e, bs_volumeThreshold = v_ETA_VOLUME_THRESHOLD e \<rparr>,
       ac_restaurantBreaker = \<lparr> bs_timeoutMs = v_RESTAURANT_TIMEOUT_MS e,
         bs_resetTimeoutMs = v_RESTAURANT_RESET_TIMEOUT_MS e,
         bs_errorThresholdPercentage = v_RESTAURANT_ERROR_THRESHOLD e,
         bs_volumeThreshold = v_RESTAURANT_VOLUME_THRESHOLD e \<rparr> \<rparr>"

text \<open>The getters of the socket settings look at the variables again, each time they are read.\<close>

definition config_wsPath :: "env_vars \<Rightarrow> validated_env \<Rightarrow> string" where
  "config_wsPath vars e = or_else (vars ''WS_PATH'') (v_WS_PATH e)"

definition config_corsOrigin :: "env_vars \<Rightarrow> validated_env \<Rightarrow> string" where
  "config_corsOrigin vars e = or_else (vars ''CORS_ORIGIN'') (v_CORS_ORIGIN e)"

definition config_useRedisAdapter :: "env_vars \<Rightarrow> validated_env \<Rightarrow> bool" where
  "config_useRedisAdapter vars e =
     (case vars ''WS_USE_REDIS_ADAPTER'' of Some s \<Rightarrow> s = ''true'' | None \<Rightarrow> v_WS_USE_REDIS_ADAPTER e)"

text \<open>The origin option of the socket server: \<open>None\<close> is \<open>true\<close>, any origin.\<close>

definition cors_option :: "string \<Rightarrow> string option" where
  "cors_option corsOrigin = (if corsOrigin = ''*'' then None else Some corsOrigin)"

text \<open>What the Firebase client and the push service read.\<close>

definition firebase_settings :: "app_config \<Rightarrow> push_env \<Rightarrow> push_env" where
  "firebase_settings c en = en\<lparr> pe_enabled := ac_firebaseEnabled c, pe_projectId := ac_firebaseProjectId c,
     pe_clientEmail := ac_firebaseClientEmail c, pe_privateKey := ac_firebasePrivateKey c,
     pe_maxRetries := ac_firebaseMaxRetries c, pe_retryDelayMs := ac_firebaseRetryDelayMs c \<rparr>"

subsection \<open>The database connection\<close>

text \<open>\<open>includes\<close>\<close>

fun js_includes :: "string \<Rightarrow> string \<Rightarrow> bool" where
  "js_includes p [] = (p = [])"
| "js_includes p (c # s) = (prefix p (c # s) \<or> js_includes p s)"

lemma js_includes_sublist: "js_includes p s \<longleftrightarrow> sublist p s"
  by (induction s) (auto simp: sublist_Cons_right)

record ssl_config =
  ssl_ca :: "string option"
  ssl_rejectUnauthorized :: bool

text \<open>The content of the certificate file is an answer of the file system.\<close>

definition sslConfig :: "(string \<Rightarrow> js_error + string) \<Rightarrow> app_config \<Rightarrow> ssl_config option" where
  "sslConfig readFile c =
     (if truthy (ac_databaseCaCert c)
      then (case readFile (the (ac_databaseCaCert c)) of
              Inr certContent \<Rightarrow> Some \<lparr> ssl_ca = Some certContent, ssl_rejectUnauthorized = True \<rparr>
            | Inl _ \<Rightarrow> Some \<lparr> ssl_ca = None, ssl_rejectUnauthorized = False \<rparr>)
      else (let dbUrl = ac_databaseUrl c;
                isLocalhost = js_includes ''localhost'' dbUrl \<or> js_includes ''127.0.0.1'' dbUrl;
                isAivenOrCloud = js_includes ''aivencloud.com'' dbUrl \<or> js_includes ''render.com'' dbUrl \<or>
                  js_includes ''neon.tech'' dbUrl \<or> js_includes ''aws.com'' dbUrl;
                hasSslNoVerify = js_includes ''sslmode=no-verify'' dbUrl;
                hasSslRequire = js_includes ''sslmode=require'' dbUrl \<or> js_includes ''sslmode=prefer'' dbUrl
            in if hasSslNoVerify \<or> isAivenOrCloud \<or> (\<not> isLocalhost \<and> hasSslRequire)
               then Some \<lparr> ssl_ca = None, ssl_rejectUnauthorized = False \<rparr> else None))"

text \<open>
  \<open>searchParams.delete\<close> and \<open>searchParams.set\<close> on the parameters of a URL, in order; reading a URL and
  writing it is the platform's, and reading may fail.
\<close>

definition params_delete :: "string \<Rightarrow> (string \<times> string) list \<Rightarrow> (string \<times> string) list" where
  "params_delete name = filter (\<lambda>(k, _). k \<noteq> name)"

fun params_set :: "string \<Rightarrow> string \<Rightarrow> (string \<times> string) list \<Rightarrow> (string \<times> string) list" where
  "params_set name value [] = [(name, value)]"
| "params_set name value ((k, v) # ps) =
     (if k = name then (name, value) # params_delete name ps else (k, v) # params_set name value ps)"

definition connectionString ::
  "(string \<Rightarrow> ('u \<times> (string \<times> string) list) option) \<Rightarrow> ('u \<Rightarrow> (string \<times> string) list \<Rightarrow> string) \<Rightarrow> app_config \<Rightarrow> string" where
  "connectionString parseUrl printUrl c =
     (let url = ac_databaseUrl c
      in if url \<noteq> [] \<and> (js_includes ''aivencloud.com'' url \<or> js_includes ''sslmode=no-verify'' url)
         then (case parseUrl url of
                 None \<Rightarrow> url
               | Some (u, ps) \<Rightarrow> printUrl u (params_set ''sslmode'' ''no-verify''
                   (params_delete ''sslrootcert'' (params_delete ''sslmode'' ps))))
         else url)"

text \<open>What the client of the database logs.\<close>

definition prisma_log :: "app_config \<Rightarrow> string list" where
  "prisma_log c = (if ac_nodeEnv c = DEVELOPMENT then [''query'', ''error'', ''warn''] else [''error''])"

subsection \<open>Facts\<close>

lemma params_delete_lookup: "map_of (params_delete name ps) x = (if x = name then None else map_of ps x)"
  by (induction ps) (auto simp: params_delete_def)

lemma params_set_lookup: "map_of (params_set name value ps) = (map_of ps)(name \<mapsto> value)"
  by (induction ps) (auto simp: fun_eq_iff params_delete_lookup)

text \<open>The private key of Firebase is unescaped twice, in the settings and in the client: no harm.\<close>

lemma unescape_keeps_head:
  "s \<noteq> [] \<Longrightarrow> hd s \<noteq> CHR ''n'' \<Longrightarrow> unescape_newlines s \<noteq> [] \<and> hd (unescape_newlines s) \<noteq> CHR ''n''"
  by (induction s rule: unescape_newlines.induct) auto

lemma unescape_idem: "unescape_newlines (unescape_newlines s) = unescape_newlines s"
proof (induction s rule: unescape_newlines.induct)
  case (1 c d s)
  have skip: "unescape_newlines (x # t) = x # unescape_newlines t" if "x = CHR 0x5C \<Longrightarrow> t = [] \<or> hd t \<noteq> CHR ''n''" for x t
    using that by (cases t) auto
  show ?case
  proof (cases "c = CHR 0x5C \<and> d = CHR ''n''")
    case True
    with 1(1) skip [of "CHR 0x0A" "unescape_newlines s"] show ?thesis by simp
  next
    case False
    let ?t = "unescape_newlines (d # s)"
    have "c = CHR 0x5C \<Longrightarrow> ?t = [] \<or> hd ?t \<noteq> CHR ''n''"
      using False unescape_keeps_head [of "d # s"] by auto
    with False 1(2) show ?thesis by (simp add: skip del: unescape_newlines.simps(1))
  qed
qed simp_all


text \<open>
  The adapter of the sockets is switched on by the schema for any spelling of true, but the setting the
  socket server reads compares with the small letters.
\<close>

lemma adapter_setting_narrower:
  "vars ''WS_USE_REDIS_ADAPTER'' = Some ''TRUE'' \<Longrightarrow>
     WS_USE_REDIS_ADAPTER_flag (EStr ''TRUE'') \<and> \<not> config_useRedisAdapter vars e"
proof -
  have "js_lower ''TRUE'' = ''true''" by code_simp
  then show "vars ''WS_USE_REDIS_ADAPTER'' = Some ''TRUE'' \<Longrightarrow> ?thesis"
    by (simp add: WS_USE_REDIS_ADAPTER_flag_def parse_flag_def config_useRedisAdapter_def)
qed

text \<open>
  The server's certificate is verified exactly when the configured authority can be read; a path that
  cannot be read switches verification off, and so does every cloud host, whatever mode the URL asks for.
\<close>

lemma tls_verified_iff:
  "(\<exists>s. sslConfig readFile c = Some s \<and> ssl_rejectUnauthorized s) \<longleftrightarrow>
     truthy (ac_databaseCaCert c) \<and> (\<exists>x. readFile (the (ac_databaseCaCert c)) = Inr x)"
  by (auto simp: sslConfig_def Let_def split: sum.splits if_splits)

lemma unreadable_authority_unverified:
  "readFile p = Inl err \<Longrightarrow> p \<noteq> [] \<Longrightarrow> ac_databaseCaCert c = Some p \<Longrightarrow>
     sslConfig readFile c = Some \<lparr> ssl_ca = None, ssl_rejectUnauthorized = False \<rparr>"
  by (simp add: sslConfig_def truthy_def)

lemma cloud_host_unverified:
  "ac_databaseCaCert c = None \<Longrightarrow> sublist ''neon.tech'' (ac_databaseUrl c) \<Longrightarrow>
     sslConfig readFile c = Some \<lparr> ssl_ca = None, ssl_rejectUnauthorized = False \<rparr>"
  by (simp add: sslConfig_def truthy_def Let_def js_includes_sublist)

end
