(* ===== verification/Clients.thy ===== *)
theory Clients
  imports Config RestaurantClient
begin

text \<open>
  What the clients of the other services are made of and what they send: the settings their constructors
  take (\<open>restaurant-service.client.ts\<close>, \<open>ml-eta-service.client.ts\<close>, \<open>redis.client.ts\<close>,
  \<open>rabbitmq.client.ts\<close>), the routes of \<open>routes.constants.ts\<close>, the headers and the requests themselves.
  \<open>EtaClient\<close> and \<open>RestaurantClient\<close> hold what is done with the answers. The token generator is a
  parameter.
\<close>

subsection \<open>Encoding of identifiers in a path\<close>

text \<open>\<open>encodeURIComponent\<close>, for characters up to code 255: one or two bytes of UTF-8 each.\<close>

definition uri_unreserved :: "char \<Rightarrow> bool" where
  "uri_unreserved c \<longleftrightarrow>
     c \<in> set (''abcdefghijklmnopqrstuvwxyz'' @ ''ABCDEFGHIJKLMNOPQRSTUVWXYZ'' @ ''0123456789'' @
              ''-_.!~*()'' @ [CHR 0x27])"

definition hex_digit :: "nat \<Rightarrow> char" where
  "hex_digit n = ''0123456789ABCDEF'' ! n"

definition percent :: "nat \<Rightarrow> string" where
  "percent n = [CHR ''%'', hex_digit (n div 16), hex_digit (n mod 16)]"

definition encode_char :: "char \<Rightarrow> string" where
  "encode_char c =
     (let n = of_char c :: nat
      in if uri_unreserved c then [c]
         else if n < 128 then percent n
         else percent (192 + n div 64) @ percent (128 + n mod 64))"

definition encodeURIComponent :: "string \<Rightarrow> string" where
  "encodeURIComponent s = concat (map encode_char s)"

subsection \<open>Routes\<close>

datatype restaurant_route = VALIDATION | TABLE_AVAILABILITY | ASSIGN_TABLE | RELEASE_TABLE

fun RESTAURANT_SERVICE_ROUTES :: "restaurant_route \<Rightarrow> uuid \<Rightarrow> string" where
  "RESTAURANT_SERVICE_ROUTES VALIDATION restaurantId =
     ''/api/internal/v1/restaurants/'' @ encodeURIComponent restaurantId @ ''/validation''"
| "RESTAURANT_SERVICE_ROUTES TABLE_AVAILABILITY restaurantId =
     ''/api/internal/v1/restaurants/'' @ encodeURIComponent restaurantId @ ''/tables/availability''"
| "RESTAURANT_SERVICE_ROUTES ASSIGN_TABLE restaurantId =
     ''/api/internal/v1/restaurants/'' @ encodeURIComponent restaurantId @ ''/tables/assign''"
| "RESTAURANT_SERVICE_ROUTES RELEASE_TABLE restaurantId =
     ''/api/internal/v1/restaurants/'' @ encodeURIComponent restaurantId @ ''/tables/release''"

definition ML_ETA_PREDICT :: string where
  "ML_ETA_PREDICT = ''/eta/predict''"

definition REQUEST_TIMEOUT_MS :: int where
  "REQUEST_TIMEOUT_MS = 1500"

text \<open>\<open>replace(/\/$/, '')\<close>\<close>

definition strip_slash :: "string \<Rightarrow> string" where
  "strip_slash s = (if s \<noteq> [] \<and> last s = CHR ''/'' then butlast s else s)"

subsection \<open>The clients\<close>

record breaker_options =
  bo_name :: string
  bo_settings :: breaker_settings

record restaurant_connection =
  rc_baseUrl :: string
  rc_useMock :: bool
  rc_s2sServiceName :: string
  rc_s2sPrivateKey :: "string option"
  rc_targetServiceName :: string
  rc_timeoutMs :: rat
  rc_requestTimeoutMs :: int
  rc_breaker :: breaker_options

text \<open>The constructor with its defaults; the container gives it no arguments.\<close>

definition new_restaurant_connection :: "app_config \<Rightarrow> restaurant_connection" where
  "new_restaurant_connection c =
     \<lparr> rc_baseUrl = strip_slash (ac_restaurantServiceUrl c), rc_useMock = ac_mockTableCheck c,
       rc_s2sServiceName = ac_s2sServiceName c, rc_s2sPrivateKey = ac_s2sPrivateKey c,
       rc_targetServiceName = ac_restaurantServiceName c,
       rc_timeoutMs = bs_timeoutMs (ac_restaurantBreaker c), rc_requestTimeoutMs = REQUEST_TIMEOUT_MS,
       rc_breaker = \<lparr> bo_name = ac_restaurantServiceName c, bo_settings = ac_restaurantBreaker c \<rparr> \<rparr>"

record eta_connection =
  ec_baseUrl :: string
  ec_timeoutMs :: rat
  ec_requestTimeoutMs :: int
  ec_breaker :: breaker_options

definition new_eta_connection :: "app_config \<Rightarrow> eta_connection" where
  "new_eta_connection c =
     \<lparr> ec_baseUrl = strip_slash (ac_etaServiceUrl c), ec_timeoutMs = bs_timeoutMs (ac_etaBreaker c),
       ec_requestTimeoutMs = REQUEST_TIMEOUT_MS,
       ec_breaker = \<lparr> bo_name = ''ml-eta-service'', bo_settings = ac_etaBreaker c \<rparr> \<rparr>"

text \<open>The options of the Redis client and of the message broker client.\<close>

definition redis_isTls :: "app_config \<Rightarrow> bool" where
  "redis_isTls c \<longleftrightarrow> prefix ''rediss://'' (ac_redisUrl c)"

definition rabbitmq_options :: "app_config \<Rightarrow> string \<times> string" where
  "rabbitmq_options c = (ac_rabbitmqUrl c, ac_serviceName c)"

subsection \<open>Requests\<close>

datatype http_verb = GET | PATCH

datatype param = PStr string | PInt int

datatype tables_body = AssignBody "assign_item list" | ReleaseBody "release_item list"

record outbound =
  ob_verb :: http_verb
  ob_url :: string
  ob_params :: "(string \<times> param) list"
  ob_body :: "tables_body option"
  ob_timeout :: int
  ob_headers :: "(string \<times> string) list"

text \<open>Target, caller and key to a token.\<close>

type_synonym token_generator = "string \<Rightarrow> string \<Rightarrow> string \<Rightarrow> js_error + string"

text \<open>A token that cannot be generated is logged, and the request goes out without one.\<close>

definition getInternalHeaders ::
  "token_generator \<Rightarrow> restaurant_connection \<Rightarrow> (string \<times> string) list" where
  "getInternalHeaders generateToken k =
     [(''Accept'', ''application/json''), (''x-caller-service'', rc_s2sServiceName k)] @
     (if truthy (rc_s2sPrivateKey k)
      then (case generateToken (rc_targetServiceName k) (rc_s2sServiceName k) (the (rc_s2sPrivateKey k)) of
              Inl _ \<Rightarrow> []
            | Inr token \<Rightarrow> [(''Authorization'', ''Bearer '' @ token)])
      else [])"

definition status_request :: "token_generator \<Rightarrow> restaurant_connection \<Rightarrow> uuid \<Rightarrow> outbound" where
  "status_request generateToken k restaurantId =
     \<lparr> ob_verb = GET, ob_url = rc_baseUrl k @ RESTAURANT_SERVICE_ROUTES VALIDATION restaurantId,
       ob_params = [], ob_body = None, ob_timeout = rc_requestTimeoutMs k,
       ob_headers = getInternalHeaders generateToken k \<rparr>"

definition availability_request :: "token_generator \<Rightarrow> restaurant_connection \<Rightarrow> uuid \<Rightarrow> int \<Rightarrow> outbound" where
  "availability_request generateToken k restaurantId partySize =
     \<lparr> ob_verb = GET, ob_url = rc_baseUrl k @ RESTAURANT_SERVICE_ROUTES TABLE_AVAILABILITY restaurantId,
       ob_params = [(''partySize'', PInt partySize)], ob_body = None, ob_timeout = rc_requestTimeoutMs k,
       ob_headers = getInternalHeaders generateToken k \<rparr>"

definition assign_request :: "token_generator \<Rightarrow> restaurant_connection \<Rightarrow> uuid \<Rightarrow> assign_item list \<Rightarrow> outbound" where
  "assign_request generateToken k restaurantId tables =
     \<lparr> ob_verb = PATCH, ob_url = rc_baseUrl k @ RESTAURANT_SERVICE_ROUTES ASSIGN_TABLE restaurantId,
       ob_params = [], ob_body = Some (AssignBody tables), ob_timeout = rc_requestTimeoutMs k,
       ob_headers = getInternalHeaders generateToken k \<rparr>"

definition release_request :: "token_generator \<Rightarrow> restaurant_connection \<Rightarrow> uuid \<Rightarrow> release_item list \<Rightarrow> outbound" where
  "release_request generateToken k restaurantId tables =
     \<lparr> ob_verb = PATCH, ob_url = rc_baseUrl k @ RESTAURANT_SERVICE_ROUTES RELEASE_TABLE restaurantId,
       ob_params = [], ob_body = Some (ReleaseBody tables), ob_timeout = rc_requestTimeoutMs k,
       ob_headers = getInternalHeaders generateToken k \<rparr>"

text \<open>The requests of the log \<open>upstream\<close>.\<close>

fun tables_request :: "token_generator \<Rightarrow> restaurant_connection \<Rightarrow> upstream_call \<Rightarrow> outbound" where
  "tables_request generateToken k (AssignTables restaurantId tables) = assign_request generateToken k restaurantId tables"
| "tables_request generateToken k (ReleaseTables restaurantId tables) = release_request generateToken k restaurantId tables"

definition predict_request :: "eta_connection \<Rightarrow> uuid \<Rightarrow> int \<Rightarrow> int \<Rightarrow> outbound" where
  "predict_request k restaurantId peopleAhead partySize =
     \<lparr> ob_verb = GET, ob_url = ec_baseUrl k @ ML_ETA_PREDICT,
       ob_params = [(''restaurant_id'', PStr restaurantId), (''total_people_ahead'', PInt peopleAhead),
         (''party_size'', PInt partySize)],
       ob_body = None, ob_timeout = ec_requestTimeoutMs k,
       ob_headers = [(''Accept'', ''application/json'')] \<rparr>"

subsection \<open>Facts\<close>

lemma hex_digit_inj: "n < 16 \<Longrightarrow> m < 16 \<Longrightarrow> hex_digit n = hex_digit m \<longleftrightarrow> n = m"
  unfolding hex_digit_def by (rule nth_eq_iff_index_eq) simp_all

lemma hex_digit_unreserved: "n < 16 \<Longrightarrow> uri_unreserved (hex_digit n)"
proof -
  assume "n < 16"
  then have "hex_digit n \<in> set ''0123456789ABCDEF''" unfolding hex_digit_def by (intro nth_mem) simp
  moreover have "list_all uri_unreserved ''0123456789ABCDEF''" by (simp add: uri_unreserved_def)
  ultimately show ?thesis by (simp only: list_all_iff)
qed

lemma percent_inj: "n < 256 \<Longrightarrow> m < 256 \<Longrightarrow> percent n @ x = percent m @ y \<longleftrightarrow> n = m \<and> x = y"
proof -
  assume "n < 256" "m < 256"
  then have "n div 16 < 16" "m div 16 < 16" by auto
  then have "percent n @ x = percent m @ y \<longleftrightarrow> n div 16 = m div 16 \<and> n mod 16 = m mod 16 \<and> x = y"
    by (simp add: percent_def hex_digit_inj)
  also have "\<dots> \<longleftrightarrow> n = m \<and> x = y" by (metis div_mult_mod_eq)
  finally show ?thesis .
qed


lemma percent_chars: "n < 256 \<Longrightarrow> c \<in> set (percent n) \<Longrightarrow> uri_unreserved c \<or> c = CHR ''%''"
  by (auto simp: percent_def intro: hex_digit_unreserved)

lemma code_less: "(of_char c :: nat) < 256"
  by (metis nat_of_char_less_256)

lemma code_inj: "(of_char c :: nat) = of_char d \<longleftrightarrow> c = d"
  by simp

text \<open>The encoding of a character is not the beginning of another's.\<close>

lemma percent_sign_reserved: "\<not> uri_unreserved (CHR ''%'')"
  by (simp add: uri_unreserved_def)

lemma encode_char_inj: "encode_char c @ x = encode_char d @ y \<Longrightarrow> c = d \<and> x = y"
proof -
  let ?n = "of_char c :: nat" and ?m = "of_char d :: nat"
  assume eq: "encode_char c @ x = encode_char d @ y"
  have bytes: "192 + k div 64 < 256 \<and> 128 + k mod 64 < 256" if "k < 256" for k :: nat using that by auto
  have split: "k div 64 = l div 64 \<and> k mod 64 = l mod 64 \<longleftrightarrow> k = l" for k l :: nat by (metis div_mult_mod_eq)
  show ?thesis
  proof (cases "uri_unreserved c \<or> uri_unreserved d")
    case True
    with eq show ?thesis
      by (auto simp: encode_char_def Let_def percent_def percent_sign_reserved split: if_splits)
  next
    case False
    with eq code_less [of c] code_less [of d] bytes [of ?n] bytes [of ?m] split [of ?n ?m] show ?thesis
      by (auto simp: encode_char_def Let_def percent_inj split: if_splits)
  qed
qed

text \<open>What is encoded can be read back, and contains no delimiter of a URL.\<close>

lemma encodeURIComponent_inj: "encodeURIComponent s = encodeURIComponent t \<longleftrightarrow> s = t"
proof
  have nonempty: "encode_char c \<noteq> []" for c by (simp add: encode_char_def Let_def percent_def)
  show "encodeURIComponent s = encodeURIComponent t \<Longrightarrow> s = t"
  proof (induction s arbitrary: t)
    case Nil
    then show ?case by (cases t) (simp_all add: encodeURIComponent_def nonempty)
  next
    case (Cons c s)
    then obtain d u where t: "t = d # u" by (cases t) (simp_all add: encodeURIComponent_def nonempty)
    with Cons.prems have "c = d \<and> encodeURIComponent s = encodeURIComponent u"
      by (intro encode_char_inj) (simp add: encodeURIComponent_def)
    with Cons.IH show ?case by (simp add: t)
  qed
qed simp

lemma encodeURIComponent_chars: "c \<in> set (encodeURIComponent s) \<Longrightarrow> uri_unreserved c \<or> c = CHR ''%''"
proof -
  assume "c \<in> set (encodeURIComponent s)"
  then obtain d where c: "c \<in> set (encode_char d)" by (auto simp: encodeURIComponent_def)
  have bytes: "192 + k div 64 < 256 \<and> 128 + k mod 64 < 256" if "k < 256" for k :: nat using that by auto
  from bytes [of "of_char d"] c code_less [of d] show ?thesis
      using percent_chars [of "of_char d" c] percent_chars [of "192 + of_char d div 64" c] percent_chars [of "128 + of_char d mod 64" c]
    by (auto simp: encode_char_def Let_def split: if_splits)
qed

lemma encoded_no_slash: "CHR ''/'' \<notin> set (encodeURIComponent s)"
  using encodeURIComponent_chars [of "CHR ''/''" s] by (auto simp: uri_unreserved_def)

text \<open>Each path names one operation on one restaurant.\<close>

fun route_tail :: "restaurant_route \<Rightarrow> string" where
  "route_tail VALIDATION = ''validation''"
| "route_tail TABLE_AVAILABILITY = ''tables/availability''"
| "route_tail ASSIGN_TABLE = ''tables/assign''"
| "route_tail RELEASE_TABLE = ''tables/release''"

lemma route_split: "RESTAURANT_SERVICE_ROUTES op r =
    ''/api/internal/v1/restaurants/'' @ encodeURIComponent r @ CHR ''/'' # route_tail op"
  by (cases op) simp_all

lemma route_tail_inj: "route_tail op = route_tail op' \<longleftrightarrow> op = op'"
  by (cases op; cases op') simp_all

lemma append_delimiter: "z \<notin> set xs \<Longrightarrow> z \<notin> set ys \<Longrightarrow> xs @ z # us = ys @ z # vs \<longleftrightarrow> xs = ys \<and> us = vs"
  by (induction xs arbitrary: ys) (case_tac ys; force)+

lemma restaurant_routes_distinct:
  "base @ RESTAURANT_SERVICE_ROUTES op r = base @ RESTAURANT_SERVICE_ROUTES op' r' \<longleftrightarrow> op = op' \<and> r = r'"
  unfolding route_split
  by (auto simp: append_delimiter [OF encoded_no_slash encoded_no_slash] encodeURIComponent_inj route_tail_inj)

text \<open>The log of requests that change tables is as good as the requests themselves.\<close>

lemma tables_request_inj: "tables_request g k c = tables_request g k c' \<longleftrightarrow> c = c'"
proof
  assume "tables_request g k c = tables_request g k c'"
  then show "c = c'"
    by (cases c; cases c') (simp_all add: assign_request_def release_request_def restaurant_routes_distinct restaurant_routes_distinct [of "[]", simplified]
        del: RESTAURANT_SERVICE_ROUTES.simps)
qed simp

text \<open>Without a usable key a request carries no credentials, and is made all the same.\<close>

lemma credentials_sent:
  "map_of (getInternalHeaders g k) ''Authorization'' =
     (if truthy (rc_s2sPrivateKey k)
      then (case g (rc_targetServiceName k) (rc_s2sServiceName k) (the (rc_s2sPrivateKey k)) of
              Inl _ \<Rightarrow> None
            | Inr token \<Rightarrow> Some (''Bearer '' @ token))
      else None)"
proof -
  have "map_of (case r of Inl _ \<Rightarrow> [] | Inr token \<Rightarrow> [(''Authorization'', ''Bearer '' @ token)]) ''Authorization'' =
      (case r of Inl _ \<Rightarrow> None | Inr token \<Rightarrow> Some (''Bearer '' @ token))" for r :: "js_error + string"
    by (cases r) simp_all
  then show ?thesis by (simp add: getInternalHeaders_def)
qed

end
