(* ===== verification/Telemetry.thy ===== *)
theory Telemetry
  imports Process
begin

text \<open>
  What the service tells about itself: the identifiers that tie log lines and responses to a request
  (\<open>logger.middleware.ts\<close>, \<open>logger.ts\<close>), the labels requests are counted under
  (\<open>metrics.middleware.ts\<close>) and the gauges of its connections (\<open>metrics.ts\<close>). The collectors of the
  metrics library are not modelled, nor are the lines themselves.
\<close>

subsection \<open>Identifiers of a request\<close>

record trace_ids =
  t_requestId :: string
  t_correlationId :: string
  t_traceId :: string

text \<open>\<open>randomUUID\<close> is called for the identifiers the headers lack, in this order.\<close>

fun or_random :: "string option \<Rightarrow> string list \<Rightarrow> string \<times> string list" where
  "or_random (Some (c # s)) fresh = (c # s, fresh)"
| "or_random _ [] = ([], [])"
| "or_random _ (i # fresh) = (i, fresh)"

definition request_ids :: "(string \<Rightarrow> string option) \<Rightarrow> string list \<Rightarrow> trace_ids" where
  "request_ids headers fresh =
     (let correlation = headers ''x-correlation-id'';
          (correlationId, fresh1) = or_random
            (if truthy correlation then correlation else headers ''x-request-id'') fresh;
          (requestId, fresh2) = or_random (headers ''x-request-id'') fresh1
      in \<lparr> t_requestId = requestId, t_correlationId = correlationId, t_traceId = correlationId \<rparr>)"

definition trace_headers :: "trace_ids \<Rightarrow> (string \<times> string) list" where
  "trace_headers ids =
     [(''x-correlation-id'', t_correlationId ids), (''x-request-id'', t_requestId ids), (''x-trace-id'', t_traceId ids)]"

text \<open>The fields every log line gets, from the identifiers of the request it belongs to.\<close>

definition log_mixin :: "string \<Rightarrow> trace_ids option \<Rightarrow> (string \<times> string) list" where
  "log_mixin serviceName store =
     (case store of
        None \<Rightarrow> []
      | Some ids \<Rightarrow> [(''serviceName'', serviceName), (''requestId'', t_requestId ids),
          (''correlationId'', t_correlationId ids), (''traceId'', t_traceId ids)])"

subsection \<open>Metrics\<close>

definition metrics_labels :: "string \<Rightarrow> string option \<Rightarrow> string \<Rightarrow> nat \<Rightarrow> (string \<times> string) list" where
  "metrics_labels httpMethod routePath path statusCode =
     [(''method'', httpMethod), (''route'', nullish routePath path), (''status_code'', show_nat statusCode)]"

definition dbConnectionGauge :: "js_error + unit \<Rightarrow> nat" where
  "dbConnectionGauge probe = (case probe of Inl _ \<Rightarrow> 0 | Inr _ \<Rightarrow> 1)"

definition redisConnectionGauge :: "js_error + string \<Rightarrow> nat" where
  "redisConnectionGauge ping = (case ping of Inl _ \<Rightarrow> 0 | Inr res \<Rightarrow> if res = ''PONG'' then 1 else 0)"

subsection \<open>Facts\<close>

text \<open>A caller that follows up on the response's identifiers is correlated with the first request.\<close>

lemma request_ids_stable:
  assumes "length fresh \<ge> 2" and "[] \<notin> set fresh"
  shows "request_ids (map_of (trace_headers (request_ids headers fresh))) rest = request_ids headers fresh"
proof -
  obtain a b fs where fresh: "fresh = a # b # fs" using assms(1) by (cases fresh; cases "tl fresh") auto
  then obtain a1 as b1 bs where ab: "a = a1 # as" "b = b1 # bs" using assms(2) by (cases a; cases b) auto
  have ids: "t_requestId i \<noteq> [] \<and> t_correlationId i \<noteq> [] \<and> t_traceId i = t_correlationId i \<Longrightarrow>
      request_ids (map_of (trace_headers i)) rest = i" for i
    by (cases "t_requestId i"; cases "t_correlationId i") (auto simp: request_ids_def trace_headers_def truthy_def Let_def)
  show ?thesis
  proof (rule ids)
    show "t_requestId (request_ids headers fresh) \<noteq> [] \<and> t_correlationId (request_ids headers fresh) \<noteq> [] \<and>
        t_traceId (request_ids headers fresh) = t_correlationId (request_ids headers fresh)"
      unfolding fresh ab
      by (cases "headers ''x-request-id''"; cases "the (headers ''x-request-id'')";
          cases "headers ''x-correlation-id''"; cases "the (headers ''x-correlation-id'')")
        (auto simp: request_ids_def truthy_def Let_def)
  qed
qed

text \<open>The gauges and the health check agree.\<close>

lemma gauges_agree_with_health:
  "dbConnectionGauge d = 1 \<longleftrightarrow> database_isHealthy d" "redisConnectionGauge r = 1 \<longleftrightarrow> redis_isHealthy r"
  by (auto simp: dbConnectionGauge_def database_isHealthy_def redisConnectionGauge_def redis_isHealthy_def split: sum.split)

end
