(* ===== verification/Wiring.thy ===== *)
theory Wiring
  imports Prelude "HOL-Library.Sublist"
begin

text \<open>
  How the service is put together: the identifiers of \<open>di/types.ts\<close>, the bindings of
  \<open>di/modules/queue.module.ts\<close> and \<open>internal.module.ts\<close>, and the \<open>@inject\<close> parameters of the
  constructors. The container is a library, so it is a parameter with its documented contract; a
  reference container shows that the contract can be kept. Every binding is a singleton. Constructor
  parameters without \<open>@inject\<close> take their defaults. The rest of the model relies on the result: the
  breaker verdicts, the outbox and the job queues of the state are those of the one client, broadcaster
  and queue service there are.
\<close>

subsection \<open>Identifiers, classes and types\<close>

datatype token =
    T_PrismaClient | T_RedisClient | T_RabbitMQClient | T_Logger | T_DatabaseService | T_RedisService
  | T_QueueRepository | T_BullMQQueueService | T_RestaurantServiceClient | T_EtaService
  | T_QueueCacheService | T_WebSocketBroadcaster | T_PushNotificationService | T_QueueService
  | T_HealthService | T_QueuePositionRecalculator | T_RabbitMQService | T_RegisterQueueUseCase
  | T_GetActiveQueueByUserUseCase | T_GetQueueEtaUseCase | T_AssignTableUseCase | T_RingCustomerUseCase
  | T_SeatPartyUseCase | T_SkipPartyUseCase | T_CancelQueueEntryUseCase
  | T_GetCustomerQueueStatusUseCase | T_GetStaffQueueUseCase | T_HealthController
  | T_StaffQueueController | T_StaffQueueActionsController | T_InternalQueueController
  | T_CustomerQueueController

definition TYPES :: "token list" where
  "TYPES =
     [T_PrismaClient, T_RedisClient, T_RabbitMQClient, T_Logger, T_DatabaseService, T_RedisService,
      T_QueueRepository, T_BullMQQueueService, T_RestaurantServiceClient, T_EtaService,
      T_QueueCacheService, T_WebSocketBroadcaster, T_PushNotificationService, T_QueueService,
      T_HealthService, T_QueuePositionRecalculator, T_RabbitMQService, T_RegisterQueueUseCase,
      T_GetActiveQueueByUserUseCase, T_GetQueueEtaUseCase, T_AssignTableUseCase, T_RingCustomerUseCase,
      T_SeatPartyUseCase, T_SkipPartyUseCase, T_CancelQueueEntryUseCase,
      T_GetCustomerQueueStatusUseCase, T_GetStaffQueueUseCase, T_HealthController,
      T_StaffQueueController, T_StaffQueueActionsController, T_InternalQueueController,
      T_CustomerQueueController]"

text \<open>The classes the container constructs, and the values it is given.\<close>

datatype cls =
    DatabaseService | RedisService | BullMQQueueService | PrismaQueueRepository
  | RestaurantServiceClient | MlEtaServiceClient | RedisQueueCacheService | SocketBroadcaster
  | FirebasePushNotificationService | RabbitMQService | HealthService | QueuePositionRecalculator
  | RegisterQueueUseCase | AssignTableUseCase | RingCustomerUseCase | SeatPartyUseCase | SkipPartyUseCase
  | CancelQueueEntryUseCase | GetActiveQueueByUserUseCase | GetQueueEtaUseCase | GetStaffQueueUseCase
  | GetCustomerQueueStatusUseCase | HealthController | StaffQueueController
  | StaffQueueActionsController | InternalQueueController | CustomerQueueController

datatype given_value = prisma | redisClient | rabbitmqClient | logger

text \<open>The types bindings and parameters are declared with; a class is a type too.\<close>

datatype ts_type =
    Class cls | PrismaClient | Redis | RabbitMQClient | ILogger | IQueueService | IHealthCheckable
  | IQueueRepository | IRestaurantServiceClient | IEtaService | IQueueCacheService
  | IWebSocketBroadcaster | IPushNotificationService | IRabbitMQService | IHealthService
  | IQueuePositionRecalculator | IRegisterQueueUseCase | IAssignTableUseCase | IRingCustomerUseCase
  | ISeatPartyUseCase | ISkipPartyUseCase | ICancelQueueEntryUseCase | IGetActiveQueueByUserUseCase
  | IGetQueueEtaUseCase | IGetStaffQueueUseCase | IGetCustomerQueueStatusUseCase

fun value_type :: "given_value \<Rightarrow> ts_type" where
  "value_type prisma = PrismaClient"
| "value_type redisClient = Redis"
| "value_type rabbitmqClient = RabbitMQClient"
| "value_type logger = ILogger"

text \<open>
  The \<open>implements\<close> clause of a class. \<open>IQueueService\<close> has the one method of
  \<open>IHealthCheckable\<close>, so an object of the first is one of the second.
\<close>

fun implements :: "cls \<Rightarrow> ts_type list" where
  "implements DatabaseService = [IHealthCheckable]"
| "implements RedisService = [IHealthCheckable]"
| "implements BullMQQueueService = [IQueueService]"
| "implements PrismaQueueRepository = [IQueueRepository]"
| "implements RestaurantServiceClient = [IRestaurantServiceClient]"
| "implements MlEtaServiceClient = [IEtaService]"
| "implements RedisQueueCacheService = [IQueueCacheService]"
| "implements SocketBroadcaster = [IWebSocketBroadcaster]"
| "implements FirebasePushNotificationService = [IPushNotificationService]"
| "implements RabbitMQService = [IRabbitMQService]"
| "implements HealthService = [IHealthService]"
| "implements QueuePositionRecalculator = [IQueuePositionRecalculator]"
| "implements RegisterQueueUseCase = [IRegisterQueueUseCase]"
| "implements AssignTableUseCase = [IAssignTableUseCase]"
| "implements RingCustomerUseCase = [IRingCustomerUseCase]"
| "implements SeatPartyUseCase = [ISeatPartyUseCase]"
| "implements SkipPartyUseCase = [ISkipPartyUseCase]"
| "implements CancelQueueEntryUseCase = [ICancelQueueEntryUseCase]"
| "implements GetActiveQueueByUserUseCase = [IGetActiveQueueByUserUseCase]"
| "implements GetQueueEtaUseCase = [IGetQueueEtaUseCase]"
| "implements GetStaffQueueUseCase = [IGetStaffQueueUseCase]"
| "implements GetCustomerQueueStatusUseCase = [IGetCustomerQueueStatusUseCase]"
| "implements HealthController = []"
| "implements StaffQueueController = []"
| "implements StaffQueueActionsController = []"
| "implements InternalQueueController = []"
| "implements CustomerQueueController = []"

fun subtypes :: "ts_type \<Rightarrow> ts_type list" where
  "subtypes IHealthCheckable = [IHealthCheckable, IQueueService]"
| "subtypes i = [i]"

subsection \<open>Injected parameters\<close>

text \<open>The \<open>@inject\<close> parameters of the constructors, in order, with their declared types.\<close>

definition databaseService_params :: "(token \<times> ts_type) list" where
  "databaseService_params = [(T_PrismaClient, PrismaClient)]"

definition redisService_params :: "(token \<times> ts_type) list" where
  "redisService_params = [(T_RedisClient, Redis)]"

definition prismaQueueRepository_params :: "(token \<times> ts_type) list" where
  "prismaQueueRepository_params = [(T_PrismaClient, PrismaClient)]"

definition redisQueueCacheService_params :: "(token \<times> ts_type) list" where
  "redisQueueCacheService_params = [(T_RedisClient, Redis)]"

definition rabbitMQService_params :: "(token \<times> ts_type) list" where
  "rabbitMQService_params = [(T_RabbitMQClient, RabbitMQClient)]"

definition healthService_params :: "(token \<times> ts_type) list" where
  "healthService_params =
     [(T_DatabaseService, IHealthCheckable), (T_RedisService, IHealthCheckable), (T_QueueService, IHealthCheckable)]"

definition queuePositionRecalculator_params :: "(token \<times> ts_type) list" where
  "queuePositionRecalculator_params =
     [(T_QueueRepository, IQueueRepository), (T_EtaService, IEtaService),
      (T_QueueCacheService, IQueueCacheService), (T_WebSocketBroadcaster, IWebSocketBroadcaster)]"

definition registerQueueUseCase_params :: "(token \<times> ts_type) list" where
  "registerQueueUseCase_params =
     [(T_QueueRepository, IQueueRepository), (T_RestaurantServiceClient, IRestaurantServiceClient),
      (T_EtaService, IEtaService), (T_QueueCacheService, IQueueCacheService),
      (T_WebSocketBroadcaster, IWebSocketBroadcaster)]"

definition assignTableUseCase_params :: "(token \<times> ts_type) list" where
  "assignTableUseCase_params =
     [(T_QueueRepository, IQueueRepository), (T_RestaurantServiceClient, IRestaurantServiceClient),
      (T_QueueCacheService, IQueueCacheService), (T_WebSocketBroadcaster, IWebSocketBroadcaster),
      (T_RabbitMQService, IRabbitMQService), (T_Logger, ILogger)]"

definition ringCustomerUseCase_params :: "(token \<times> ts_type) list" where
  "ringCustomerUseCase_params =
     [(T_QueueRepository, IQueueRepository), (T_QueueService, IQueueService),
      (T_WebSocketBroadcaster, IWebSocketBroadcaster)]"

definition seatPartyUseCase_params :: "(token \<times> ts_type) list" where
  "seatPartyUseCase_params =
     [(T_QueueRepository, IQueueRepository), (T_RestaurantServiceClient, IRestaurantServiceClient),
      (T_QueueCacheService, IQueueCacheService), (T_WebSocketBroadcaster, IWebSocketBroadcaster),
      (T_QueuePositionRecalculator, IQueuePositionRecalculator)]"

definition skipPartyUseCase_params :: "(token \<times> ts_type) list" where
  "skipPartyUseCase_params =
     [(T_QueueRepository, IQueueRepository), (T_QueueCacheService, IQueueCacheService),
      (T_WebSocketBroadcaster, IWebSocketBroadcaster),
      (T_QueuePositionRecalculator, IQueuePositionRecalculator)]"

definition cancelQueueEntryUseCase_params :: "(token \<times> ts_type) list" where
  "cancelQueueEntryUseCase_params =
     [(T_QueueRepository, IQueueRepository), (T_RestaurantServiceClient, IRestaurantServiceClient),
      (T_QueueCacheService, IQueueCacheService), (T_WebSocketBroadcaster, IWebSocketBroadcaster),
      (T_QueuePositionRecalculator, IQueuePositionRecalculator)]"

definition getActiveQueueByUserUseCase_params :: "(token \<times> ts_type) list" where
  "getActiveQueueByUserUseCase_params = [(T_QueueRepository, IQueueRepository)]"

definition getQueueEtaUseCase_params :: "(token \<times> ts_type) list" where
  "getQueueEtaUseCase_params =
     [(T_QueueRepository, IQueueRepository), (T_RestaurantServiceClient, IRestaurantServiceClient),
      (T_EtaService, IEtaService)]"

definition getStaffQueueUseCase_params :: "(token \<times> ts_type) list" where
  "getStaffQueueUseCase_params = [(T_QueueRepository, IQueueRepository)]"

definition getCustomerQueueStatusUseCase_params :: "(token \<times> ts_type) list" where
  "getCustomerQueueStatusUseCase_params = [(T_QueueRepository, IQueueRepository)]"

definition healthController_params :: "(token \<times> ts_type) list" where
  "healthController_params = [(T_HealthService, IHealthService)]"

definition staffQueueController_params :: "(token \<times> ts_type) list" where
  "staffQueueController_params =
     [(T_RegisterQueueUseCase, IRegisterQueueUseCase), (T_AssignTableUseCase, IAssignTableUseCase),
      (T_RingCustomerUseCase, IRingCustomerUseCase), (T_GetStaffQueueUseCase, IGetStaffQueueUseCase)]"

definition staffQueueActionsController_params :: "(token \<times> ts_type) list" where
  "staffQueueActionsController_params =
     [(T_SeatPartyUseCase, ISeatPartyUseCase), (T_SkipPartyUseCase, ISkipPartyUseCase),
      (T_CancelQueueEntryUseCase, ICancelQueueEntryUseCase)]"

definition internalQueueController_params :: "(token \<times> ts_type) list" where
  "internalQueueController_params =
     [(T_GetActiveQueueByUserUseCase, IGetActiveQueueByUserUseCase),
      (T_GetCustomerQueueStatusUseCase, IGetCustomerQueueStatusUseCase)]"

definition customerQueueController_params :: "(token \<times> ts_type) list" where
  "customerQueueController_params =
     [(T_GetQueueEtaUseCase, IGetQueueEtaUseCase), (T_RegisterQueueUseCase, IRegisterQueueUseCase)]"

text \<open>The other classes have none.\<close>

fun injected :: "cls \<Rightarrow> (token \<times> ts_type) list" where
  "injected DatabaseService = databaseService_params"
| "injected RedisService = redisService_params"
| "injected BullMQQueueService = []"
| "injected PrismaQueueRepository = prismaQueueRepository_params"
| "injected RestaurantServiceClient = []"
| "injected MlEtaServiceClient = []"
| "injected RedisQueueCacheService = redisQueueCacheService_params"
| "injected SocketBroadcaster = []"
| "injected FirebasePushNotificationService = []"
| "injected RabbitMQService = rabbitMQService_params"
| "injected HealthService = healthService_params"
| "injected QueuePositionRecalculator = queuePositionRecalculator_params"
| "injected RegisterQueueUseCase = registerQueueUseCase_params"
| "injected AssignTableUseCase = assignTableUseCase_params"
| "injected RingCustomerUseCase = ringCustomerUseCase_params"
| "injected SeatPartyUseCase = seatPartyUseCase_params"
| "injected SkipPartyUseCase = skipPartyUseCase_params"
| "injected CancelQueueEntryUseCase = cancelQueueEntryUseCase_params"
| "injected GetActiveQueueByUserUseCase = getActiveQueueByUserUseCase_params"
| "injected GetQueueEtaUseCase = getQueueEtaUseCase_params"
| "injected GetStaffQueueUseCase = getStaffQueueUseCase_params"
| "injected GetCustomerQueueStatusUseCase = getCustomerQueueStatusUseCase_params"
| "injected HealthController = healthController_params"
| "injected StaffQueueController = staffQueueController_params"
| "injected StaffQueueActionsController = staffQueueActionsController_params"
| "injected InternalQueueController = internalQueueController_params"
| "injected CustomerQueueController = customerQueueController_params"

lemmas injected_params =
  databaseService_params_def
  redisService_params_def
  prismaQueueRepository_params_def
  redisQueueCacheService_params_def
  rabbitMQService_params_def
  healthService_params_def
  queuePositionRecalculator_params_def
  registerQueueUseCase_params_def
  assignTableUseCase_params_def
  ringCustomerUseCase_params_def
  seatPartyUseCase_params_def
  skipPartyUseCase_params_def
  cancelQueueEntryUseCase_params_def
  getActiveQueueByUserUseCase_params_def
  getQueueEtaUseCase_params_def
  getStaffQueueUseCase_params_def
  getCustomerQueueStatusUseCase_params_def
  healthController_params_def
  staffQueueController_params_def
  staffQueueActionsController_params_def
  internalQueueController_params_def
  customerQueueController_params_def

subsection \<open>Bindings\<close>

text \<open>\<open>toConstantValue\<close>, \<open>to(\<dots>).inSingletonScope()\<close> and \<open>toService\<close>.\<close>

datatype provider = ToConstantValue given_value | ToClass cls | ToService token

type_synonym bound = "token \<times> ts_type \<times> provider"

definition queueModule :: "bound list" where
  "queueModule =
     [(T_PrismaClient, PrismaClient, ToConstantValue prisma),
      (T_RedisClient, Redis, ToConstantValue redisClient),
      (T_RabbitMQClient, RabbitMQClient, ToConstantValue rabbitmqClient),
      (T_Logger, ILogger, ToConstantValue logger),
      (T_DatabaseService, Class DatabaseService, ToClass DatabaseService),
      (T_RedisService, Class RedisService, ToClass RedisService),
      (T_BullMQQueueService, Class BullMQQueueService, ToClass BullMQQueueService),
      (T_QueueService, IQueueService, ToService T_BullMQQueueService),
      (T_QueueRepository, IQueueRepository, ToClass PrismaQueueRepository),
      (T_RestaurantServiceClient, IRestaurantServiceClient, ToClass RestaurantServiceClient),
      (T_EtaService, IEtaService, ToClass MlEtaServiceClient),
      (T_QueueCacheService, IQueueCacheService, ToClass RedisQueueCacheService),
      (T_WebSocketBroadcaster, IWebSocketBroadcaster, ToClass SocketBroadcaster),
      (T_PushNotificationService, IPushNotificationService, ToClass FirebasePushNotificationService),
      (T_RabbitMQService, IRabbitMQService, ToClass RabbitMQService),
      (T_HealthService, IHealthService, ToClass HealthService),
      (T_QueuePositionRecalculator, IQueuePositionRecalculator, ToClass QueuePositionRecalculator),
      (T_RegisterQueueUseCase, IRegisterQueueUseCase, ToClass RegisterQueueUseCase),
      (T_AssignTableUseCase, IAssignTableUseCase, ToClass AssignTableUseCase),
      (T_RingCustomerUseCase, IRingCustomerUseCase, ToClass RingCustomerUseCase),
      (T_SeatPartyUseCase, ISeatPartyUseCase, ToClass SeatPartyUseCase),
      (T_SkipPartyUseCase, ISkipPartyUseCase, ToClass SkipPartyUseCase),
      (T_CancelQueueEntryUseCase, ICancelQueueEntryUseCase, ToClass CancelQueueEntryUseCase),
      (T_GetActiveQueueByUserUseCase, IGetActiveQueueByUserUseCase, ToClass GetActiveQueueByUserUseCase),
      (T_GetQueueEtaUseCase, IGetQueueEtaUseCase, ToClass GetQueueEtaUseCase),
      (T_GetStaffQueueUseCase, IGetStaffQueueUseCase, ToClass GetStaffQueueUseCase),
      (T_HealthController, Class HealthController, ToClass HealthController),
      (T_StaffQueueController, Class StaffQueueController, ToClass StaffQueueController),
      (T_StaffQueueActionsController, Class StaffQueueActionsController, ToClass StaffQueueActionsController),
      (T_InternalQueueController, Class InternalQueueController, ToClass InternalQueueController),
      (T_CustomerQueueController, Class CustomerQueueController, ToClass CustomerQueueController)]"

definition internalModule :: "bound list" where
  "internalModule =
     [(T_GetCustomerQueueStatusUseCase, IGetCustomerQueueStatusUseCase, ToClass GetCustomerQueueStatusUseCase)]"

text \<open>\<open>container.load\<close>\<close>

definition bindings :: "bound list" where
  "bindings = queueModule @ internalModule"

definition bindings_for :: "bound list \<Rightarrow> token \<Rightarrow> (ts_type \<times> provider) list" where
  "bindings_for bs t = map snd (filter (\<lambda>(t', _). t' = t) bs)"

subsection \<open>What a container does\<close>

text \<open>
  An object is one of the given values, or the one object of an identifier bound to a class. A request
  for a list of identifiers answers with their objects and with what was constructed on the way, each
  construction with the arguments the constructor got.
\<close>

datatype object = Given given_value | Built token

type_synonym construction = "token \<times> object list"

inductive stands_for :: "bound list \<Rightarrow> token \<Rightarrow> object \<Rightarrow> bool" for bs where
  given: "(t, d, ToConstantValue v) \<in> set bs \<Longrightarrow> stands_for bs t (Given v)"
| single: "(t, d, ToClass c) \<in> set bs \<Longrightarrow> stands_for bs t (Built t)"
| service: "(t, d, ToService t') \<in> set bs \<Longrightarrow> stands_for bs t' x \<Longrightarrow> stands_for bs t x"

definition needs :: "bound list \<Rightarrow> (token \<times> token) set" where
  "needs bs = {(t, p). (\<exists>d c. (t, d, ToClass c) \<in> set bs \<and> p \<in> fst ` set (injected c)) \<or>
                       (\<exists>d. (t, d, ToService p) \<in> set bs)}"

text \<open>
  What the library documents: a request is refused only when an identifier has no binding or several, or
  is needed for its own construction; objects of a singleton binding are constructed at most once, and
  their constructors get the objects of the identifiers they inject, in order.
\<close>

definition container_contract ::
  "bound list \<Rightarrow> (token list \<Rightarrow> 'e + (object list \<times> construction list)) \<Rightarrow> bool" where
  "container_contract bs resolve \<longleftrightarrow>
     (\<forall>ts. case resolve ts of
        Inl _ \<Rightarrow> (\<exists>t. length (bindings_for bs t) \<noteq> 1) \<or> \<not> acyclic (needs bs)
      | Inr (xs, built) \<Rightarrow>
          list_all2 (stands_for bs) ts xs \<and> distinct (map fst built) \<and>
          (\<forall>(t, args) \<in> set built. \<exists>d c. (t, d, ToClass c) \<in> set bs \<and>
             list_all2 (stands_for bs) (map fst (injected c)) args))"

subsection \<open>What objects provide\<close>

text \<open>What an identifier stands for in the end.\<close>

definition provider_of :: "token \<Rightarrow> provider" where
  "provider_of t = snd (hd (bindings_for bindings t))"

definition declared :: "token \<Rightarrow> ts_type" where
  "declared t = fst (hd (bindings_for bindings t))"

fun made_by :: "provider \<Rightarrow> given_value + cls" where
  "made_by (ToConstantValue v) = Inl v"
| "made_by (ToClass c) = Inr c"
| "made_by (ToService t) = (case provider_of t of ToConstantValue v \<Rightarrow> Inl v | ToClass c \<Rightarrow> Inr c | ToService _ \<Rightarrow> Inl prisma)"

fun fits :: "given_value + cls \<Rightarrow> ts_type \<Rightarrow> bool" where
  "fits (Inl v) ty \<longleftrightarrow> value_type v \<in> set (subtypes ty)"
| "fits (Inr c) ty \<longleftrightarrow> ty = Class c \<or> list_ex (\<lambda>i. i \<in> set (subtypes ty)) (implements c)"

fun made_from :: "object \<Rightarrow> given_value + cls" where
  "made_from (Given v) = Inl v"
| "made_from (Built t) = made_by (provider_of t)"

definition provides :: "object \<Rightarrow> ts_type \<Rightarrow> bool" where
  "provides x ty \<longleftrightarrow> fits (made_from x) ty"

subsection \<open>The wiring\<close>

lemmas wiring = bindings_for_def bindings_def queueModule_def internalModule_def

text \<open>Every identifier is bound, and once.\<close>

lemma bound_once: "bindings_for bindings t = [(declared t, provider_of t)]"
  by (cases t) (simp_all add: declared_def provider_of_def wiring)

text \<open>No class has two identifiers.\<close>

lemma in_bindings: "(t, declared t, provider_of t) \<in> set bindings"
proof -
  have "(declared t, provider_of t) \<in> set (bindings_for bindings t)" by (subst bound_once) simp
  then show ?thesis by (auto simp: bindings_for_def)
qed

lemma providers_distinct: "distinct (map (\<lambda>(_, _, p). p) bindings)"
  by (simp add: wiring)

lemma class_bound_once: "provider_of t = ToClass c \<Longrightarrow> provider_of t' = ToClass c \<Longrightarrow> t = t'"
  using in_bindings [of t] in_bindings [of t'] providers_distinct
    inj_onD [of "\<lambda>(_, _, p). p" "set bindings" "(t, declared t, ToClass c)" "(t', declared t', ToClass c)"]
  by (simp add: distinct_map)

text \<open>What is needed for a construction comes before it in this order.\<close>

definition stage_of :: "cls \<Rightarrow> nat" where
  "stage_of c =
     (if c \<in> {HealthController, StaffQueueController, StaffQueueActionsController,
          InternalQueueController, CustomerQueueController} then 5
      else if c \<in> {QueuePositionRecalculator, HealthService} then 3
      else if c \<in> {RegisterQueueUseCase, AssignTableUseCase, RingCustomerUseCase, SeatPartyUseCase,
          SkipPartyUseCase, CancelQueueEntryUseCase, GetActiveQueueByUserUseCase, GetQueueEtaUseCase,
          GetStaffQueueUseCase, GetCustomerQueueStatusUseCase} then 4
      else 1)"

definition stage :: "token \<Rightarrow> nat" where
  "stage t = (case provider_of t of ToConstantValue _ \<Rightarrow> 0 | ToService _ \<Rightarrow> 2 | ToClass c \<Rightarrow> stage_of c)"

lemma stage_injected: "provider_of t = ToClass c \<Longrightarrow> list_all (\<lambda>(p, _). stage p < stage t) (injected c)"
  by (cases c) (simp_all add: injected_params stage_def stage_of_def provider_of_def wiring)

lemma stage_service: "provider_of t = ToService t' \<Longrightarrow> stage t' < stage t"
  by (cases t) (auto simp: stage_def stage_of_def provider_of_def wiring)

text \<open>What parameters and bindings ask for is what they get.\<close>

lemma injected_fits: "list_all (\<lambda>(p, ty). fits (made_by (provider_of p)) ty) (injected c)"
  by (cases c) (simp_all add: injected_params provider_of_def wiring)

lemma declared_fits: "fits (made_by (provider_of t)) (declared t)"
  by (cases t) (simp_all add: provider_of_def declared_def wiring)

lemma service_made: "provider_of t = ToService t' \<Longrightarrow> made_by (provider_of t) = made_by (provider_of t')"
  by (cases t) (auto simp: provider_of_def wiring)

lemma binding_is: "(t, d, p) \<in> set bindings \<longleftrightarrow> declared t = d \<and> provider_of t = p"
proof -
  have "(t, d, p) \<in> set bindings \<longleftrightarrow> (d, p) \<in> set (bindings_for bindings t)"
    by (force simp: bindings_for_def)
  then show ?thesis by (auto simp: bound_once [of t])
qed

lemma stands_for_made: "stands_for bindings t x \<Longrightarrow> made_from x = made_by (provider_of t)"
proof (induction rule: stands_for.induct)
  case (service t d t' x)
  then show ?case using service_made [of t t'] by (simp add: binding_is)
qed (auto simp: binding_is)

text \<open>Both identifiers of the queue service stand for one object.\<close>

lemma queue_service_shared: "stands_for bindings T_QueueService (Built T_BullMQQueueService)"
  by (rule stands_for.service [of _ IQueueService], simp add: wiring,
      rule stands_for.single [of _ "Class BullMQQueueService" BullMQQueueService], simp add: wiring)

lemma needs_earlier: "(t, p) \<in> needs bindings \<Longrightarrow> stage p < stage t"
  using stage_injected [of t] stage_service [of t] by (auto simp: needs_def binding_is list_all_iff)

lemma needs_acyclic: "acyclic (needs bindings)"
proof (rule acyclic_subset)
  show "needs bindings \<subseteq> (measure stage)\<inverse>" using needs_earlier by auto
  show "acyclic ((measure stage)\<inverse>)" by (simp add: acyclic_converse wf_acyclic)
qed

lemma list_all2_mono_strong:
  "list_all2 P xs ys \<Longrightarrow> (\<And>x y. x \<in> set xs \<Longrightarrow> P x y \<Longrightarrow> Q x y) \<Longrightarrow> list_all2 Q xs ys"
  by (induction rule: list_all2_induct) auto

text \<open>What was constructed, by class.\<close>

definition built_class :: "token \<Rightarrow> cls option" where
  "built_class t = (case provider_of t of ToClass c \<Rightarrow> Some c | _ \<Rightarrow> None)"

lemma built_typed:
  assumes "distinct (map fst built)"
    and "\<forall>(t, args) \<in> set built. \<exists>d c. (t, d, ToClass c) \<in> set bindings \<and>
           list_all2 (stands_for bindings) (map fst (injected c)) args"
  shows "distinct (map (\<lambda>(t, _). built_class t) built)"
    and "list_all (\<lambda>(t, args). list_all2 (\<lambda>(_, ty) x. provides x ty)
           (case built_class t of None \<Rightarrow> [] | Some c \<Rightarrow> injected c) args) built"
proof -
  have cls: "built_class t = Some c \<and> provider_of t = ToClass c \<and> list_all2 (stands_for bindings) (map fst (injected c)) args"
    if "(t, args) \<in> set built" "c = the (built_class t)" for t args c
    using assms(2) that by (auto simp: binding_is built_class_def dest!: bspec)
  have "inj_on built_class (fst ` set built)"
    using cls class_bound_once by (fastforce intro!: inj_onI)
  with assms(1) have "distinct (map built_class (map fst built))"
    by (subst distinct_map) simp
  then show "distinct (map (\<lambda>(t, _). built_class t) built)"
    by (simp add: comp_def case_prod_unfold)
  have "list_all2 (\<lambda>(_, ty) x. provides x ty) (injected c) args"
    if "list_all2 (stands_for bindings) (map fst (injected c)) args" for c args
    using that unfolding list_all2_map1
  proof (rule list_all2_mono_strong)
    fix q x
    assume "q \<in> set (injected c)" and "stands_for bindings (fst q) x"
    then show "(\<lambda>(_, ty) x. provides x ty) q x"
      using injected_fits [of c] by (auto simp: provides_def list_all_iff stands_for_made)
  qed
  note typed = this
  show "list_all (\<lambda>(t, args). list_all2 (\<lambda>(_, ty) x. provides x ty)
      (case built_class t of None \<Rightarrow> [] | Some c \<Rightarrow> injected c) args) built"
    unfolding list_all_iff
  proof (clarify)
    fix t args
    assume "(t, args) \<in> set built"
    from cls [OF this refl] typed show "list_all2 (\<lambda>(_, ty) x. provides x ty)
        (case built_class t of None \<Rightarrow> [] | Some c \<Rightarrow> injected c) args"
      by (cases "built_class t") auto
  qed
qed

lemma answer_typed: "list_all2 (stands_for bindings) ts xs \<Longrightarrow> list_all2 (\<lambda>t x. provides x (declared t)) ts xs"
  by (erule list_all2_mono) (simp add: provides_def stands_for_made declared_fits)

subsection \<open>A container that keeps the contract\<close>

text \<open>
  The reference container goes through the identifiers depth first, with the identifiers on whose
  behalf it is asked and what was built so far. It shows that the contract can be kept.
\<close>

datatype di_error = NotBound token | Ambiguous token | Circular token

lemma in_TYPES: "t \<in> set TYPES"
  by (cases t) (simp_all add: TYPES_def)

lemma fewer_unvisited: "t \<notin> set path \<Longrightarrow> card (set TYPES - insert t (set path)) < card (set TYPES - set path)"
  by (rule psubset_card_mono) (use in_TYPES in auto)

function obtain_one :: "bound list \<Rightarrow> token list \<Rightarrow> token \<Rightarrow> construction list \<Rightarrow> di_error + (object \<times> construction list)"
  and obtain_all :: "bound list \<Rightarrow> token list \<Rightarrow> token list \<Rightarrow> construction list \<Rightarrow> di_error + (object list \<times> construction list)" where
  "obtain_one bs path t built =
     (if t \<in> set path then Inl (Circular t)
      else (case bindings_for bs t of
              [] \<Rightarrow> Inl (NotBound t)
            | _ # _ # _ \<Rightarrow> Inl (Ambiguous t)
            | [(_, ToConstantValue v)] \<Rightarrow> Inr (Given v, built)
            | [(_, ToService t')] \<Rightarrow> obtain_one bs (t # path) t' built
            | [(_, ToClass c)] \<Rightarrow>
                (if t \<in> fst ` set built then Inr (Built t, built)
                 else (case obtain_all bs (t # path) (map fst (injected c)) built of
                         Inl e \<Rightarrow> Inl e
                       | Inr (args, built') \<Rightarrow> Inr (Built t, built' @ [(t, args)])))))"
| "obtain_all bs path [] built = Inr ([], built)"
| "obtain_all bs path (t # ts) built =
     (case obtain_one bs path t built of
        Inl e \<Rightarrow> Inl e
      | Inr (x, log1) \<Rightarrow>
          (case obtain_all bs path ts log1 of
             Inl e \<Rightarrow> Inl e
           | Inr (xs, log2) \<Rightarrow> Inr (x # xs, log2)))"
  by pat_completeness auto

termination
  by (relation "measures [\<lambda>x. case x of Inl (_, path, _) \<Rightarrow> card (set TYPES - set path) | Inr (_, path, _) \<Rightarrow> card (set TYPES - set path),
        \<lambda>x. case x of Inl _ \<Rightarrow> 0 | Inr (_, _, ts, _) \<Rightarrow> Suc (length ts)]")
    (simp_all add: fewer_unvisited)

declare obtain_one.simps [simp del]

definition reference_container :: "bound list \<Rightarrow> token list \<Rightarrow> di_error + (object list \<times> construction list)" where
  "reference_container bs ts = obtain_all bs [] ts []"


lemma bindings_for_one: "bindings_for bs t = [(d, p)] \<Longrightarrow> (t, d, p) \<in> set bs"
proof -
  assume "bindings_for bs t = [(d, p)]"
  then have "(d, p) \<in> set (bindings_for bs t)" by simp
  then show ?thesis by (auto simp: bindings_for_def)
qed

lemma obtain_unfold:
  "t \<notin> set path \<Longrightarrow> bindings_for bs t = [(d, p)] \<Longrightarrow> obtain_one bs path t built =
     (case p of
        ToConstantValue v \<Rightarrow> Inr (Given v, built)
      | ToService t' \<Rightarrow> obtain_one bs (t # path) t' built
      | ToClass c \<Rightarrow>
          (if t \<in> fst ` set built then Inr (Built t, built)
           else (case obtain_all bs (t # path) (map fst (injected c)) built of
                   Inl e \<Rightarrow> Inl e
                 | Inr (args, built') \<Rightarrow> Inr (Built t, built' @ [(t, args)]))))"
  by (subst obtain_one.simps) (simp split: provider.split)

lemma single_pair: "length xs = 1 \<Longrightarrow> \<exists>a b. xs = [(a, b)]"
  by (cases xs) auto

text \<open>Requests are refused for the documented reasons only.\<close>

lemma obtain_refuses:
  "obtain_one bs path t built = Inl e \<Longrightarrow> \<forall>s \<in> set path. (s, t) \<in> (needs bs)\<^sup>+ \<Longrightarrow>
     (\<exists>t. length (bindings_for bs t) \<noteq> 1) \<or> \<not> acyclic (needs bs)"
  "obtain_all bs path ts built = Inl e \<Longrightarrow> \<forall>s \<in> set path. \<forall>t \<in> set ts. (s, t) \<in> (needs bs)\<^sup>+ \<Longrightarrow>
     (\<exists>t. length (bindings_for bs t) \<noteq> 1) \<or> \<not> acyclic (needs bs)"
proof (induction bs path t built and bs path ts built arbitrary: e and e rule: obtain_one_obtain_all.induct)
  case (1 bs path t built)
  consider "t \<in> set path" | "length (bindings_for bs t) \<noteq> 1"
    | d p where "t \<notin> set path" "bindings_for bs t = [(d, p)]"
    using single_pair [of "bindings_for bs t"] by blast
  then show ?case
  proof cases
    case 1
    with "1.prems"(2) show ?thesis by (auto simp: acyclic_def)
  next
    case (3 d p)
    have b: "(t, d, p) \<in> set bs" using 3(2) by (rule bindings_for_one)
    have up: "\<forall>s \<in> set (t # path). (s, q) \<in> (needs bs)\<^sup>+" if "(t, q) \<in> needs bs" for q
      using "1.prems"(2) that by (auto intro: trancl_into_trancl)
    show ?thesis
    proof (cases p)
      case (ToService t')
      then have "(t, t') \<in> needs bs" using b by (auto simp: needs_def)
      with "1.IH"(2) [OF 3(1) 3(2) refl ToService refl _ up] "1.prems"(1) 3 ToService show ?thesis
        by (simp add: obtain_unfold)
    next
      case (ToClass c)
      then have "\<forall>q \<in> set (map fst (injected c)). (t, q) \<in> needs bs" using b by (auto simp: needs_def)
      with up have "\<forall>s \<in> set (t # path). \<forall>q \<in> set (map fst (injected c)). (s, q) \<in> (needs bs)\<^sup>+" by blast
      moreover obtain e' where "t \<notin> fst ` set built" "obtain_all bs (t # path) (map fst (injected c)) built = Inl e'"
        using "1.prems"(1) 3 ToClass by (auto simp: obtain_unfold split: sum.splits if_splits)
      ultimately show ?thesis by (intro "1.IH"(1) [OF 3(1) 3(2) refl ToClass refl])
    qed (use "1.prems"(1) 3 in \<open>simp add: obtain_unfold\<close>)
  qed auto
next
  case (3 bs path t ts built)
  from "3.prems"(1) consider e' where "obtain_one bs path t built = Inl e'"
    | x b1 e' where "obtain_one bs path t built = Inr (x, b1)" "obtain_all bs path ts b1 = Inl e'"
    by (auto split: sum.splits)
  then show ?case
  proof cases
    case 1
    with "3.IH"(1) "3.prems"(2) show ?thesis by simp
  next
    case (2 x b1 e')
    with "3.IH"(2) [OF 2(1) refl 2(2)] "3.prems"(2) show ?thesis by simp
  qed
qed simp


text \<open>What is constructed is constructed once, and with the right arguments.\<close>

definition built_ok :: "bound list \<Rightarrow> construction list \<Rightarrow> bool" where
  "built_ok bs built \<longleftrightarrow> distinct (map fst built) \<and>
     (\<forall>(t, args) \<in> set built. \<exists>d c. (t, d, ToClass c) \<in> set bs \<and>
        list_all2 (stands_for bs) (map fst (injected c)) args)"

lemma built_ok_add:
  "built_ok bs built \<Longrightarrow> t \<notin> fst ` set built \<Longrightarrow> (t, d, ToClass c) \<in> set bs \<Longrightarrow>
     list_all2 (stands_for bs) (map fst (injected c)) args \<Longrightarrow> built_ok bs (built @ [(t, args)])"
  by (auto simp: built_ok_def)

lemma obtain_builds:
  "obtain_one bs path t built = Inr (x, built') \<Longrightarrow> built_ok bs built \<Longrightarrow>
     built_ok bs built' \<and> stands_for bs t x \<and> set path \<inter> fst ` set built' \<subseteq> fst ` set built"
  "obtain_all bs path ts built = Inr (xs, built') \<Longrightarrow> built_ok bs built \<Longrightarrow>
     built_ok bs built' \<and> list_all2 (stands_for bs) ts xs \<and> set path \<inter> fst ` set built' \<subseteq> fst ` set built"
proof (induction bs path t built and bs path ts built arbitrary: x built' and xs built' rule: obtain_one_obtain_all.induct)
  case (1 bs path t built)
  consider "t \<in> set path \<or> length (bindings_for bs t) \<noteq> 1"
    | d p where "t \<notin> set path" "bindings_for bs t = [(d, p)]"
    using single_pair [of "bindings_for bs t"] by blast
  then show ?case
  proof cases
    case 1
    then have "\<exists>e. obtain_one bs path t built = Inl e"
      by (subst obtain_one.simps) (auto split: list.splits provider.splits)
    with "1.prems"(1) show ?thesis by auto
  next
    case (2 d p)
    have b: "(t, d, p) \<in> set bs" using 2(2) by (rule bindings_for_one)
    show ?thesis
    proof (cases p)
      case (ToConstantValue v)
      with "1.prems" 2 b show ?thesis by (auto simp: obtain_unfold intro: stands_for.given)
    next
      case (ToService t')
      with "1.prems"(1) 2 have "obtain_one bs (t # path) t' built = Inr (x, built')" by (simp add: obtain_unfold)
      from "1.IH"(2) [OF 2 refl ToService refl this "1.prems"(2)] b ToService
      show ?thesis by (auto intro: stands_for.service)
    next
      case (ToClass c)
      show ?thesis
      proof (cases "t \<in> fst ` set built")
        case True
        with "1.prems" 2 b ToClass show ?thesis by (auto simp: obtain_unfold intro: stands_for.single)
      next
        case False
        then obtain args b1 where g: "obtain_all bs (t # path) (map fst (injected c)) built = Inr (args, b1)"
          and x: "x = Built t" "built' = b1 @ [(t, args)]"
          using "1.prems"(1) 2 ToClass by (auto simp: obtain_unfold split: sum.splits)
        from "1.IH"(1) [OF 2 refl ToClass refl False g "1.prems"(2)]
        have ih: "built_ok bs b1" "list_all2 (stands_for bs) (map fst (injected c)) args"
          "set (t # path) \<inter> fst ` set b1 \<subseteq> fst ` set built" by simp_all
        have "t \<notin> fst ` set b1" using ih(3) False by auto
        with ih b ToClass have "built_ok bs built'" unfolding x by (blast intro: built_ok_add)
        moreover have "stands_for bs t x" unfolding x using b ToClass by (auto intro: stands_for.single)
        ultimately show ?thesis using ih(3) 2(1) by (auto simp: x)
      qed
    qed
  qed
next
  case (3 bs path t ts built)
  from "3.prems"(1) obtain y b1 ys where y: "obtain_one bs path t built = Inr (y, b1)"
    and ys: "obtain_all bs path ts b1 = Inr (ys, built')" and xs: "xs = y # ys"
    by (auto split: sum.splits)
  from "3.IH"(1) [OF y "3.prems"(2)] have one: "built_ok bs b1" "stands_for bs t y"
    "set path \<inter> fst ` set b1 \<subseteq> fst ` set built" by simp_all
  from "3.IH"(2) [OF y refl ys one(1)] have rest: "built_ok bs built'" "list_all2 (stands_for bs) ts ys"
    "set path \<inter> fst ` set built' \<subseteq> fst ` set b1" by simp_all
  have "set path \<inter> fst ` set built' \<subseteq> fst ` set built" using rest(3) one(3) by blast
  with rest one(2) show ?case by (simp add: xs)
qed simp

lemma reference_keeps_contract: "container_contract bs (reference_container bs)"
proof -
  have "case obtain_all bs [] ts [] of
      Inl _ \<Rightarrow> (\<exists>t. length (bindings_for bs t) \<noteq> 1) \<or> \<not> acyclic (needs bs)
    | Inr (xs, built) \<Rightarrow> list_all2 (stands_for bs) ts xs \<and> built_ok bs built" for ts
    using obtain_refuses(2) [of bs "[]" ts "[]"] obtain_builds(2) [of bs "[]" ts "[]"]
    by (auto simp: built_ok_def split: sum.split)
  then show ?thesis
    unfolding container_contract_def reference_container_def built_ok_def by simp
qed

end
