(* ===== verification/Drift.thy ===== *)
theory Drift
  imports Frames
begin

text \<open>
  What a use case does to the database when the entry it works with was loaded at an earlier time and may
  be stale: other requests have changed the rows since. \<open>drift\<close> is what every such step still keeps:
  rows stay, with their identity, and the history only grows. Where the step writes no waiting entry back
  (\<open>drift False\<close>), entries that no longer wait stay so. The relation \<open>drifts\<close> on worlds has the composition rules of \<open>effect_order\<close>.
\<close>

subsection \<open>Databases\<close>

definition ids_ok :: "database \<Rightarrow> bool" where
  "ids_ok d \<longleftrightarrow> distinct (map r_id (entries d))"

definition row_kept :: "bool \<Rightarrow> entry_row \<Rightarrow> entry_row \<Rightarrow> bool" where
  "row_kept revives r r' \<longleftrightarrow>
     identity_of r' = identity_of r \<and> (\<not> revives \<and> r_status r \<noteq> WAITING \<longrightarrow> r_status r' \<noteq> WAITING)"

definition drift :: "bool \<Rightarrow> database \<Rightarrow> database \<Rightarrow> bool" where
  "drift revives d d' \<longleftrightarrow>
     (\<exists>rows new. entries d' = rows @ new \<and> list_all2 (row_kept revives) (entries d) rows) \<and>
     (\<exists>hs. history d' = history d @ hs) \<and> (ids_ok d \<longrightarrow> ids_ok d')"

lemma row_kept_refl [simp]: "row_kept v r r"
  by (simp add: row_kept_def)

lemma row_kept_trans: "row_kept v r s \<Longrightarrow> row_kept v s t \<Longrightarrow> row_kept v r t"
  by (auto simp: row_kept_def)

lemma drift_refl [simp]: "drift v d d"
proof -
  have "entries d = entries d @ [] \<and> list_all2 (row_kept v) (entries d) (entries d)"
    by (simp add: list.rel_refl_strong)
  then show ?thesis unfolding drift_def by blast
qed

lemma driftD:
  assumes "drift v d d'"
  obtains rows new hs where "entries d' = rows @ new" "list_all2 (row_kept v) (entries d) rows"
    "history d' = history d @ hs"
  using assms unfolding drift_def by blast

lemma drift_trans:
  assumes ab: "drift v a b" and bc: "drift v b c"
  shows "drift v a c"
proof -
  obtain ra na ha where a: "entries b = ra @ na" "list_all2 (row_kept v) (entries a) ra" "history b = history a @ ha"
    using ab by (rule driftD)
  obtain rb nb hb where b: "entries c = rb @ nb" "list_all2 (row_kept v) (entries b) rb" "history c = history b @ hb"
    using bc by (rule driftD)
  from a(1) b(2) obtain r1 r2 where r: "rb = r1 @ r2" "list_all2 (row_kept v) ra r1"
    by (metis list_all2_append1)
  have "list_all2 (row_kept v) (entries a) r1"
    by (rule list_all2_trans [OF row_kept_trans a(2) r(2)])
  with b(1) r(1) have "\<exists>rows new. entries c = rows @ new \<and> list_all2 (row_kept v) (entries a) rows"
    by (intro exI [of _ r1] exI [of _ "r2 @ nb"]) simp
  moreover have "\<exists>hs. history c = history a @ hs" using a(3) b(3) by simp
  ultimately show ?thesis using ab bc unfolding drift_def by blast
qed

lemma drift_weaken: "drift False d d' \<Longrightarrow> drift True d d'"
proof -
  have "list_all2 (row_kept False) xs ys \<Longrightarrow> list_all2 (row_kept True) xs ys" for xs ys
    by (erule list_all2_mono) (simp add: row_kept_def)
  then show "drift False d d' \<Longrightarrow> drift True d d'" unfolding drift_def by blast
qed

lemma drift_kept:
  assumes "drift v d d'"
  shows "take (length (entries d)) (map identity_of (entries d')) = map identity_of (entries d)"
    and "take (length (history d)) (history d') = history d"
proof -
  obtain rows new hs where d': "entries d' = rows @ new" "list_all2 (row_kept v) (entries d) rows" "history d' = history d @ hs"
    using assms by (rule driftD)
  have "map identity_of rows = map identity_of (entries d)"
    by (rule list_all2_map_eq [OF d'(2)]) (simp add: row_kept_def)
  then show "take (length (entries d)) (map identity_of (entries d')) = map identity_of (entries d)"
    by (simp add: d'(1) list_all2_lengthD [OF d'(2)])
  show "take (length (history d)) (history d') = history d" by (simp add: d'(3))
qed

lemma drift_left:
  assumes "drift False d d'"
  shows "r_id ` set (filter (\<lambda>r. r_status r \<noteq> WAITING) (entries d)) \<subseteq>
    r_id ` set (filter (\<lambda>r. r_status r \<noteq> WAITING) (entries d'))"
proof
  obtain rows new where d': "entries d' = rows @ new" "list_all2 (row_kept False) (entries d) rows"
    using assms by (auto elim: driftD)
  fix i assume "i \<in> r_id ` set (filter (\<lambda>r. r_status r \<noteq> WAITING) (entries d))"
  then obtain r where r: "r \<in> set (entries d)" "r_status r \<noteq> WAITING" "i = r_id r" by auto
  then obtain k where k: "k < length (entries d)" "entries d ! k = r" by (auto simp: in_set_conv_nth)
  have "row_kept False r (rows ! k)" using list_all2_nthD [OF d'(2) k(1)] k(2) by simp
  with r have "i = r_id (rows ! k)" "r_status (rows ! k) \<noteq> WAITING" by (auto simp: row_kept_def identity_of_def)
  moreover have "rows ! k \<in> set (entries d')" using k(1) list_all2_lengthD [OF d'(2)] d'(1) by simp
  ultimately show "i \<in> r_id ` set (filter (\<lambda>r. r_status r \<noteq> WAITING) (entries d'))" by auto
qed

text \<open>Rewriting rows, with more history.\<close>

lemma drift_rewrite:
  assumes f: "\<And>r. r \<in> set (entries d) \<Longrightarrow> row_kept v r (f r)"
    and rows: "entries d' = map f (entries d)" and hist: "history d' = history d @ hs"
  shows "drift v d d'"
proof -
  have id: "r_id (f r) = r_id r" if "r \<in> set (entries d)" for r
    using f [OF that] by (auto simp: row_kept_def identity_of_def)
  have ids: "map r_id (map f (entries d)) = map r_id (entries d)" using id by simp
  have "ids_ok d \<Longrightarrow> ids_ok d'" by (simp only: ids_ok_def rows ids)
  moreover have "list_all2 (row_kept v) (entries d) (map f (entries d))"
    using f by (simp add: list.rel_map list.rel_refl_strong)
  then have "\<exists>rows new. entries d' = rows @ new \<and> list_all2 (row_kept v) (entries d) rows"
    by (intro exI [of _ "map f (entries d)"] exI [of _ "[]"]) (simp add: rows)
  ultimately show ?thesis unfolding drift_def using hist by simp
qed

lemma drift_unchanged: "entries d' = entries d \<Longrightarrow> history d' = history d \<Longrightarrow> drift v d d'"
  by (rule drift_rewrite [where f = "\<lambda>r. r" and hs = "[]"]) simp_all

text \<open>A stale entry is known when its row is still there, as it is after any drift.\<close>

definition known :: "queue_entry \<Rightarrow> database \<Rightarrow> bool" where
  "known e d \<longleftrightarrow> identity_of (toPersistence e) \<in> identity_of ` set (entries d)"

lemma drift_known: "drift v d d' \<Longrightarrow> known e d \<Longrightarrow> known e d'"
proof -
  assume "drift v d d'" and k: "known e d"
  then obtain rows new where rows: "entries d' = rows @ new" "list_all2 (row_kept v) (entries d) rows"
    unfolding drift_def by blast
  have "map identity_of rows = map identity_of (entries d)"
    by (rule list_all2_map_eq [OF rows(2)]) (simp add: row_kept_def)
  then have "identity_of ` set rows = identity_of ` set (entries d)" by (metis set_map)
  with k rows(1) show ?thesis by (auto simp: known_def)
qed

text \<open>A step that works with no stored entry, as a registration does, knows nothing.\<close>

fun knows :: "queue_entry option \<Rightarrow> database \<Rightarrow> bool" where
  "knows None d \<longleftrightarrow> True"
| "knows (Some e) d \<longleftrightarrow> known e d"

lemma drift_knows: "drift v d d' \<Longrightarrow> knows e d \<Longrightarrow> knows e d'"
  by (cases e) (auto intro: drift_known)

lemma same_identity_row: "same_identity e x \<Longrightarrow> identity_of (toPersistence x) = identity_of (toPersistence e)"
  by (simp add: same_identity_def identity_of_def)

text \<open>Writing a later version of a known entry over its row.\<close>

lemma overwrite_kept:
  assumes ids: "ids_ok d" and k: "known e d" and x: "same_identity e x" and v: "v \<or> e_status x \<noteq> WAITING"
    and r: "r \<in> set (entries d)" and i: "i = e_id e"
  shows "row_kept v r (at_id i (\<lambda>_. toPersistence x) r)"
    and "row_kept v r (at_id i (\<lambda>old. keep_created_row old (toPersistence x)) r)"
proof -
  have "identity_of r = identity_of (toPersistence x)" if "r_id r = e_id e"
  proof -
    from k obtain s where s: "s \<in> set (entries d)" "identity_of s = identity_of (toPersistence e)"
      by (auto simp: known_def)
    then have "r_id s = r_id r" using that by (simp add: identity_of_def)
    with ids r s(1) have "s = r" unfolding ids_ok_def by (blast dest: distinct_key_eq)
    with s(2) same_identity_row [OF x] show ?thesis by simp
  qed
  with v show "row_kept v r (at_id i (\<lambda>_. toPersistence x) r)"
    and "row_kept v r (at_id i (\<lambda>old. keep_created_row old (toPersistence x)) r)"
    by (auto simp: row_kept_def at_id_def i keep_created_row_def identity_of_def)
qed

subsection \<open>Worlds\<close>

definition drifts :: "bool \<Rightarrow> queue_entry option \<Rightarrow> world \<Rightarrow> world \<Rightarrow> bool" where
  "drifts v e w w' \<longleftrightarrow> (ids_ok (db w) \<and> knows e (db w) \<longrightarrow> drift v (db w) (db w'))"

interpretation drifts: effect_order "drifts v e" for v e
proof
  show "drifts v e w w" for w by (simp add: drifts_def)
  fix a b c assume ab: "drifts v e a b" and bc: "drifts v e b c"
  show "drifts v e a c"
    unfolding drifts_def
  proof (intro impI)
    assume a: "ids_ok (db a) \<and> knows e (db a)"
    with ab have d: "drift v (db a) (db b)" by (simp add: drifts_def)
    with a have "ids_ok (db b) \<and> knows e (db b)" using drift_knows [OF d] by (simp add: drift_def)
    with bc have "drift v (db b) (db c)" by (simp add: drifts_def)
    with d show "drift v (db a) (db c)" by (rule drift_trans)
  qed
qed

lemma drifts_same: "stays same_db m \<Longrightarrow> stays (drifts v e) m"
  by (erule stays_mono) (simp add: same_db_def drifts_def)

lemma drifts_run: "stays (drifts v e) m \<Longrightarrow> stays (drifts v e) (run A m)"
  unfolding run_def run_with_def by (intro drifts.stays_catchE drifts.stays_throwE)

lemma drifts_db_run:
  assumes "\<And>d x d'. ids_ok d \<Longrightarrow> knows e d \<Longrightarrow> q d = Inr (x, d') \<Longrightarrow> drift v d d'"
  shows "stays (drifts v e) (db_run q)"
  unfolding stays_wp by (intro allI wp_db_runI) (use assms in \<open>auto simp: drifts_def\<close>)

lemma drifts_db_run_known:
  assumes "\<And>d x d'. ids_ok d \<Longrightarrow> known e d \<Longrightarrow> q d = Inr (x, d') \<Longrightarrow> drift v d d'"
  shows "stays (drifts v (Some e)) (db_run q)"
  by (rule drifts_db_run) (use assms in auto)

text \<open>What comes after a step that computes a later version of the entry.\<close>

lemma drifts_lift:
  assumes "\<And>x. r = Inr x \<Longrightarrow> stays (drifts v e) (f x)"
  shows "stays (drifts v e) (bindE (liftE c r) f)"
  using assms by (cases r) (simp_all add: liftE_def bindE_throwE bindE_retE)

subsection \<open>Transactions on stale entries\<close>

lemma drifts_update_status:
  assumes x: "same_identity e (us_queueEntry p)" and v: "v \<or> e_status (us_queueEntry p) \<noteq> WAITING"
  shows "stays (drifts v (Some e)) (updateStatusWithHistory p)"
  unfolding updateStatusWithHistory_def
proof (intro drifts_run drifts.stays_bindE drifts.stays_retE drifts_db_run_known drifts_same [OF new_date_same_db])
  fix t d y d'
  assume ids: "ids_ok d" and k: "known e d" and run: "tx_update_status p t d = Inr (y, d')"
  from run have "\<exists>h. history d' = history d @ [h] \<and>
      entries d' = map (at_id (e_id (us_queueEntry p)) (\<lambda>_. toPersistence (us_queueEntry p))) (entries d)"
    by (rule tx_update_status_Inr) (auto simp: add_history_def map_rows_def)
  then obtain h where d': "entries d' = map (at_id (e_id (us_queueEntry p)) (\<lambda>_. toPersistence (us_queueEntry p))) (entries d)"
    "history d' = history d @ [h]" by blast
  have "e_id (us_queueEntry p) = e_id e" using x by (simp add: same_identity_def)
  with overwrite_kept(1) [OF ids k x v] show "drift v d d'" by (intro drift_rewrite [OF _ d'])
qed

lemma drifts_assign:
  assumes x: "same_identity e x" and v: "v \<or> e_status x \<noteq> WAITING"
  shows "stays (drifts v (Some e)) (assignTablesWithHistory x ts cb prev)"
proof -
  have rows: "stays same_db (assignment_rows x ts cb)"
    unfolding assignment_rows_def
    by (intro same_db.stays_mapE same_db.stays_bindE same_db.stays_case_option same_db.stays_retE db_rules)
  have tx: "drift v d d'" if ids: "ids_ok d" and k: "known e d"
    and run: "tx_assign rows (toPersistence x) prev cb t d = Inr (y, d')" for rows t d y d'
  proof -
    from run have "\<exists>h. history d' = history d @ [h] \<and>
        entries d' = map (at_id (e_id x) (\<lambda>_. toPersistence x)) (entries d)"
      by (rule tx_assign_Inr) auto
    then obtain h where d': "entries d' = map (at_id (e_id x) (\<lambda>_. toPersistence x)) (entries d)"
      "history d' = history d @ [h]" by blast
    have "e_id x = e_id e" using x by (simp add: same_identity_def)
    with overwrite_kept(1) [OF ids k x v] show ?thesis by (intro drift_rewrite [OF _ d'])
  qed
  show ?thesis
    unfolding assignTablesWithHistory_def
    by (intro drifts_run drifts.stays_bindE drifts.stays_retE drifts_same [OF new_date_same_db]
        drifts_same [OF rows] drifts_db_run_known) (rule tx)
qed


lemma drifts_save:
  assumes x: "same_identity e x"
  shows "stays (drifts True (Some e)) (save queue_repo x)"
proof -
  let ?g = "\<lambda>old. keep_created_row old (toPersistence x)"
  have tx: "drift True d d'" if ids: "ids_ok d" and k: "known e d"
    and run: "modify_row queue_repo (e_id x) ?g d = Inr (y, d')" for d y d'
  proof -
    have i: "e_id x = e_id e" using x by (simp add: same_identity_def)
    from run have "entries d' = map (at_id (e_id x) ?g) (entries d)" "history d' = history d @ []"
      by (auto elim!: modify_row_Inr simp: map_rows_def)
    with overwrite_kept(2) [OF ids k x disjI1 _ i] show ?thesis by (intro drift_rewrite) auto
  qed
  have found: "find_row queue_repo (e_id x) d \<noteq> None" if "known e d" for d
    using that x by (auto simp: known_def identity_of_def same_identity_def find_row_def find_None_iff)
  show ?thesis
    unfolding save_def Let_def
  proof (intro drifts_run drifts_db_run_known)
    fix d y d'
    assume ids: "ids_ok d" and k: "known e d"
      and run: "(case find_row queue_repo (entity_key queue_repo x) d of
        None \<Rightarrow> map_sum (\<lambda>e. e) (\<lambda>(_, d'). ((), d')) (insert_row queue_repo (to_persistence queue_repo x) d)
      | Some _ \<Rightarrow> map_sum (\<lambda>e. e) (\<lambda>(_, d'). ((), d')) (modify_row queue_repo (entity_key queue_repo x)
          (\<lambda>old. keep_created queue_repo old (to_persistence queue_repo x)) d)) = Inr (y, d')"
    obtain r where "find_row queue_repo (e_id x) d = Some r" using found [OF k] by auto
    with run obtain z where "modify_row queue_repo (e_id x) ?g d = Inr (z, d')"
      by (cases "modify_row queue_repo (e_id x) ?g d") auto
    then show "drift True d d'" by (rule tx [OF ids k])
  qed
qed

lemma drift_positions: "tx_positions us d = Inr d' \<Longrightarrow> drift v d d'"
proof (induction us arbitrary: d)
  case (Cons ut us)
  obtain u t where ut: "ut = (u, t)" by (cases ut)
  note run = tx_positions_Cons(1) [OF Cons.prems [unfolded ut]]
  have "row_kept v r (at_id (pu_id u) (apply_position u t) r)" for r
    by (simp add: row_kept_def at_id_def apply_position_def Let_def identity_of_def split: option.split)
  then have "drift v d (map_rows (at_id (pu_id u) (apply_position u t)) d)"
    by (intro drift_rewrite [where hs = "[]"]) (auto simp: map_rows_def)
  from drift_trans [OF this Cons.IH [OF run]] show ?case .
qed simp

lemma drifts_positions: "stays (drifts v e) (batchUpdatePositions us)"
  unfolding batchUpdatePositions_def
  by (intro drifts.stays_if drifts.stays_retE drifts_run drifts.stays_bindE drifts.stays_mapE
      drifts_same [OF new_date_same_db] drifts_db_run)
    (case_tac "tx_positions x d"; auto intro: drift_positions)

lemma drifts_release: "stays (drifts v e) (releaseTableAssignments i)"
  unfolding releaseTableAssignments_def
  by (intro drifts_run drifts.stays_bindE drifts_same [OF new_date_same_db] drifts_db_run)
    (auto simp: tx_release_def intro: drift_unchanged)

lemma drifts_create: "stays (drifts v e) (qrun (create_checks data))" "stays (drifts v e) (qrun (create_insert data cb))"
proof -
  have tx: "drift v d d'" if run: "tx_insert data cb t d = Inr (y, d')" for t d y d'
  proof -
    note c = tx_insert_Inr [OF run]
    have rows: "entries d' = entries d @ [data]" "\<exists>h. history d' = history d @ [h]"
      using c(3) by (simp_all add: add_history_def)
    have "ids_ok d'" if "ids_ok d" using that c(2) by (simp add: ids_ok_def rows(1))
    moreover have "list_all2 (row_kept v) (entries d) (entries d)" by (simp add: list.rel_refl_strong)
    then have "\<exists>rows new. entries d' = rows @ new \<and> list_all2 (row_kept v) (entries d) rows"
      by (intro exI [of _ "entries d"] exI [of _ "[data]"]) (simp add: rows(1))
    ultimately show ?thesis unfolding drift_def using rows(2) by blast
  qed
  have checks: "d' = d" if "map_sum (\<lambda>e. e) (\<lambda>_. ((), d)) (tx_checks data d) = Inr (y, d')" for d y d'
    using that by (cases "tx_checks data d") auto
  show "stays (drifts v e) (qrun (create_checks data))"
    unfolding create_checks_def by (intro drifts_run drifts_db_run) (drule checks, simp)
  show "stays (drifts v e) (qrun (create_insert data cb))"
    unfolding create_insert_def
    by (intro drifts_run drifts.stays_bindE drifts.stays_retE drifts_same [OF new_date_same_db] drifts_db_run) (rule tx)
qed

end
