(* ===== verification/Interleaving.thy ===== *)
theory Interleaving
  imports Drift FreshIds
begin

text \<open>
  Requests that overlap. A use case that changes an entry first loads it and later writes a version of
  what it loaded; a registration first counts, then checks that the guest does not wait yet, then
  inserts. In between other requests run. Here these parts are separate steps: \<open>begin_request\<close> loads the
  entry, or counts, and leaves the rest pending; \<open>resume\<close> runs the next part, in whatever world there
  is by then. A schedule is a list of such steps of any requests. The writes of one transaction take
  effect together; between the checks and the insertion of the transaction that creates an entry other
  transactions may commit, as they may at the default isolation of the database.
\<close>

subsection \<open>The two steps of storing a registration\<close>

definition register_check :: "register_input \<Rightarrow> registration_metrics \<Rightarrow> (queue_entry \<times> int) io" where
  "register_check input metrics =
     bindE (predictEta (ri_restaurantId input) (rm_totalPeopleAhead metrics) (ri_partySize input)) (\<lambda>estimatedWaitMinutes.
     bindE new_date (\<lambda>now.
     bindE random_id (\<lambda>fresh.
     let queueEntry = register_entry input metrics estimatedWaitMinutes fresh now
     in bindE (qrun (create_checks (toPersistence queueEntry))) (\<lambda>_.
        retE (queueEntry, estimatedWaitMinutes)))))"

definition register_store :: "register_input \<Rightarrow> registration_metrics \<Rightarrow> queue_entry \<Rightarrow> int \<Rightarrow> register_output io" where
  "register_store input metrics queueEntry estimatedWaitMinutes =
     (let restaurantId = ri_restaurantId input in
      bindE (qrun (create_insert (toPersistence queueEntry) (Some (changed_by input)))) (\<lambda>persisted.
      bindE (guarded (saveLiveEntry (e_id persisted) restaurantId (rm_queueDepth metrics + 1)
        estimatedWaitMinutes)) (\<lambda>_.
      bindE (guarded (broadcastToRestaurant restaurantId EV_ENTRY_CREATED
        (created_data persisted restaurantId))) (\<lambda>_.
      retE (register_toOutputDTO persisted)))))"

text \<open>With nothing in between, they are the use case.\<close>

lemma qrun_bindE: "qrun (bindE m f) = bindE (qrun m) (\<lambda>x. qrun (f x))"
  by (rule ext) (auto simp: run_def run_with_def catchE_def bindE_def throwE_def split: prod.split sum.split)

lemma register_persist_split:
  "register_persist i m = bindE (register_check i m) (\<lambda>(x, eta). register_store i m x eta)"
  by (simp add: register_persist_def register_check_def register_store_def Let_def createWithHistory_def qrun_bindE
      bindE_assoc bindE_retE)

subsection \<open>The second parts as steps on stale entries\<close>

lemma drifts_recalculate: "stays (drifts v e) (recalculate predictEta rid)" "stays (drifts v e) (refresh_queue rid i)"
proof -
  have notices: "stays (drifts v e) (save_live_deltas rid ds)" "stays (drifts v e) (notify_tickets rid ds)"
      "stays (drifts v e) (notify_restaurant rid ds)" for ds
    unfolding save_live_deltas_def notify_tickets_def notify_restaurant_def
    by (rule drifts_same; intro same_db.stays_mapE quiet_same_db quiet_guarded quiet_saveLiveEntry broadcast_same_db)+
  show rec: "stays (drifts v e) (recalculate predictEta rid)"
    unfolding recalculate_def Let_def
    by (intro drifts.stays_bindE drifts.stays_if drifts.stays_retE drifts.stays_mapE drifts_positions notices
        drifts_same [OF queries_same_db(1)] drifts_same [OF predictEta_same_db])
  show "stays (drifts v e) (refresh_queue rid i)"
    unfolding refresh_queue_def
    by (intro drifts.stays_bindE rec drifts_same [OF quiet_same_db [OF quiet_removeLiveEntry]])
qed

lemma drifts_calls:
  "stays (drifts v e) new_date" "stays (drifts v e) random_id" "stays (drifts v e) (findActiveEntries rid)"
  "stays (drifts v e) (predictEta rid n p)" "stays (drifts v e) (assignTables rid ts)"
  "stays (drifts v e) (releaseTables rid rs)" "stays (drifts v e) (findActiveTableAssignments i)"
  "stays (drifts v e) (seat_messages si x)" "stays (drifts v e) (cancel_messages ci x)"
  "stays (drifts v e) (skip_messages ki x y pos)" "stays (drifts v e) (ask_cfg g)" "stays (drifts v e) (or_now t)"
  by (rule drifts_same; intro new_date_same_db random_id_same_db queries_same_db predictEta_same_db restaurant_same_db
      seat_messages_same_db cancel_messages_same_db skip_messages_same_db ask_cfg_same_db or_now_same_db)+

lemma drifts_seat: "stays (drifts False (Some e)) (seat_loaded input e)"
  unfolding seat_loaded_def Let_def
  by (intro drifts.stays_bindE drifts_calls drifts_lift drifts_recalculate drifts_assign life_step_identity [OF life_seat])
    (auto simp: seat_Inr)


lemma drifts_assigned: "stays (drifts False (Some e)) (assign_loaded input e)"
proof -
  have ahead: "stays (drifts v (Some e)) (catchE (bindE (countPeopleAheadAtJoin rid t) (\<lambda>n. retE (Some n))) (\<lambda>_. retE None))" for v rid t
    by (rule drifts_same; intro same_db.stays_catchE same_db.stays_bindE same_db.stays_retE queries_same_db)
  have training: "stays same_db (publish_training p n)" for p n
    unfolding publish_training_def toMlEtaTrainingEvent_def publishToMlEta_def guarded_def
    by (intro same_db.stays_case_option same_db.stays_bindE same_db.stays_catchE same_db.stays_retE or_now_same_db
        attempt_same_db) simp
  have output_dto: "stays same_db (assign_toOutputDTO p ts)" for p ts
    unfolding assign_toOutputDTO_def by (intro same_db.stays_bindE same_db.stays_retE or_now_same_db)
  have tail: "stays (drifts v (Some e)) (guarded (removeLiveEntry i))" "stays (drifts v (Some e)) (ticket_seated_messages rid i ts p)"
      "stays (drifts v (Some e)) (publish_training p n)" "stays (drifts v (Some e)) (assign_toOutputDTO p ts)" for v rid i ts p n
    by (rule drifts_same; intro training output_dto quiet_same_db [OF ticket_seated_quiet]
        quiet_same_db [OF quiet_guarded] quiet_same_db [OF quiet_removeLiveEntry])+
  show ?thesis
    unfolding assign_loaded_def Let_def
    by (intro ahead drifts.stays_if drifts.stays_throwE drifts.stays_bindE drifts_calls drifts_lift drifts_assign tail
        life_step_identity [OF life_seat])
      (auto simp: seat_Inr)
qed

lemma drifts_cancel: "stays (drifts False (Some e)) (cancel_loaded input e)"
  unfolding cancel_loaded_def release_assignments_def Let_def
  by (intro drifts.stays_bindE drifts.stays_if drifts.stays_retE drifts_calls drifts_lift drifts_recalculate
      drifts_release drifts_update_status)
    (auto simp: cancel_params_def cancel_Inr same_identity_def cancel_target_def split: if_splits)

lemma drifts_leave: "stays (drifts v (Some e)) (skip_leave input e)"
  unfolding skip_leave_def
  by (intro drifts.stays_bindE drifts_calls drifts_lift drifts_recalculate drifts_update_status)
    (auto simp: skip_params_def skip_Inr same_identity_def)

text \<open>Moving back writes the loaded entry with its loaded status.\<close>

lemma drifts_shift: "stays (drifts True (Some e)) (skip_shift input e n es k)"
  unfolding skip_shift_def Let_def
  by (intro drifts.stays_bindE drifts_calls drifts_recalculate drifts_positions drifts_update_status)
    (simp_all add: skip_params_def life_step_identity [OF life_move])

lemma drifts_skip: "stays (drifts True (Some e)) (skip_loaded input e)"
  unfolding skip_loaded_def Let_def
  by (intro drifts.stays_if drifts.stays_throwE drifts.stays_case_option drifts.stays_bindE drifts_calls drifts_leave drifts_shift)

lemma drifts_skip_leave: "\<not> (\<exists>n > 0. sk_skipPositions input = Some n) \<Longrightarrow> stays (drifts False (Some e)) (skip_loaded input e)"
  unfolding skip_loaded_def Let_def
  by (cases "sk_skipPositions input") (auto intro!: drifts_leave)

lemma drifts_ring: "stays (drifts True (Some e)) (ring_loaded input e)"
proof -
  have quiet: "stays (drifts v (Some e)) (dispatch_notification x l)" "stays (drifts v (Some e)) (called_message x l)" for v x l
    by (rule drifts_same; intro quiet_same_db dispatch_quiet called_quiet)+
  show ?thesis
    unfolding ring_loaded_def Let_def
    by (intro drifts.stays_bindE drifts.stays_retE drifts_calls drifts_lift drifts_save quiet life_step_identity [OF life_ring])
qed

lemma drifts_register: "stays (drifts v e) (register_check input m)" "stays (drifts v e) (register_store input m x eta)"
proof -
  have guards: "stays (drifts v e) (guarded (saveLiveEntry i r p eta))" "stays (drifts v e) (guarded (broadcastToRestaurant r ev x))"
    for i r p eta ev x
    by (rule drifts_same; intro quiet_same_db [OF quiet_guarded] quiet_same_db [OF quiet_saveLiveEntry] broadcast_same_db)+
  show "stays (drifts v e) (register_check input m)"
    unfolding register_check_def Let_def
    by (intro drifts.stays_bindE drifts.stays_retE drifts_calls drifts_create)
  show "stays (drifts v e) (register_store input m x eta)"
    unfolding register_store_def Let_def
    by (intro drifts.stays_bindE drifts.stays_retE drifts_create guards)
qed


subsection \<open>Schedules\<close>

text \<open>What is left to do of a request.\<close>

datatype pending =
    PRegister register_input registration_metrics
  | PStore register_input registration_metrics queue_entry int
  | PAssign assign_input queue_entry
  | PSeat seat_input queue_entry
  | PSkip skip_input queue_entry
  | PCancel cancel_input queue_entry
  | PRing ring_input queue_entry

text \<open>The first part of a request; one that only reads is answered at once.\<close>

fun begin_request :: "request \<Rightarrow> pending option io" where
  "begin_request (RegisterReq i) = bindE (register_admit i) (\<lambda>m. retE (Some (PRegister i m)))"
| "begin_request (AssignReq i) =
     bindE (load_entry (ai_restaurantId i) (ai_queueEntryId i)) (\<lambda>e. retE (Some (PAssign i e)))"
| "begin_request (SeatReq i) =
     bindE (load_entry (sp_restaurantId i) (sp_queueEntryId i)) (\<lambda>e. retE (Some (PSeat i e)))"
| "begin_request (SkipReq i) =
     bindE (load_entry (sk_restaurantId i) (sk_queueEntryId i)) (\<lambda>e. retE (Some (PSkip i e)))"
| "begin_request (CancelReq i) =
     bindE (load_entry (ci_restaurantId i) (ci_queueEntryId i)) (\<lambda>e. retE (Some (PCancel i e)))"
| "begin_request (RingReq i) =
     bindE (load_entry (rg_restaurantId i) (rg_queueEntryId i)) (\<lambda>e. retE (Some (PRing i e)))"
| "begin_request req = bindE (handle req) (\<lambda>_. retE None)"

text \<open>The next part of a pending request; most have only one.\<close>

definition last_part :: "'a io \<Rightarrow> pending option io" where
  "last_part m = bindE m (\<lambda>_. retE None)"

fun resume :: "pending \<Rightarrow> pending option io" where
  "resume (PRegister i m) = bindE (register_check i m) (\<lambda>(x, eta). retE (Some (PStore i m x eta)))"
| "resume (PStore i m x eta) = last_part (register_store i m x eta)"
| "resume (PAssign i e) = last_part (assign_loaded i e)"
| "resume (PSeat i e) = last_part (seat_loaded i e)"
| "resume (PSkip i e) = last_part (skip_loaded i e)"
| "resume (PCancel i e) = last_part (cancel_loaded i e)"
| "resume (PRing i e) = last_part (ring_loaded i e)"

datatype event = Begin request | Resume nat

fun step_event :: "event \<Rightarrow> pending list \<times> world \<Rightarrow> pending list \<times> world" where
  "step_event (Begin req) (ps, w) =
     (case begin_request req w of
        (Inr (Some p), w') \<Rightarrow> (ps @ [p], w')
      | (_, w') \<Rightarrow> (ps, w'))"
| "step_event (Resume k) (ps, w) =
     (if k < length ps
      then (case resume (ps ! k) w of
              (Inr (Some p), w') \<Rightarrow> (ps[k := p], w')
            | (_, w') \<Rightarrow> (take k ps @ drop (Suc k) ps, w'))
      else (ps, w))"

definition run_events :: "event list \<Rightarrow> pending list \<times> world \<Rightarrow> pending list \<times> world" where
  "run_events evs s = foldl (\<lambda>s ev. step_event ev s) s evs"

definition interleaved :: "env \<Rightarrow> event list \<Rightarrow> world" where
  "interleaved en evs = snd (run_events evs ([], start_world en))"

lemma run_events_append: "run_events (xs @ ys) s = run_events ys (run_events xs s)"
  by (simp add: run_events_def)

text \<open>The parts of a request, one after the other, are the request; a registration has three.\<close>

lemma answer_world: "snd (answer f m w) = snd (m w)" "snd (last_part m w) = snd (m w)"
  by (simp_all add: answer_def last_part_def bindE_def retE_def split: prod.split sum.split)

lemma answer_run: "answer f m w = (r, w') \<Longrightarrow> w' = snd (m w)"
  using answer_world(1) [of f m w] by simp

lemma part_returns: "last_part m w = (Inr (Some p), w') \<longleftrightarrow> False"
  by (auto simp: last_part_def bindE_def retE_def split: prod.splits sum.splits)

lemma resume_last:
  "\<forall>p w'. resume q w \<noteq> (Inr (Some p), w') \<Longrightarrow> step_event (Resume 0) ([q], w) = ([], snd (resume q w))"
  by (cases "resume q w"; cases "fst (resume q w)") (auto split: option.split)

lemma begin_then_resume: "run_events [Begin req, Resume 0, Resume 0] ([], w) = ([], snd (handle req w))"
proof -
  note execs = assign_execute_def seat_execute_def skip_execute_def cancel_execute_def ring_execute_def
  have loaded: "snd (answer f (bindE m g) w) = (case m w of (Inl e, w') \<Rightarrow> w' | (Inr x, w') \<Rightarrow> snd (g x w'))"
    for f and m :: "'a io" and g :: "'a \<Rightarrow> 'b io" and w
    unfolding answer_world by (simp add: bindE_def split: prod.split sum.split)
  show ?thesis
  proof (cases req)
    case (RegisterReq i)
    show ?thesis
    proof (cases "register_admit i w")
      case (Pair r w1)
      show ?thesis
      proof (cases r)
        case (Inr m)
        then show ?thesis
          using RegisterReq Pair
          by (cases "register_check i m w1"; cases "fst (register_check i m w1)")
            (auto simp: run_events_def register_execute_def loaded register_persist_split bindE_def retE_def
              last_part_def split: prod.splits sum.splits)
      qed (use RegisterReq Pair in \<open>simp add: run_events_def register_execute_def loaded bindE_def\<close>)
    qed
  qed (auto simp: run_events_def execs loaded answer_world bindE_def retE_def last_part_def dest: answer_run split: prod.splits sum.splits)
qed

text \<open>Serving requests one after the other is one of the schedules.\<close>

lemma sequential_schedule: "interleaved en (concat (map (\<lambda>req. [Begin req, Resume 0, Resume 0]) reqs)) = after en reqs"
proof -
  have "run_events (concat (map (\<lambda>req. [Begin req, Resume 0, Resume 0]) reqs)) ([], w) = ([], serve reqs w)" for w
  proof (induction reqs arbitrary: w)
    case Nil
    then show ?case by (simp add: run_events_def serve_def)
  next
    case (Cons req reqs)
    have "run_events ([Begin req, Resume 0, Resume 0] @ concat (map (\<lambda>req. [Begin req, Resume 0, Resume 0]) reqs)) ([], w) =
        run_events (concat (map (\<lambda>req. [Begin req, Resume 0, Resume 0]) reqs)) ([], snd (handle req w))"
      unfolding run_events_append begin_then_resume ..
    with Cons show ?case by (simp add: serve_def)
  qed
  then show ?thesis by (simp add: interleaved_def after_def)
qed


subsection \<open>What every schedule keeps\<close>

fun pending_entry :: "pending \<Rightarrow> queue_entry option" where
  "pending_entry (PRegister _ _) = None"
| "pending_entry (PStore _ _ _ _) = None"
| "pending_entry (PAssign _ e) = Some e"
| "pending_entry (PSeat _ e) = Some e"
| "pending_entry (PSkip _ e) = Some e"
| "pending_entry (PCancel _ e) = Some e"
| "pending_entry (PRing _ e) = Some e"

text \<open>Requests that never write a waiting entry back: all but ringing and moving back.\<close>

fun calm_pending :: "pending \<Rightarrow> bool" where
  "calm_pending (PRing _ _) = False"
| "calm_pending (PSkip i _) = (\<not> (\<exists>n > 0. sk_skipPositions i = Some n))"
| "calm_pending _ = True"

fun calm_event :: "event \<Rightarrow> bool" where
  "calm_event (Begin (RingReq _)) = False"
| "calm_event (Begin (SkipReq i)) = (case sk_skipPositions i of None \<Rightarrow> True | Some n \<Rightarrow> n \<le> 0)"
| "calm_event _ = True"

lemma drifts_last: "stays (drifts v e) m \<Longrightarrow> stays (drifts v e) (last_part m)"
  unfolding last_part_def by (intro drifts.stays_bindE drifts.stays_retE)

lemma drifts_weaken: "stays (drifts False e) m \<Longrightarrow> stays (drifts True e) m"
  by (erule stays_mono) (auto simp: drifts_def intro: drift_weaken)

lemma drifts_resume: "v \<or> calm_pending p \<Longrightarrow> stays (drifts v (pending_entry p)) (resume p)"
proof (cases p)
  case (PRegister i m)
  then show ?thesis
    by (auto intro!: drifts.stays_bindE drifts_register drifts.stays_retE split: prod.split)
qed (cases v; auto intro!: drifts_last intro: drifts_register drifts_ring drifts_skip drifts_skip_leave
      drifts_weaken drifts_assigned drifts_seat drifts_cancel)+

text \<open>A request that goes on after a part is a registration, and works with no stored entry.\<close>

lemma resume_next: "resume p w = (Inr (Some q), w') \<Longrightarrow> pending_entry q = None \<and> calm_pending q"
  by (cases p) (auto simp: part_returns bindE_def retE_def split: prod.splits sum.splits)

lemma begin_same_db: "stays same_db (begin_request req)"
proof -
  have admit: "stays same_db (register_admit i)" for i
    unfolding register_admit_def Let_def
    by (intro same_db.stays_bindE same_db.stays_if same_db.stays_throwE same_db.stays_liftE same_db.stays_retE
        restaurant_same_db queries_same_db)
  have q: "stays same_db (answer f m)" if "stays same_db m" for f and m :: "'a io"
    using that unfolding answer_def by (intro same_db.stays_bindE same_db.stays_retE)
  show ?thesis
    by (cases req)
      (auto intro!: same_db.stays_bindE same_db.stays_retE load_entry_same_db admit q eta_query_same_db query_use_cases_same_db)
qed

lemma begin_known:
  "wp (begin_request req) (\<lambda>p w'. case p of None \<Rightarrow> True
      | Some p \<Rightarrow> knows (pending_entry p) (db w') \<and> (calm_event (Begin req) \<longrightarrow> calm_pending p)) (\<lambda>_ _. True) w"
proof -
  have k: "known (toDomain r) (db w')" if "r \<in> set (entries (db w))" "db w' = db w" for r w'
    using that by (auto simp: known_def identity_of_def image_iff intro!: bexI [of _ r])
  show ?thesis
    by (cases req)
      (auto simp: wp_bindE wp_retE intro!: wp_load_entry wp_stays [OF begin_same_db] k split: option.splits)
qed


text \<open>
  What holds between steps: ids are unique and pending requests know their entries; in a calm schedule
  (\<open>v\<close> false) nothing pending writes a waiting entry back.
\<close>

definition schedule_ok :: "bool \<Rightarrow> pending list \<times> world \<Rightarrow> bool" where
  "schedule_ok v s \<longleftrightarrow> ids_ok (db (snd s)) \<and>
     (\<forall>p \<in> set (fst s). knows (pending_entry p) (db (snd s)) \<and> (v \<or> calm_pending p))"

lemma step_event_ok:
  assumes ok: "schedule_ok v s" and calm: "v \<or> calm_event ev"
  shows "schedule_ok v (step_event ev s) \<and> drift v (db (snd s)) (db (snd (step_event ev s)))"
proof -
  obtain ps w where s: "s = (ps, w)" by fastforce
  show ?thesis
  proof (cases ev)
    case (Begin req)
    obtain r w' where run: "begin_request req w = (r, w')" by fastforce
    have same: "db w' = db w" using staysD [OF begin_same_db, of w req] run by (simp add: same_db_def)
    have "\<forall>p. r = Inr (Some p) \<longrightarrow> knows (pending_entry p) (db w') \<and> (v \<or> calm_pending p)"
      using begin_known [of req w] run calm Begin by (auto simp: wp_def split: sum.splits)
    then show ?thesis
      using ok same by (cases r) (auto simp: s Begin run schedule_ok_def split: option.split)
  next
    case (Resume k)
    show ?thesis
    proof (cases "k < length ps")
      case True
      let ?p = "ps ! k"
      have p: "?p \<in> set ps" using True by simp
      have ids: "ids_ok (db w)" and kp: "knows (pending_entry ?p) (db w)" and cp: "v \<or> calm_pending ?p"
        using ok p by (auto simp: schedule_ok_def s)
      obtain r w' where run: "resume ?p w = (r, w')" by fastforce
      have d: "drift v (db w) (db w')"
        using staysD [OF drifts_resume [OF cp], of w] ids kp run by (simp add: drifts_def)
      have rest: "set (take k ps @ drop (Suc k) ps) \<subseteq> set ps" by (auto dest: in_set_takeD in_set_dropD)
      have later: "knows (pending_entry q) (db w') \<and> (v \<or> calm_pending q)" if "q \<in> set ps" for q
        using ok that drift_knows [OF d] by (auto simp: schedule_ok_def s)
      have ids': "ids_ok (db w')" using ids d by (simp add: drift_def)
      show ?thesis
      proof (cases "\<exists>q. r = Inr (Some q)")
        case True
        then obtain q where q: "r = Inr (Some q)" by blast
        have "knows (pending_entry q) (db w') \<and> calm_pending q" using resume_next run q by simp
        with later ids' d q \<open>k < length ps\<close> show ?thesis
          by (auto simp: schedule_ok_def s Resume run dest: set_update_subset_insert [THEN subsetD])
      next
        case False
        then have "step_event (Resume k) (ps, w) = (take k ps @ drop (Suc k) ps, w')"
          using \<open>k < length ps\<close> run by (cases r) (auto split: option.split)
        with later ids' d rest show ?thesis by (auto simp: schedule_ok_def s Resume simp del: step_event.simps)
      qed
    qed (use ok in \<open>simp add: s Resume\<close>)
  qed
qed

lemma run_events_ok:
  assumes "schedule_ok v s" and "v \<or> list_all calm_event evs"
  shows "schedule_ok v (run_events evs s) \<and> drift v (db (snd s)) (db (snd (run_events evs s)))"
  using assms(2)
proof (induction evs rule: rev_induct)
  case Nil
  then show ?case using assms(1) by (simp add: run_events_def)
next
  case (snoc ev evs)
  then have ih: "schedule_ok v (run_events evs s)" "drift v (db (snd s)) (db (snd (run_events evs s)))" by auto
  have step: "run_events (evs @ [ev]) s = step_event ev (run_events evs s)" by (simp add: run_events_def)
  from step_event_ok [OF ih(1), of ev] snoc.prems ih(2) show ?case
    unfolding step by (auto intro: drift_trans)
qed

lemma schedule_start: "schedule_ok v ([], start_world en)"
  by (simp add: schedule_ok_def start_world_def empty_database_def ids_ok_def)

text \<open>From any point of a schedule to any later one.\<close>

lemma interleaved_drift:
  assumes "v \<or> list_all calm_event (xs @ ys)"
  shows "ids_ok (db (interleaved en xs))" and "drift v (db (interleaved en xs)) (db (interleaved en (xs @ ys)))"
    and "drift v empty_database (db (interleaved en xs))"
proof -
  have x: "schedule_ok v (run_events xs ([], start_world en))"
    "drift v (db (start_world en)) (db (snd (run_events xs ([], start_world en))))"
    using run_events_ok [OF schedule_start, of v xs] assms by auto
  then show "ids_ok (db (interleaved en xs))" "drift v empty_database (db (interleaved en xs))"
    by (auto simp: schedule_ok_def interleaved_def start_world_def)
  show "drift v (db (interleaved en xs)) (db (interleaved en (xs @ ys)))"
    using run_events_ok [OF x(1), of ys] assms by (auto simp: interleaved_def run_events_append)
qed

end
