(* ===== verification/StaleWrites.thy ===== *)
theory StaleWrites
  imports Interleaving
begin

text \<open>
  What the write of a stale entry destroys. Ringing stores the entry as it was loaded, so an entry that
  was cancelled in between waits again, without a trace in the audit history.
\<close>

subsection \<open>The stored status of an entry\<close>

definition stored_status :: "uuid \<Rightarrow> database \<Rightarrow> queue_status list" where
  "stored_status i d = map r_status (filter (\<lambda>r. r_id r = i) (entries d))"

lemma stored_status_in:
  assumes "distinct (map r_id (entries d))" and "r \<in> set (entries d)"
  shows "stored_status (r_id r) d = [r_status r]"
proof -
  have "filter (\<lambda>s. r_id s = r_id r) (entries d) = [r]"
    using assms
  proof (induction "entries d" arbitrary: d)
    case (Cons a es)
    have "filter (\<lambda>s. r_id s = r_id r) es = [r]" if "r \<in> set es"
      using Cons(1) [of "d\<lparr> entries := es \<rparr>"] Cons(2,3) that by (simp flip: Cons(2))
    moreover have "filter (\<lambda>s. r_id s = r_id r) es = []" if "r_id a = r_id r"
      using that Cons(3) by (auto simp: filter_empty_conv image_iff simp flip: Cons(2))
    ultimately show ?case using Cons(3,4) by (auto simp flip: Cons(2))
  qed simp
  then show ?thesis by (simp add: stored_status_def)
qed

lemma stored_status_rewritten:
  assumes "\<And>r. r_id r = i \<Longrightarrow> r_id (f r) = i \<and> r_status (f r) = s"
  shows "stored_status i (map_rows (at_id i f) d) = map (\<lambda>_. s) (stored_status i d)"
proof -
  have "map r_status (filter (\<lambda>r. r_id r = i) (map (at_id i f) rs)) = map (\<lambda>_. s) (map r_status (filter (\<lambda>r. r_id r = i) rs))" for rs
    using assms by (induction rs) (auto simp: at_id_def)
  then show ?thesis by (simp add: stored_status_def map_rows_def)
qed

subsection \<open>Ringing a stale entry\<close>

lemma wp_save_stale:
  assumes stored: "e_id e \<in> r_id ` set (entries (db w))"
    and commit: "\<And>w'. stored_status (e_id e) (db w') = map (\<lambda>_. e_status e) (stored_status (e_id e) (db w)) \<Longrightarrow>
      history (db w') = history (db w) \<Longrightarrow> Q () w'"
    and reject: "\<And>err w'. db w' = db w \<Longrightarrow> E err w'"
  shows "wp (save queue_repo e) Q E w"
  unfolding save_def Let_def wp_run
proof (rule wp_db_runI)
  fix x d and w' :: world
  let ?g = "\<lambda>old. keep_created_row old (toPersistence e)"
  assume run: "(case find_row queue_repo (entity_key queue_repo e) (db w) of
         None \<Rightarrow> map_sum (\<lambda>e. e) (\<lambda>(_, d'). ((), d')) (insert_row queue_repo (to_persistence queue_repo e) (db w))
       | Some _ \<Rightarrow> map_sum (\<lambda>e. e) (\<lambda>(_, d'). ((), d')) (modify_row queue_repo (entity_key queue_repo e)
           (\<lambda>old. keep_created queue_repo old (to_persistence queue_repo e)) (db w))) = Inr (x, d)"
    and d: "db w' = d"
  obtain r where "find_row queue_repo (e_id e) (db w) = Some r" using find_row_exists [OF stored] by blast
  with run obtain r' where "modify_row queue_repo (e_id e) ?g (db w) = Inr (r', d)"
    by (cases "modify_row queue_repo (e_id e) ?g (db w)") auto
  then have "d = map_rows (at_id (e_id e) ?g) (db w)" by (rule modify_row_Inr)
  then show "Q x w'"
    using commit [of w'] stored_status_rewritten [of "e_id e" ?g "e_status e" "db w"] d
    by (simp add: keep_created_row_def map_rows_def)
qed (use reject in auto)

lemma wp_ring_stale:
  assumes stored: "e_id e \<in> r_id ` set (entries (db w))"
  shows "wp (ring_loaded input e)
    (\<lambda>_ w'. stored_status (e_id e) (db w') = map (\<lambda>_. WAITING) (stored_status (e_id e) (db w)) \<and>
       history (db w') = history (db w)) (\<lambda>_ w'. db w' = db w) w"
proof -
  let ?Q = "\<lambda>w'. stored_status (e_id e) (db w') = map (\<lambda>_. WAITING) (stored_status (e_id e) (db w)) \<and>
      history (db w') = history (db w)"
  have core: "wp (bindE (save queue_repo e') (\<lambda>_.
     bindE (ask_cfg cfg_ticketDeepLinkBaseUrl) (\<lambda>base.
     bindE (dispatch_notification e' (deep_link base (e_id e'))) (\<lambda>notificationDispatched.
     bindE (called_message e' (deep_link base (e_id e'))) (\<lambda>_.
     bindE (or_now (e_lastRingedAt e')) (\<lambda>t.
     retE \<lparr> go_queueEntryId = e_id e', go_restaurantId = e_restaurantId e',
            go_guestName = e_guestName e', go_ringCount = e_ringCount e', go_lastRingedAt = t,
            go_notificationDispatched = notificationDispatched \<rparr>)))))) (\<lambda>_. ?Q) (\<lambda>_ w'. db w' = db w) w1"
    if run: "ring t1 t2 e = Inr e'" and w1: "db w1 = db w" for t1 t2 e' w1
  proof -
    have e': "e_id e' = e_id e" "e_status e' = WAITING" "e_lastRingedAt e' = Some t1"
      using run by (auto simp: ring_Inr)
    show ?thesis
      unfolding e'(3) or_now_Some wp_bindE [of "save _ _"]
    proof (rule wp_save_stale, goal_cases)
      case (2 w2)
      have Q: "?Q w3" if "db w3 = db w2" for w3 using that 2 e' w1 by simp
      show ?case
        by (rule wp_quiet) (intro quiet_bindE quiet_ask quiet_retE dispatch_quiet called_quiet, rule Q)
    qed (use e' stored w1 in simp_all)
  qed
  show ?thesis
    unfolding ring_loaded_def Let_def new_date_def wp_bindE [of "ask clock"] wp_ask wp_bindE [of "liftE DomainError _"] wp_liftE
    using core by (auto split: sum.split)
qed

subsection \<open>Ringing overlaps with cancelling\<close>

lemma ring_over_cancel:
  assumes inv: "db_inv (db w)" and h: "healthy (ext w)" and r: "r \<in> set (entries (db w))"
    and can: "r_status r = WAITING" "r_registrationType r = ONLINE"
    and g: "rg_restaurantId g = r_restaurantId r" "rg_queueEntryId g = r_id r"
    and c: "ci_restaurantId c = r_restaurantId r" "ci_queueEntryId c = r_id r"
  shows "case run_events [Begin (RingReq g), Begin (CancelReq c), Resume 1] ([], w) of (ps, w1) \<Rightarrow>
      stored_status (r_id r) (db w1) = [cancel_target (ci_reason c)] \<and>
      (case step_event (Resume 0) (ps, w1) of (_, w2) \<Rightarrow>
        stored_status (r_id r) (db w2) = [WAITING] \<and> history (db w2) = history (db w1))"
proof -
  let ?e = "toDomain r" and ?wa = "w\<lparr> tick := Suc (tick w) \<rparr>" and ?i = "r_id r"
  let ?wb = "?wa\<lparr> tick := Suc (tick ?wa) \<rparr>"
  note ids = db_invD(5) [OF inv]
  have load: "load_entry (r_restaurantId r) ?i w = (Inr ?e, ?wa)" "load_entry (r_restaurantId r) ?i ?wa = (Inr ?e, ?wb)"
    using load_entry_run [of w r, OF ids r refl refl h] load_entry_run [of ?wa r ?i "r_restaurantId r"] ids r h by simp_all
  have "returns (cancel_execute c) ?wa"
    by (rule cancel_returns) (use inv h r can c in \<open>auto intro: waitsI\<close>)
  then obtain out w1 where run: "cancel_execute c ?wa = (Inr out, w1)" by (auto simp: returns_Inr)
  have cancelled: "cancel_loaded c ?e ?wb = (Inr out, w1)"
    using run load(2) c by (simp add: cancel_execute_def bindE_run)
  have "wp (cancel_execute c) (\<lambda>out w1. db_inv (db w1) \<and> entry_cancelled c out (db ?wa) (db w1)) (\<lambda>_ _. True) ?wa"
    by (rule wp_cancel) (use inv in simp_all)
  from wp_Inr [OF this run] have inv1: "db_inv (db w1)" and "entry_cancelled c out (db ?wa) (db w1)" by auto
  then obtain x where x: "cancels c (db ?wa) x" "toPersistence x \<in> set (entries (db w1))"
    by (auto simp: entry_cancelled_def left_queue_def)
  have status: "stored_status ?i (db w1) = [cancel_target (ci_reason c)]"
    using stored_status_in [OF db_invD(5) [OF inv1] x(2)] cancelsD [OF x(1)] c by simp
  have env: "ext w1 = ext w"
    using staysD [OF same_env.st_cancel, of ?wa c] run by (simp add: same_env_def)
  have in1: "e_id ?e \<in> r_id ` set (entries (db w1))" 
    using cancelsD(1) [OF x(1)] c by (intro image_eqI [OF _ x(2)]) simp
  have "returns (ring_loaded g ?e) w1" by (rule ring_loaded_returns) (use h env in1 can in simp_all)
  then obtain gout w2 where ring: "ring_loaded g ?e w1 = (Inr gout, w2)" by (auto simp: returns_Inr)
  from wp_Inr [OF wp_ring_stale [OF in1] ring] status
  have revived: "stored_status ?i (db w2) = [WAITING] \<and> history (db w2) = history (db w1)" by simp
  have "run_events [Begin (RingReq g), Begin (CancelReq c), Resume 1] ([], w) = ([PRing g ?e], w1)"
    using load cancelled g c by (simp add: run_events_def bindE_run retE_def last_part_def)
  moreover have "step_event (Resume 0) ([PRing g ?e], w1) = ([], w2)"
    using ring by (simp add: last_part_def bindE_run retE_def)
  ultimately show ?thesis using status revived by simp
qed

subsection \<open>Registrations that overlap\<close>

text \<open>
  Position and number of the day come from what was counted when the registration began, whatever was
  stored since: two that counted before either was stored get the same.
\<close>

lemma wp_create_stale:
  assumes "\<And>w'. Q e w'" and "\<And>err w'. E err w'"
  shows "wp (createWithHistory e cb) Q E w"
  by (rule wp_create_tx) (use assms in auto)

lemma persist_stale_metrics:
  "wp (register_persist i m)
     (\<lambda>out _. ro_position out = rm_queueDepth m + 1 \<and>
        ro_queueNumber out = generateQueueNumber (resolved_type i) (rm_countToday m + 1)) (\<lambda>_ _. True) w"
  unfolding register_persist_def Let_def wp_bindE random_id_def new_date_def wp_ask
  by (rule ml_eta.wp_predict, rule wp_create_stale)
    (auto simp: wp_simps register_toOutputDTO_def nullish_def
      intro!: wp_quiet [OF quiet_guarded] broadcast_same_db quiet_same_db [OF quiet_saveLiveEntry])

text \<open>
  The checks leave a new entry with an identifier that was drawn for it; the insertion stores it
  whoever waits by then.
\<close>

definition checked :: "register_input \<Rightarrow> queue_entry \<Rightarrow> world \<Rightarrow> world \<Rightarrow> bool" where
  "checked i x w w' \<longleftrightarrow>
     e_status x = WAITING \<and> e_restaurantId x = ri_restaurantId i \<and> e_phone x = js_trim (ri_guestPhone i) \<and>
     (\<exists>k. tick w \<le> k \<and> k < tick w' \<and> e_id x = random_uuid (ext w) k)"

lemma wp_register_check:
  "wp (register_check i m) (\<lambda>(x, eta) w'. db w' = db w \<and> same_env w w' \<and> checked i x w w') (\<lambda>_ _. True) w"
proof -
  have predict: "wp (predictEta r n p) (\<lambda>_ w'. db w' = db w \<and> same_env w w') (\<lambda>_ w'. db w' = db w \<and> same_env w w') w"
    for r n p
    by (rule wp_conj; use predictEta_same_db [of r n p] same_env.st_predictEta [of r n p] in \<open>simp add: stays_wp same_db_def [abs_def]\<close>)
  have core: "wp (bindE new_date (\<lambda>now. bindE random_id (\<lambda>fresh.
      let x = register_entry i m eta fresh now
      in bindE (qrun (create_checks (toPersistence x))) (\<lambda>_. retE (x, eta)))))
     (\<lambda>(x, eta) w'. db w' = db w \<and> same_env w w' \<and> checked i x w w') (\<lambda>_ _. True) w1"
    if w1: "db w1 = db w" "same_env w w1" for eta w1
  proof -
    let ?w = "w1\<lparr> tick := Suc (Suc (tick w1)) \<rparr>"
    let ?x = "register_entry i m eta (random_uuid (ext w) (Suc (tick w1))) (clock (ext w) (tick w1))"
    have env: "stays same_env (qrun (create_checks d))" for d
      unfolding create_checks_def by (intro same_env.st_run same_env.st_db_run)
    let ?Q = "\<lambda>(x, eta) w'. db w' = db w \<and> same_env w w' \<and> checked i x w w'"
    have "wp (qrun (create_checks (toPersistence ?x)))
        (\<lambda>_ w'. same_env ?w w' \<and> db w' = db w) (\<lambda>_ w'. same_env ?w w' \<and> db w' = db w) ?w"
    proof (rule wp_conj)
      show "wp (qrun (create_checks (toPersistence ?x))) (\<lambda>_ w'. same_env ?w w') (\<lambda>_ w'. same_env ?w w') ?w"
        using env by (simp add: stays_wp)
      show "wp (qrun (create_checks (toPersistence ?x))) (\<lambda>_ w'. db w' = db w) (\<lambda>_ w'. db w' = db w) ?w"
        unfolding wp_run by (rule wp_create_checks) (use w1 in simp_all)
    qed
    then have "wp (qrun (create_checks (toPersistence ?x))) (\<lambda>_. wp (retE (?x, eta)) ?Q (\<lambda>_ _. True)) (\<lambda>_ _. True) ?w"
    proof (rule wp_mono)
      fix u and w' :: world
      assume w': "same_env ?w w' \<and> db w' = db w"
      then have "checked i ?x w w'"
        using w1 unfolding checked_def by (auto simp: same_env_def intro!: exI [of _ "Suc (tick w1)"])
      with w' w1 show "wp (retE (?x, eta)) ?Q (\<lambda>_ _. True) w'" by (simp add: wp_retE same_env_def)
    qed simp
    then show ?thesis
      using w1 by (simp add: new_date_def random_id_def Let_def wp_bindE wp_ask same_env_def)
  qed
  show ?thesis
    unfolding register_check_def wp_bindE [of "predictEta _ _ _"]
    by (rule wp_mono [OF predict]) (use core in auto)
qed

lemma register_store_run:
  assumes h: "healthy (ext w)" and new: "e_id x \<notin> r_id ` set (entries (db w))"
  shows "\<exists>out w'. register_store i m x eta w = (Inr out, w') \<and> ext w' = ext w \<and>
    entries (db w') = entries (db w) @ [toPersistence x]"
proof -
  have row: "insert_row queue_repo (toPersistence x) (db w) =
      Inr (toPersistence x, (db w)\<lparr> entries := entries (db w) @ [toPersistence x] \<rparr>)"
    using new by (simp add: insert_row_Inr)
  have insert: "wp (create_insert (toPersistence x) cb) (\<lambda>_ w'. ext w' = ext w \<and> entries (db w') = entries (db w) @ [toPersistence x])
      (\<lambda>_ _. False) w" for cb
    using h row
    by (auto simp: create_insert_def wp_simps new_date_def tx_insert_def add_history_def split: option.split)
  have quiet: "wp (guarded (saveLiveEntry j r p t)) (\<lambda>_ w2. ext w2 = ext w' \<and> db w2 = db w') (\<lambda>_ _. False) w'"
    "wp (guarded (broadcastToRestaurant r ev d)) (\<lambda>_ w2. ext w2 = ext w' \<and> db w2 = db w') (\<lambda>_ _. False) w'" for j r p t ev d w'
  proof -
    have both: "wp m (\<lambda>_ w2. ext w2 = ext w' \<and> db w2 = db w') (\<lambda>_ _. False) w'"
      if "quiet m" "stays same_env m" for m :: "unit io"
      by (rule wp_mono [OF wp_conj [OF that(1) [unfolded quiet_def, rule_format] that(2) [unfolded stays_wp, rule_format]]])
        (auto simp: same_env_def)
    show "wp (guarded (saveLiveEntry j r p t)) (\<lambda>_ w2. ext w2 = ext w' \<and> db w2 = db w') (\<lambda>_ _. False) w'"
      by (intro both quiet_guarded quiet_same_db quiet_saveLiveEntry same_env.frame_rules)
    show "wp (guarded (broadcastToRestaurant r ev d)) (\<lambda>_ w2. ext w2 = ext w' \<and> db w2 = db w') (\<lambda>_ _. False) w'"
      by (intro both quiet_guarded broadcast_same_db same_env.frame_rules)
  qed
  have "wp (register_store i m x eta) (\<lambda>_ w'. ext w' = ext w \<and> entries (db w') = entries (db w) @ [toPersistence x]) (\<lambda>_ _. False) w"
    unfolding register_store_def Let_def wp_bindE wp_run wp_retE
    by (rule wp_mono [OF insert], rule wp_mono [OF quiet(1)], rule wp_mono [OF quiet(2)]) auto
  then show ?thesis by (cases "register_store i m x eta w"; cases "fst (register_store i m x eta w)") (auto simp: wp_def)
qed

lemma register_parts:
  assumes "returns (register_execute i) w"
  shows "\<exists>m w1. register_admit i w = (Inr m, w1) \<and> db w1 = db w \<and> same_env w w1"
proof -
  obtain m w1 where run: "register_admit i w = (Inr m, w1)"
    using assms by (auto simp: register_execute_def returns_Inr bindE_Inr)
  have "same_db w (snd (register_admit i w))"
    using staysD [OF begin_same_db, of w "RegisterReq i"] run by (simp add: bindE_run retE_def)
  moreover have "stays same_env (register_admit i)"
    unfolding register_admit_def Let_def
    by (intro same_env.stays_bindE same_env.stays_if same_env.stays_retE same_env.stays_throwE same_env.stays_liftE
        same_env.frame_rules same_env.st_restaurant)
  then have "same_env w (snd (register_admit i w))" by (rule staysD)
  ultimately show ?thesis using run by (simp add: same_db_def)
qed

lemma check_run:
  assumes h: "healthy (ext w)" and fresh: "fresh_ids w" and free: "\<not> waits_already i (db w)"
  shows "\<exists>x eta w1. register_check i m w = (Inr (x, eta), w1) \<and> db w1 = db w \<and> same_env w w1 \<and> checked i x w w1"
proof -
  have "returns (register_persist i m) w"
    unfolding register_persist_returns [OF h fresh] using free
    by (auto simp: waits_already_def waiting_at_def list_ex_iff)
  then obtain x eta w1 where "register_check i m w = (Inr (x, eta), w1)"
    by (auto simp: register_persist_split returns_Inr bindE_Inr)
  with wp_Inr [OF wp_register_check [of i m w] this] show ?thesis by auto
qed

text \<open>Two registrations of one guest that check before either is inserted both wait.\<close>

lemma registrations_race:
  assumes h: "healthy (ext w)" and adm: "admits (ext w) (ri_restaurantId i) (ri_partySize i)"
    and inj: "inj (random_uuid (ext w))" and fresh: "fresh_ids w" and free: "\<not> waits_already i (db w)"
  shows "case run_events [Begin (RegisterReq i), Begin (RegisterReq i), Resume 0, Resume 1, Resume 0, Resume 0] ([], w) of
    (ps, w') \<Rightarrow> ps = [] \<and>
      length (filter (\<lambda>r. waiting_at (ri_restaurantId i) r \<and> r_phone r = js_trim (ri_guestPhone i)) (entries (db w'))) = 2"
proof -
  have later: "healthy (ext w')" "fresh_ids w'" "\<not> waits_already i (db w')" "admits (ext w') (ri_restaurantId i) (ri_partySize i)"
    if "db w' = db w" "same_env w w'" for w'
    using that h adm free fresh_ids_later [OF fresh that] by (simp_all add: same_env_def)
  have reg: "returns (register_execute i) w'" if "db w' = db w" "same_env w w'" for w'
    using register_returns [of w' i] later [OF that] by simp
  note trans = same_env.R_trans
  obtain m1 w1 where a1: "register_admit i w = (Inr m1, w1)" "db w1 = db w" "same_env w w1"
    using register_parts [OF reg [OF refl same_env.R_refl]] by blast
  obtain m2 w2 where a2: "register_admit i w1 = (Inr m2, w2)" "db w2 = db w" "same_env w w2"
    using register_parts [OF reg [OF a1(2,3)]] a1(2,3) trans by (metis (no_types))
  obtain x1 t1 w3 where c1: "register_check i m1 w2 = (Inr (x1, t1), w3)" "db w3 = db w2" "same_env w2 w3" "checked i x1 w2 w3"
    using check_run [OF later(1-3) [OF a2(2,3)], of m1] by blast
  have w3: "db w3 = db w" "same_env w w3" using c1 a2 trans by simp_all
  obtain x2 t2 w4 where c2: "register_check i m2 w3 = (Inr (x2, t2), w4)" "db w4 = db w3" "same_env w3 w4" "checked i x2 w3 w4"
    using check_run [OF later(1-3) [OF w3], of m2] by blast
  obtain k1 k2 where k: "tick w2 \<le> k1" "k1 < tick w3" "e_id x1 = random_uuid (ext w) k1"
      "tick w3 \<le> k2" "e_id x2 = random_uuid (ext w) k2"
    using c1(4) c2(4) a2(3) w3(2) by (auto simp: checked_def same_env_def)
  have ticks: "tick w \<le> k1" "tick w \<le> k2" using k a2(3) w3(2) by (auto simp: same_env_def)
  have new: "e_id x1 \<notin> r_id ` set (entries (db w))" "e_id x2 \<notin> r_id ` set (entries (db w))"
    using fresh k ticks by (simp_all add: fresh_ids_def)
  have differ: "e_id x2 \<noteq> e_id x1" using k inj by (auto dest: injD)
  have w4: "ext w4 = ext w" "db w4 = db w" using c2(2,3) w3 by (simp_all add: same_env_def)
  obtain o1 w5 where s1: "register_store i m1 x1 t1 w4 = (Inr o1, w5)" "ext w5 = ext w"
      "entries (db w5) = entries (db w) @ [toPersistence x1]"
    using register_store_run [of w4 x1 i m1 t1] w4 h new by auto
  obtain o2 w6 where s2: "register_store i m2 x2 t2 w5 = (Inr o2, w6)"
      "entries (db w6) = entries (db w5) @ [toPersistence x2]"
    using register_store_run [of w5 x2 i m2 t2] s1(2,3) h new differ by auto
  have none: "filter (\<lambda>r. waiting_at (ri_restaurantId i) r \<and> r_phone r = js_trim (ri_guestPhone i)) (entries (db w)) = []"
    using free by (auto simp: waits_already_def waiting_at_def list_ex_iff filter_empty_conv)
  have "run_events [Begin (RegisterReq i), Begin (RegisterReq i), Resume 0, Resume 1, Resume 0, Resume 0] ([], w) = ([], w6)"
    using a1(1) a2(1) c1(1) c2(1) s1(1) s2(1)
    by (simp add: run_events_def bindE_run retE_def last_part_def)
  then show ?thesis
    using s1(3) s2(2) none c1(4) c2(4) by (simp add: checked_def waiting_at_def)
qed

end
