(* ===== verification/TableRequests.thy ===== *)
theory TableRequests
  imports StaleWrites
begin

text \<open>
  The requests about tables that a use case sends to the restaurant service, on every path. \<open>logs c m\<close>:
  the computation sends exactly the request \<open>c\<close> when it returns, and at most that when it rejects. The
  database and the restaurant service are written one after the other with no compensation, so a
  rejected use case may leave its request behind. A cancellation that overlaps a seating of the same
  entry is the one way to a release.
\<close>

subsection \<open>Computations that send one request\<close>

definition logs :: "upstream_call \<Rightarrow> 'a io \<Rightarrow> bool" where
  "logs c m \<longleftrightarrow> (\<forall>w. wp m (\<lambda>_ w'. upstream w' = upstream w @ [c])
     (\<lambda>_ w'. upstream w' = upstream w \<or> upstream w' = upstream w @ [c]) w)"

lemma logs_before:
  assumes m: "stays (kept upstream) m" and f: "\<And>x. logs c (f x)"
  shows "logs c (bindE m f)"
  unfolding logs_def wp_bindE
proof (intro allI wp_stays [OF m])
  fix w w' :: world and x
  assume "kept upstream w w'"
  then show "wp (f x) (\<lambda>_ w'. upstream w' = upstream w @ [c])
      (\<lambda>_ w'. upstream w' = upstream w \<or> upstream w' = upstream w @ [c]) w'"
    using spec [OF f [of x, unfolded logs_def], of w'] by (simp add: kept_def)
qed (simp add: kept_def)

lemma logs_then:
  assumes m: "logs c m" and f: "\<And>x. stays (kept upstream) (f x)"
  shows "logs c (bindE m f)"
  unfolding logs_def wp_bindE
  by (rule allI, rule wp_mono [OF m [unfolded logs_def, rule_format]])
    (auto intro!: wp_stays [OF f] simp: kept_def)

lemma logs_throw: "logs c (throwE e)"
  by (simp add: logs_def wp_throwE)

lemma logs_if: "logs c m \<Longrightarrow> logs c n \<Longrightarrow> logs c (if b then m else n)"
  by simp

text \<open>A request that is sent is logged, whatever the service and the breaker make of it.\<close>

lemma wp_request:
  assumes rest: "\<And>x. stays (kept upstream) (rest x)"
  shows "wp (catchE (bindE (log_upstream c) rest) (\<lambda>e. throwE (h e)))
    (\<lambda>_ w'. upstream w' = upstream w @ [c]) (\<lambda>_ w'. upstream w' = upstream w @ [c]) w"
  unfolding wp_catchE wp_throwE wp_bindE
  by (simp add: wp_def [of "log_upstream c"] log_upstream_def) (rule wp_stays [OF rest]; simp add: kept_def)

lemma wp_executeWithBreaker:
  assumes "wp (breaker_execute m) Q (\<lambda>_. E) w"
  shows "wp (executeWithBreaker m) Q (\<lambda>_. E) w"
  unfolding executeWithBreaker_def wp_catchE
  by (rule wp_mono [OF assms]) (auto simp: wp_throwE wp_bindE wp_ask_cfg split: js_error.split)

lemma wp_breaker_request:
  assumes op: "\<And>w. wp m (\<lambda>_ w'. upstream w' = upstream w @ [c]) (\<lambda>_ w'. upstream w' = upstream w @ [c]) w"
  shows "wp (executeWithBreaker m) (\<lambda>_ w'. upstream w' = upstream w @ [c])
    (\<lambda>_ w'. upstream w' = upstream w @ [c] \<or> upstream w' = upstream w \<and> gate_at (ext w) (tick w) \<noteq> Pass) w"
proof (rule wp_executeWithBreaker)
  let ?w = "w\<lparr> tick := Suc (tick w) \<rparr>"
  have sent: "wp m (\<lambda>_ w'. upstream w' = upstream w @ [c]) (\<lambda>_ w'. upstream w' = upstream w @ [c]) ?w"
    using op [of ?w] by simp
  show "wp (breaker_execute m) (\<lambda>_ w'. upstream w' = upstream w @ [c])
    (\<lambda>_ w'. upstream w' = upstream w @ [c] \<or> upstream w' = upstream w \<and> gate_at (ext w) (tick w) \<noteq> Pass) w"
    unfolding breaker_execute_def wp_bindE wp_ask
    by (cases "gate_at (ext w) (tick w)") (auto simp: wp_simps intro!: wp_mono [OF sent])
qed

lemma logs_assignTables: "logs (AssignTables r ts) (assignTables r ts)"
  unfolding logs_def assignTables_def
  by (intro allI wp_mono [OF wp_breaker_request [OF wp_request]] kept_upstream.stays_bindE kept_upstream.st_http
      kept_upstream.st_envelope) auto

lemma wp_releaseTables:
  "wp (releaseTables r ts) (\<lambda>_ w'. upstream w' = upstream w @ [ReleaseTables r ts])
    (\<lambda>_ w'. upstream w' = upstream w @ [ReleaseTables r ts] \<or> upstream w' = upstream w \<and> gate_at (ext w) (tick w) \<noteq> Pass) w"
  unfolding releaseTables_def
  by (intro wp_breaker_request [OF wp_request] kept_upstream.stays_bindE kept_upstream.st_http kept_upstream.st_envelope)

subsection \<open>Seating asks for tables once\<close>

text \<open>
  Each of the two ways of seating asks for its tables, before it stores anything: exactly once when it
  returns, and perhaps when it rejects.
\<close>

lemma assign_logs: "logs (AssignTables (ai_restaurantId input) (ai_tables input)) (assign_execute input)"
proof -
  have count: "stays (kept upstream) (catchE (bindE (countPeopleAheadAtJoin rid t) (\<lambda>n. retE (Some n))) (\<lambda>_. retE None))" for rid t
    by (intro kept_upstream.stays_catchE kept_upstream.stays_bindE kept_upstream.stays_retE kept_upstream.frame_rules)
  have tail: "stays (kept upstream) (bindE (assignTablesWithHistory x ts cb prev) (\<lambda>persisted.
      bindE (guarded (removeLiveEntry i)) (\<lambda>_.
      bindE (ticket_seated_messages rid i ts persisted) (\<lambda>_.
      bindE (publish_training persisted n) (\<lambda>_. assign_toOutputDTO persisted ts)))))" for x ts cb prev i rid n
    by (intro kept_upstream.stays_bindE kept_upstream.frame_rules kept_upstream.st_tails)
  show ?thesis
    unfolding assign_execute_unfold Let_def
    by (intro logs_before logs_if logs_throw logs_then [OF logs_assignTables] tail count
        kept_upstream.stays_liftE kept_upstream.frame_rules)
qed

lemma logs_lift: "(\<And>x. v = Inr x \<Longrightarrow> logs c (f x)) \<Longrightarrow> logs c (bindE (liftE h v) f)"
  by (cases v) (simp_all add: logs_def wp_bindE wp_throwE wp_retE)

lemma seat_loaded_logs:
  "logs (AssignTables (sp_restaurantId input) (seat_payload (e_partySize e) (sp_tableIds input))) (seat_loaded input e)"
proof -
  have tail: "stays (kept upstream) (bindE (assignTablesWithHistory x ts cb prev) (\<lambda>persisted.
      bindE (refresh_queue rid i) (\<lambda>_. seat_messages input persisted)))" for x ts cb prev i rid
    by (intro kept_upstream.stays_bindE kept_upstream.frame_rules kept_upstream.st_tails)
  show ?thesis
    unfolding seat_loaded_def Let_def
  proof (rule logs_before, rule kept_upstream.frame_rules, rule logs_before, rule kept_upstream.frame_rules, rule logs_lift)
    fix t1 t2 x
    assume "seat t1 t2 e = Inr x"
    then have "e_partySize x = e_partySize e" by (auto simp: seat_Inr)
    then show "logs (AssignTables (sp_restaurantId input) (seat_payload (e_partySize e) (sp_tableIds input)))
       (bindE (assignTables (sp_restaurantId input) (seat_payload (e_partySize x) (sp_tableIds input))) (\<lambda>_.
        bindE (assignTablesWithHistory x (sp_tableIds input) (sp_staffUserId input) (e_status e)) (\<lambda>persisted.
        bindE (refresh_queue (sp_restaurantId input) (sp_queueEntryId input)) (\<lambda>_. seat_messages input persisted))))"
      by (simp add: logs_then [OF logs_assignTables tail])
  qed
qed

subsection \<open>A cancellation that overlaps a seating\<close>

text \<open>Cancelling shares the party between the tables it releases as seating shared it.\<close>

lemma share_map: "share b r (map f xs) = map (\<lambda>(x, n). (f x, n)) (share b r xs)"
  by (induction xs arbitrary: r) (simp_all add: Let_def)

lemma payloads_share:
  "map (\<lambda>x. (at_tableId x, at_count x)) (seat_payload n ts) = share_party n ts"
  "map (\<lambda>x. (rt_tableId x, rt_occupancyToRelease x)) (release_payload n as) = share_party n (map ta_tableId as)"
  by (simp_all add: seat_payload_def release_payload_def share_party_def Let_def share_map case_prod_unfold comp_def)

text \<open>Loaded while it waited, an entry that has tables by now has them released.\<close>

lemma cancel_loaded_releases:
  assumes h: "healthy (ext w)" and e: "e_status e = WAITING"
    and some: "active_assignments (ci_queueEntryId input) (db w) \<noteq> []"
  shows "wp (cancel_loaded input e)
    (\<lambda>_ w'. upstream w' = upstream w @ [ReleaseTables (ci_restaurantId input)
       (release_payload (e_partySize e) (active_assignments (ci_queueEntryId input) (db w)))])
    (\<lambda>_ w'. upstream w' = upstream w @ [ReleaseTables (ci_restaurantId input)
       (release_payload (e_partySize e) (active_assignments (ci_queueEntryId input) (db w)))]) w"
proof -
  let ?as = "active_assignments (ci_queueEntryId input) (db w)"
  let ?U = "\<lambda>w'. upstream w' = upstream w @ [ReleaseTables (ci_restaurantId input) (release_payload (e_partySize e) ?as)]"
  have tail: "stays (kept upstream) (bindE (releaseTableAssignments (ci_queueEntryId input)) (\<lambda>_.
      bindE (updateStatusWithHistory p) (\<lambda>persisted.
      bindE (refresh_queue (ci_restaurantId input) (ci_queueEntryId input)) (\<lambda>_. cancel_messages input persisted))))" for p
    by (intro kept_upstream.stays_bindE kept_upstream.frame_rules kept_upstream.st_tails)
  have core: "wp (bindE (release_assignments input x) (\<lambda>_.
      bindE (updateStatusWithHistory p) (\<lambda>persisted.
      bindE (refresh_queue (ci_restaurantId input) (ci_queueEntryId input)) (\<lambda>_. cancel_messages input persisted))))
      (\<lambda>_. ?U) (\<lambda>_. ?U) (w\<lparr> tick := n \<rparr>)" if x: "e_partySize x = e_partySize e" for x p n
  proof -
    let ?w = "w\<lparr> tick := Suc n \<rparr>"
    have found: "findActiveTableAssignments (ci_queueEntryId input) (w\<lparr> tick := n \<rparr>) = (Inr ?as, ?w)"
      using h by (simp add: findActiveTableAssignments_def db_read_def run_Inr db_run_Inr)
    have "wp (bindE (releaseTables (ci_restaurantId input) (release_payload (e_partySize e) ?as)) (\<lambda>_.
        bindE (releaseTableAssignments (ci_queueEntryId input)) (\<lambda>_.
        bindE (updateStatusWithHistory p) (\<lambda>persisted.
        bindE (refresh_queue (ci_restaurantId input) (ci_queueEntryId input)) (\<lambda>_. cancel_messages input persisted)))))
        (\<lambda>_. ?U) (\<lambda>_. ?U) ?w"
      unfolding wp_bindE [of "releaseTables _ _"]
      by (rule wp_mono [OF wp_releaseTables]) (use h in \<open>auto intro!: wp_stays [OF tail] simp: kept_def\<close>)
    then show ?thesis
      using some x by (simp add: release_assignments_def bindE_assoc wp_bindE [of "findActiveTableAssignments _"]
          wp_def [of "findActiveTableAssignments _"] found)
  qed
  have run: "\<exists>x. cancel (cancel_target (ci_reason input)) t1 t2 e = Inr x \<and> e_partySize x = e_partySize e" for t1 t2
    using e by (simp add: cancel_Inr)
  show ?thesis
    unfolding cancel_loaded_def Let_def new_date_def wp_bindE [of "ask clock"] wp_ask wp_bindE [of "liftE DomainError _"] wp_liftE
    using run [of "clock (ext w) (tick w)" "clock (ext w) (Suc (tick w))"] core by auto
qed

lemma cancel_over_seat:
  assumes inv: "db_inv (db w)" and h: "healthy (ext w)" and g: "grants (ext w)" and fresh: "fresh_ids w"
    and waits: "waits (ci_restaurantId c) (ci_queueEntryId c) (db w)"
    and s: "sp_restaurantId s = ci_restaurantId c" "sp_queueEntryId s = ci_queueEntryId c" "sp_tableIds s \<noteq> []"
  shows "\<exists>ts rs. upstream (snd (run_events [Begin (CancelReq c), Begin (SeatReq s), Resume 1, Resume 0] ([], w))) =
      upstream w @ [AssignTables (ci_restaurantId c) ts, ReleaseTables (ci_restaurantId c) rs] \<and>
    map at_tableId ts = sp_tableIds s \<and>
    map (\<lambda>x. (rt_tableId x, rt_occupancyToRelease x)) rs = map (\<lambda>x. (at_tableId x, at_count x)) ts"
proof -
  let ?rid = "ci_restaurantId c" and ?i = "ci_queueEntryId c" and ?wa = "w\<lparr> tick := Suc (tick w) \<rparr>"
  let ?wb = "?wa\<lparr> tick := Suc (tick ?wa) \<rparr>"
  from waits obtain r where r: "r \<in> set (entries (db w))" "r_id r = ?i" "r_restaurantId r = ?rid" "r_status r = WAITING"
    by (rule waitsE)
  let ?e = "toDomain r" and ?n = "r_partySize r"
  note ids = db_invD(5) [OF inv]
  have load: "load_entry ?rid ?i w = (Inr ?e, ?wa)" "load_entry ?rid ?i ?wa = (Inr ?e, ?wb)"
    using load_entry_run [of w r, OF ids r(1-3) h] load_entry_run [of ?wa r ?i ?rid] ids r h by simp_all
  have "returns (seat_execute s) ?wa"
  proof (rule seat_returns)
    show "fresh_ids ?wa" by (rule fresh_ids_later [OF fresh]) (simp_all add: same_env_def)
  qed (use inv h g waits s in simp_all)
  then obtain out w1 where run: "seat_execute s ?wa = (Inr out, w1)" by (auto simp: returns_Inr)
  have seated: "seat_loaded s ?e ?wb = (Inr out, w1)"
    using run load(2) s by (simp add: seat_execute_def bindE_run)
  have "wp (seat_execute s) (\<lambda>out w1. party_seated s out (db ?wa) (db w1)) (\<lambda>_ _. True) ?wa"
    by (rule wp_seat) (use inv in simp_all)
  from wp_Inr [OF this run] s have tables: "map ta_tableId (active_assignments ?i (db w1)) = sp_tableIds s"
    by (auto simp: party_seated_def)
  have env: "ext w1 = ext w"
    using staysD [OF same_env.st_seating(2), of ?wa s] run by (simp add: same_env_def)
  have up1: "upstream w1 = upstream w @ [AssignTables ?rid (seat_payload ?n (sp_tableIds s))]"
    using wp_Inr [OF seat_loaded_logs [of s ?e, unfolded logs_def, rule_format, of ?wb] seated] s by simp
  obtain q w2 where cancelled: "cancel_loaded c ?e w1 = (q, w2)" by fastforce
  have "active_assignments ?i (db w1) \<noteq> []" using tables s(3) by auto
  with cancel_loaded_releases [of w1 ?e c] env h r(4) cancelled
  have up2: "upstream w2 = upstream w1 @ [ReleaseTables ?rid (release_payload ?n (active_assignments ?i (db w1)))]"
    by (cases q) (simp_all add: wp_def)
  have "snd (run_events [Begin (CancelReq c), Begin (SeatReq s), Resume 1, Resume 0] ([], w)) = w2"
    using load seated cancelled s
    by (cases q) (simp_all add: run_events_def bindE_run bindE_def retE_def last_part_def)
  moreover have "map at_tableId (seat_payload ?n (sp_tableIds s)) = sp_tableIds s"
    by (simp add: seat_payload_def comp_def case_prod_unfold share_party_fst)
  ultimately show ?thesis
    using up1 up2 tables payloads_share by fastforce
qed

end
