(* ===== verification/Spec2Isabelle.thy ===== *)
theory Spec2Isabelle
  imports Demo WaitingLine Clients Telemetry Wiring TableRequests
begin

text \<open>
  The queue service of a restaurant platform (TypeScript, \<open>src/src\<close>). Guests join the waiting line of a
  restaurant, by themselves over HTTP or registered by the staff; the staff seats them, skips them,
  cancels them, rings them; positions and estimated waiting times are recalculated on the way, kept in
  PostgreSQL, mirrored in Redis, announced over Socket.IO and pushed through Firebase.

  \<^bold>\<open>How the model is built.\<close> A use case is a function of type \<open>'a io\<close>: it takes a \<open>world\<close> and returns
  an error or a value, and the world afterwards. The world holds the rows of the three tables
  (\<open>db\<close>), the live states in Redis, a clock of calls, logs of what was sent (socket events, broker
  events, requests to the restaurant service, push jobs) and an environment: the answers of
  everything outside the repository, indexed by how many calls were made before. Every theorem holds for every
  environment, so each call out may fail at any point. \<open>after en reqs\<close> is the world after a list of
  requests, each run to its end, \<open>http_after\<close> the same over HTTP; \<open>interleaved en evs\<close> is the world after a
  schedule of requests that overlap.

  \<^bold>\<open>The data.\<close> \<open>Errors\<close>: the error classes, codes and statuses of \<open>domain/errors\<close>. \<open>Entities\<close>:
  \<open>queue-entry.entity.ts\<close> and the table assignment, each factory and operation of the classes.
  \<open>Lifecycle\<close>: the operations as an inductive relation between entities, with what every step keeps.
  \<open>World\<close>: the rows, the tables of \<open>schema.prisma\<close>, the environment. \<open>Effects\<close>: the composition rules of
  the computations, a weakest precondition \<open>wp\<close>, and the relation \<open>stays\<close> in the locale \<open>effect_order\<close>.
  \<open>Prelude\<close>: what the others share on lists, strings, numbers and sums.

  \<^bold>\<open>Persistence.\<close> \<open>BaseRepository\<close> is \<open>prisma-base.repository.ts\<close>, generic in the table, with the locale
  \<open>table_repository\<close>; \<open>QueueRepository\<close> is \<open>prisma-queue.repository.ts\<close>, its transactions
  \<open>tx_assign\<close>, \<open>tx_update_status\<close> and the like as functions on the database, the one that creates an entry
  in its two steps \<open>tx_checks\<close> and \<open>tx_insert\<close>, and the interpretation of that locale. \<open>DbInvariants\<close> states the invariant \<open>db_inv\<close> and the order \<open>db_evolves\<close> and proves that every
  transaction keeps both; \<open>RepositoryRules\<close> gives one rule per operation for the proofs of the use
  cases. \<open>Cache\<close> is \<open>redis-queue-cache.service.ts\<close> (locale \<open>live_store\<close>).

  \<^bold>\<open>Outside services.\<close> \<open>EtaClient\<close> is \<open>ml-eta-service.client.ts\<close>, \<open>RestaurantClient\<close> is
  \<open>restaurant-service.client.ts\<close>, both with the circuit breaker as a parameter; \<open>Broadcast\<close> is
  \<open>socket-broadcaster.ts\<close>. The locale \<open>eta_service\<close> is the port the recalculation relies on, interpreted
  on the client.

  \<^bold>\<open>The use cases\<close> (\<open>application\<close>). \<open>Recalculator\<close> is
  \<open>infrastructure/services/queue-position-recalculator.service.ts\<close>;
  \<open>Departure\<close> is what seating, skipping and cancelling share; then \<open>RegisterQueue\<close>, \<open>Seating\<close> (assign
  tables, seat party), \<open>SkipParty\<close>, \<open>CancelEntry\<close>, \<open>RingCustomer\<close> and \<open>Queries\<close>, one per use case, each
  with a description of its outcomes as a relation between two databases and one \<open>wp_\<close> lemma that every
  run has one of them. \<open>Service\<close> composes them: \<open>handle\<close> answers a request, \<open>serve\<close> a list of them, and
  \<open>reachable\<close> is the same inductively. \<open>WaitingLine\<close> is the abstract line, a list of identifiers, which
  the service refines; \<open>Tenancy\<close> shows that a request spares the other restaurants; \<open>Frames\<close> and
  \<open>Messages\<close> show what a use case cannot send, by interpretations of the frame locales.

  \<^bold>\<open>Overlap.\<close> Every use case that changes an entry loads it at one time and stores what it made of it at
  a later one; a registration counts at one time, checks in its transaction that the guest does not wait at
  a later one, and inserts at a third. Each use case is the composition of these parts (\<open>ring_execute\<close>
  loads and calls \<open>ring_loaded\<close>, \<open>register_execute\<close> calls \<open>register_admit\<close> and \<open>register_persist\<close>, which is
  \<open>register_check\<close> and \<open>register_store\<close>). \<open>Interleaving\<close> runs the parts of any requests in any order: a
  schedule is a list of \<open>Begin req\<close> and \<open>Resume k\<close>, which runs the next part of the \<open>k\<close>-th pending request.
  \<open>Drift\<close> is what a part still keeps when its entry is stale, each transaction for any entry the rows still
  know; \<open>StaleWrites\<close> and \<open>TableRequests\<close> are what no longer holds: a cancellation that is lost, a guest
  who waits twice, tables released that were just taken. \<open>TableRequests\<close> also says which requests about
  tables each use case sends, on every path.

  \<^bold>\<open>Liveness.\<close> \<open>Healthy\<close> defines an environment in which nothing outside fails, \<open>returns\<close> (a
  computation does not reject) and \<open>reliable\<close>, and how they compose: the \<open>wp_\<close> lemma of the first step is
  what the second may assume. \<open>Progress\<close> shows that ringing, cancelling and skipping return in a healthy
  environment exactly when the entry is one that can be rung, cancelled or skipped; \<open>Admission\<close> the same
  for registering, assigning and seating, which also need the restaurant service to admit and identifiers
  to be fresh; \<open>FreshIds\<close> derives that freshness, in any reachable state, from random numbers that do not
  repeat.

  \<^bold>\<open>The interfaces.\<close> \<open>Responses\<close> is \<open>api-response.ts\<close> with the error middleware; \<open>Http\<close> holds the
  middlewares, the validators' own code, the controllers and the chain of every route of
  \<open>presentation/http\<close>, with what Express, zod and the token verifier do in a record of parameters;
  \<open>HttpRules\<close> carries the facts of the use cases through the chains (locales \<open>http_frame\<close>,
  \<open>http_serves\<close>). \<open>Sockets\<close> is \<open>presentation/websocket\<close>: handshake, connection, room events and a session
  of them. \<open>Push\<close> is \<open>infrastructure/firebase\<close> and the notification worker. \<open>Process\<close> is
  \<open>server.ts\<close> with the clients it starts and stops. \<open>Telemetry\<close> holds the identifiers of a request, log
  fields and metrics. \<open>Demo\<close> is a concrete environment and requests for the witnesses.

  \<^bold>\<open>Settings and composition.\<close> \<open>Config\<close> is \<open>infrastructure/config\<close> and \<open>prisma.ts\<close>: the functions the
  schema of the environment variables uses, the settings, how the database connection is secured.
  \<open>Clients\<close> is what the service clients are constructed from and the requests they make. \<open>Wiring\<close> is
  \<open>di\<close>: identifiers, bindings, injected parameters, with the contract of the container.

  \<^bold>\<open>What is shown.\<close> C1 to C7: facts of whole runs, one request after the other, that is the invariant of
  the database, no two active tickets, finality, history, refinement of the abstract line, separation of
  restaurants. C8 to C12: what is left of them when requests overlap, and what is not. C13 to C20: the
  outcomes of each use case on every path, errors included. C21 to C23: that requests are served when
  nothing fails. C24 to C30: the components, such as the numbering, the sharing of a party between tables,
  the clients' errors, the round trip through the tables and the views. C31 to C35: the rooms of a socket and
  the delivery of pushes. C36 to C40: joining, table lists, error answers, shutdown and the wiring. The last
  section holds smaller facts.

  \<^bold>\<open>Recursion.\<close> Every definition is total and executable. The only loop that is not structural is
  \<open>send_loop\<close>, the retries of a push, which ends since the attempts left decrease; no fuel is used.
  Numbers of the program are integers in all the places modelled, and are \<open>int\<close> here: positions, party
  sizes, minutes and milliseconds stay far below the limit of exact numbers of JavaScript, and rounding
  is written out with \<open>div\<close>. Strings are lists of characters up to code 255.

  \<^bold>\<open>Parameters.\<close> Not in the repository, so arguments of the model with any behaviour unless a theorem
  says otherwise: PostgreSQL failing or not, random numbers and identifiers, the clock, axios and the circuit
  breaker, Redis, the message broker, Socket.IO, Firebase, BullMQ, the schemas built with zod (the
  contract \<open>zod_contract\<close> states what a schema for table lists accepts), the match of a path to a
  route, making and verifying service tokens, reading files and URLs, the container of inversify
  (\<open>container_contract\<close>).

  \<^bold>\<open>Not modelled.\<close> Requests interleaved at other points than between these parts: the writes of one
  transaction take effect together, as they do at the default isolation of PostgreSQL, and only the creating
  transaction is split between what it reads and what it writes, the one place where a transaction decides by
  rows it does not change; predictions in parallel (\<open>Promise.all\<close> runs in order); the time to live of Redis keys; the timer of the shutdown, whose firing is
  a flag; the collectors of metrics and the text of log lines; the pools and sockets that libraries open
  from the settings; the schemas of zod and the defaults they hold; type declarations without behaviour.
\<close>

section \<open>Properties of whole runs\<close>

text \<open>
  C1. After any list of requests, and after any list of HTTP requests, in any environment, the database
  satisfies its invariant: unique ids, well-formed rows, one active ticket per user and per phone and
  restaurant, tables only for seated parties, and an audit trail that explains every status.
\<close>

theorem run_keeps_db_inv: "db_inv (db (after en reqs)) \<and> db_inv (db (http_after en fw qs))"
  by (simp add: after_inv http_after_inv)

text \<open>
  C2. In no run does a registered user ever have two waiting entries, at the same or at different
  restaurants, and never are two entries with the same phone number waiting at one restaurant.
\<close>

theorem one_active_ticket:
  "length (filter (\<lambda>r. r_status r = WAITING \<and> r_userId r = Some (c # u)) (entries (db (after en reqs)))) \<le> 1 \<and>
   length (filter (\<lambda>r. waiting_at rid r \<and> r_phone r = phone) (entries (db (after en reqs)))) \<le> 1"
proof
  show "length (filter (\<lambda>r. r_status r = WAITING \<and> r_userId r = Some (c # u)) (entries (db (after en reqs)))) \<le> 1"
    by (rule length_filter_one [OF after_facts(5)], rule unique_waiting [OF after_facts(2)])
      (auto simp: conflicting_def)
  show "length (filter (\<lambda>r. waiting_at rid r \<and> r_phone r = phone) (entries (db (after en reqs)))) \<le> 1"
    by (rule length_filter_one [OF after_facts(5)], rule unique_waiting [OF after_facts(2)])
      (auto simp: conflicting_def waiting_at_def)
qed

text \<open>
  C3. Seated, skipped, cancelled and no-show entries are final: every row with such a status is still
  there, unchanged in every field, after any further requests.
\<close>

theorem terminal_entries_frozen:
  "set (filter (\<lambda>r. r_status r \<noteq> WAITING) (entries (db (after en xs)))) \<subseteq> set (entries (db (after en (xs @ ys))))"
  by (rule db_evolves_facts(3) [OF after_evolves])

text \<open>
  C4. No request removes an entry, changes what identifies it (guest, phone, party size, queue number,
  times of joining and creation) or rewrites the audit history, which only grows.
\<close>

theorem identity_and_history_kept:
  "take (length (entries (db (after en xs)))) (map identity_of (entries (db (after en (xs @ ys)))))
     = map identity_of (entries (db (after en xs))) \<and>
   take (length (history (db (after en xs)))) (history (db (after en (xs @ ys)))) = history (db (after en xs))"
  using db_evolves_facts(1,2) [OF after_evolves] by blast

text \<open>
  C5. The audit history of every entry is a path from its creation to the status it has now: each row
  starts from the status the one before reached, and only waiting is ever left.
\<close>

theorem audit_trail_complete:
  "list_all (\<lambda>r. audit_path None (history_of (r_id r) (db (after en reqs))) (r_status r))
     (entries (db (after en reqs)))"
  using after_facts(4) [of en reqs] by (auto simp: audit_ok_def list_all_iff)

text \<open>
  C6. The service refines an abstract queue of identifiers, restaurant by restaurant. A registration that
  returns puts exactly the identifier of its answer into the line, and one that rejects nothing; a request
  of the staff takes the named entry out or moves it, which a rejected one may have done or not; and the
  others keep their order. The rows of the other restaurants are exactly the ones before, none changed and
  none added.
\<close>

theorem requests_refine_line:
  "case restaurant_of req of
     None \<Rightarrow> db (snd (handle req (after en reqs))) = db (after en reqs)
   | Some rid \<Rightarrow>
       (case handle req (after en reqs) of
          (Inl _, w') \<Rightarrow> line_spec req None (queue_ids rid (db (after en reqs))) (queue_ids rid (db w'))
        | (Inr res, w') \<Rightarrow> line_spec req (Some res) (queue_ids rid (db (after en reqs))) (queue_ids rid (db w'))) \<and>
       spares rid (db (after en reqs)) (db (snd (handle req (after en reqs))))"
proof (cases "restaurant_of req")
  case None
  then obtain u where "req = CustomerStatusReq u" by (cases req) auto
  then have "stays same_db (handle req)" by (simp add: query_use_cases_same_db)
  then have "same_db (after en reqs) (snd (handle req (after en reqs)))" by (rule staysD)
  then show ?thesis by (simp add: None same_db_def)
next
  case (Some rid)
  then show ?thesis
    using handle_line [OF after_inv Some] handle_spares [OF after_inv Some]
    by (auto simp: line_step_def keeps_others_def split: prod.split sum.split)
qed

text \<open>
  C7. A staff request over HTTP, whatever its parameters and body, leaves every row of every restaurant
  but the one the gateway vouches for as it was. Zod is only taken to return the identifiers it was
  given.
\<close>

theorem staff_stay_in_restaurant:
  assumes "zod_contract fw" and "r \<in> set staff_routes"
  shows "spares (gateway_restaurant q) (db (http_after en fw qs))
    (db (snd (http_app fw (q\<lparr> hq_route := Some r \<rparr>) (http_after en fw qs))))"
proof -
  let ?q = "q\<lparr> hq_route := Some r \<rparr>"
  have "stays (tenant_step (gateway_restaurant ?q)) (http_app fw ?q)"
    using staff_route_tenant [OF assms] by (intro tenant.stays_app) simp
  then have "tenant_step (gateway_restaurant ?q) (http_after en fw qs) (snd (http_app fw ?q (http_after en fw qs)))"
    by (rule staysD)
  then show ?thesis by (simp add: tenant_step_def http_after_inv gateway_restaurant_def)
qed

theorem staff_stay_in_restaurant_witness:
  "spares ''r1'' (db (http_after demo_env demo_framework []))
     (db (snd (http_app demo_framework (demo_seat_request\<lparr> hq_route := Some SeatRoute \<rparr>)
       (http_after demo_env demo_framework []))))"
  using staff_stay_in_restaurant [OF demo_framework_contract, of SeatRoute demo_seat_request demo_env "[]"]
  by (simp add: staff_routes_def gateway_restaurant_def demo_seat_request_def getHeaderValue_def js_trim_def js_space_def)

section \<open>Properties of requests that overlap\<close>

text \<open>
  C8. However requests overlap, each loading its entry at one time and writing at a later one, no schedule
  removes an entry, changes what identifies it, rewrites the audit history or repeats an id.
\<close>

theorem interleaved_history_kept:
  "distinct (map r_id (entries (db (interleaved en xs)))) \<and>
   take (length (entries (db (interleaved en xs)))) (map identity_of (entries (db (interleaved en (xs @ ys)))))
     = map identity_of (entries (db (interleaved en xs))) \<and>
   take (length (history (db (interleaved en xs)))) (history (db (interleaved en (xs @ ys))))
     = history (db (interleaved en xs))"
  using interleaved_drift [of True xs ys en] by (simp add: ids_ok_def drift_kept)

text \<open>
  C9. In a schedule of overlapping requests without ringing and moving back, an entry that stopped waiting
  never waits again.
\<close>

theorem interleaved_left_stays_left:
  "r_id ` set (filter (\<lambda>r. r_status r \<noteq> WAITING) (entries (db (interleaved en (filter calm_event evs)))))
     \<subseteq> r_id ` set (filter (\<lambda>r. r_status r \<noteq> WAITING) (entries (db (interleaved en (filter calm_event (evs @ later))))))"
proof -
  have calm: "list_all calm_event (filter calm_event evs @ filter calm_event later)"
    by (auto simp: list_all_iff)
  show ?thesis using drift_left [OF interleaved_drift(2) [OF disjI2 [OF calm]]] by simp
qed

text \<open>
  C10. A cancellation can be lost: when an entry is cancelled between the loading and the storing of a ring,
  the ring is answered and the entry waits again, with the audit history still ending in the cancellation.
\<close>

theorem cancelled_entry_waits_again:
  assumes "healthy en" and "r \<in> set (entries (db (after en reqs)))"
    and "r_status r = WAITING" and "r_registrationType r = ONLINE"
  shows "case run_events
      [Begin (RingReq \<lparr> rg_restaurantId = r_restaurantId r, rg_queueEntryId = r_id r, rg_staffUserId = s \<rparr>),
       Begin (CancelReq \<lparr> ci_restaurantId = r_restaurantId r, ci_queueEntryId = r_id r, ci_staffUserId = s',
         ci_reason = reason, ci_notes = notes \<rparr>),
       Resume 1] ([], after en reqs) of (ps, w1) \<Rightarrow>
     stored_status (r_id r) (db w1) = [cancel_target reason] \<and>
     (case step_event (Resume 0) (ps, w1) of (_, w2) \<Rightarrow>
       stored_status (r_id r) (db w2) = [WAITING] \<and> history (db w2) = history (db w1))"
  using ring_over_cancel [OF after_inv _ assms(2-4), of
      "\<lparr> rg_restaurantId = r_restaurantId r, rg_queueEntryId = r_id r, rg_staffUserId = s \<rparr>"
      "\<lparr> ci_restaurantId = r_restaurantId r, ci_queueEntryId = r_id r, ci_staffUserId = s',
         ci_reason = reason, ci_notes = notes \<rparr>"] assms(1)
  by simp

theorem cancelled_entry_waits_again_witness:
  "\<exists>r \<in> set (entries (db (after demo_env [RegisterReq demo_online_guest]))).
     case run_events
      [Begin (RingReq \<lparr> rg_restaurantId = r_restaurantId r, rg_queueEntryId = r_id r, rg_staffUserId = ''s'' \<rparr>),
       Begin (CancelReq \<lparr> ci_restaurantId = r_restaurantId r, ci_queueEntryId = r_id r, ci_staffUserId = ''s'',
         ci_reason = ''OTHER'', ci_notes = None \<rparr>),
       Resume 1] ([], after demo_env [RegisterReq demo_online_guest]) of (ps, w1) \<Rightarrow>
     stored_status (r_id r) (db w1) = [cancel_target ''OTHER''] \<and>
     (case step_event (Resume 0) (ps, w1) of (_, w2) \<Rightarrow>
       stored_status (r_id r) (db w2) = [WAITING] \<and> history (db w2) = history (db w1))"
proof -
  have "resolved_type demo_online_guest = ONLINE"
    by (simp add: demo_online_guest_def demo_guest_def resolved_type_def nullish_def truthy_def)
  with demo_guest_registered [of demo_online_guest] obtain r
    where r: "r \<in> set (entries (db (after demo_env [RegisterReq demo_online_guest])))"
      "r_status r = WAITING" "r_registrationType r = ONLINE"
    by (auto simp: demo_online_guest_def demo_guest_def)
  show ?thesis by (intro bexI [of _ r] cancelled_entry_waits_again [OF demo_env_good(1) r] r(1))
qed

text \<open>
  C11. That nobody waits twice is not kept when requests overlap: two registrations of one guest that both
  pass the checks of their transactions before either inserts are both stored, and the guest waits twice
  at the restaurant with one phone number.
\<close>

theorem double_registration_waits_twice:
  assumes "healthy en" and "admits en (ri_restaurantId input) (ri_partySize input)" and "inj (random_uuid en)"
    and "\<not> waits_already input (db (after en reqs))"
  shows "case run_events [Begin (RegisterReq input), Begin (RegisterReq input), Resume 0, Resume 1, Resume 0, Resume 0]
      ([], after en reqs) of (ps, w') \<Rightarrow> ps = [] \<and>
      length (filter (\<lambda>r. waiting_at (ri_restaurantId input) r \<and> r_phone r = js_trim (ri_guestPhone input))
        (entries (db w'))) = 2"
  using assms by (intro registrations_race) (simp_all add: fresh_after)

theorem double_registration_waits_twice_witness:
  "case run_events [Begin (RegisterReq (demo_guest ''1'')), Begin (RegisterReq (demo_guest ''1'')),
      Resume 0, Resume 1, Resume 0, Resume 0] ([], after demo_env []) of (ps, w') \<Rightarrow> ps = [] \<and>
      length (filter (\<lambda>r. waiting_at (ri_restaurantId (demo_guest ''1'')) r \<and>
        r_phone r = js_trim (ri_guestPhone (demo_guest ''1''))) (entries (db w'))) = 2"
  by (rule double_registration_waits_twice)
    (use demo_env_good demo_guest_admitted in \<open>simp_all add: demo_guest_def\<close>)



section \<open>Properties of the use cases\<close>

text \<open>
  C13. Registration is all or nothing: if it rejects, for whatever reason, the database is as it was; if
  it returns, exactly one row was added, waiting at the position after the last one, with the data of
  the request and a non-negative estimate, and the answer describes that row.
\<close>

theorem register_atomic:
  "case register_execute input (after en reqs) of
     (Inl _, w') \<Rightarrow> db w' = db (after en reqs)
   | (Inr out, w') \<Rightarrow> registered input out (db (after en reqs)) (db w')"
proof -
  have "wp (register_execute input) (\<lambda>out w'. registered input out (db (after en reqs)) (db w'))
      (\<lambda>_ w'. db w' = db (after en reqs)) (after en reqs)"
    by (rule wp_register [OF after_inv])
  then show ?thesis by (simp add: wp_def)
qed

text \<open>
  C14. Registration keeps the numbering of every queue: if the waiting entries of a restaurant hold the
  positions 1, 2, 3 and so on, they do after any registration.
\<close>

theorem register_keeps_numbering:
  assumes "contiguous rid (db (after en reqs))"
  shows "contiguous rid (db (snd (register_execute input (after en reqs))))"
proof -
  have "wp (register_execute input) (\<lambda>_ w'. contiguous rid (db w')) (\<lambda>_ w'. contiguous rid (db w')) (after en reqs)"
    by (rule wp_register [OF after_inv]) (use assms registered_contiguous in auto)
  then show ?thesis by (simp add: wp_snd)
qed

theorem register_keeps_numbering_witness:
  "contiguous ''r'' (db (snd (register_execute (demo_guest ''1'') (after demo_env []))))"
  by (rule register_keeps_numbering)
    (simp add: after_def serve_def start_world_def empty_database_def contiguous_def active_rows_def)

text \<open>
  C15. Seating a party through the staff queue: on success the entry is seated with exactly the
  requested tables, it left the queue, and the others hold the positions 1, 2, 3 in their order. On
  rejection either nothing was stored, or the party is seated and only a later step failed.
\<close>

theorem seat_outcome:
  "case seat_execute input (after en reqs) of
     (Inl _, w') \<Rightarrow> seat_rejected input (db (after en reqs)) (db w')
   | (Inr out, w') \<Rightarrow> party_seated input out (db (after en reqs)) (db w')"
proof -
  have "wp (seat_execute input) (\<lambda>out w'. party_seated input out (db (after en reqs)) (db w'))
      (\<lambda>_ w'. seat_rejected input (db (after en reqs)) (db w')) (after en reqs)"
    by (rule wp_seat [OF after_inv])
  then show ?thesis by (simp add: wp_def)
qed

text \<open>
  C16. For the database, assigning tables is all or nothing: a rejection (too few seats, an entry of another
  restaurant or no longer waiting, a refusal upstream, a database error) leaves it as it was; a success
  seats a party no larger than the seats given, with exactly these tables. The restaurant service is asked
  for these tables once when the request is answered. When it is rejected the service was not asked, or
  was asked for these tables and keeps them: nothing takes the request back.
\<close>

theorem assign_atomic:
  "case assign_execute input (after en reqs) of
     (Inl _, w') \<Rightarrow> db w' = db (after en reqs) \<and>
       (upstream w' = upstream (after en reqs) \<or>
        upstream w' = upstream (after en reqs) @ [AssignTables (ai_restaurantId input) (ai_tables input)])
   | (Inr out, w') \<Rightarrow> tables_assigned input out (db (after en reqs)) (db w') \<and>
       upstream w' = upstream (after en reqs) @ [AssignTables (ai_restaurantId input) (ai_tables input)]"
proof -
  have "wp (assign_execute input) (\<lambda>out w'. tables_assigned input out (db (after en reqs)) (db w'))
      (\<lambda>_ w'. db w' = db (after en reqs)) (after en reqs)"
    by (rule wp_assign [OF after_inv])
  moreover note assign_logs [of input, unfolded logs_def, rule_format, of "after en reqs"]
  ultimately show ?thesis by (simp add: wp_def split: prod.splits sum.splits)
qed

text \<open>
  C17. Assigning tables takes the entry out of the waiting line and leaves every other entry of the line
  exactly as it was, positions included: unlike seating, it does not close the gap.
\<close>

theorem assign_leaves_gap:
  "case assign_execute input (after en reqs) of
     (Inl _, _) \<Rightarrow> True
   | (Inr _, w') \<Rightarrow> active_rows rid (db w') =
       filter (\<lambda>r. r_id r \<noteq> ai_queueEntryId input) (active_rows rid (db (after en reqs)))"
proof -
  have "wp (assign_execute input) (\<lambda>_ w'. active_rows rid (db w') =
       filter (\<lambda>r. r_id r \<noteq> ai_queueEntryId input) (active_rows rid (db (after en reqs))))
      (\<lambda>_ _. True) (after en reqs)"
  proof (rule wp_assign [OF after_inv])
    fix out and w' :: world
    assume "tables_assigned input out (db (after en reqs)) (db w')"
    then obtain e where "seats (ai_restaurantId input) (ai_queueEntryId input) (db (after en reqs)) e"
      and "row_replaced e (db (after en reqs)) (db w')"
      by (auto simp: tables_assigned_def)
    then show "active_rows rid (db w') =
        filter (\<lambda>r. r_id r \<noteq> ai_queueEntryId input) (active_rows rid (db (after en reqs)))"
      using active_rows_leave seatsD by fastforce
  qed simp
  then show ?thesis by (simp add: wp_def)
qed

text \<open>
  C18. Skipping: without a number of positions the party leaves the queue as skipped and the rest moves
  up; with one it goes back by that many places, or to the end, and keeps waiting, while the others keep
  their order. In both cases the positions are 1, 2, 3 and so on afterwards. On rejection at most the
  party has left or moved, and no other restaurant is touched.
\<close>

theorem skip_outcome:
  "case skip_execute input (after en reqs) of
     (Inl _, w') \<Rightarrow> skip_rejected input (db (after en reqs)) (db w')
   | (Inr out, w') \<Rightarrow> party_skipped input out (db (after en reqs)) (db w') \<or>
                      party_shifted input out (db (after en reqs)) (db w')"
proof -
  have "wp (skip_execute input) (\<lambda>out w'. party_skipped input out (db (after en reqs)) (db w') \<or>
                      party_shifted input out (db (after en reqs)) (db w'))
      (\<lambda>_ w'. skip_rejected input (db (after en reqs)) (db w')) (after en reqs)"
    by (rule wp_skip [OF after_inv])
  then show ?thesis by (simp add: wp_def)
qed

text \<open>
  C19. Cancelling: on success the entry is a no-show exactly when the reason says so and cancelled
  otherwise, it left the queue, the rest moved up and no table assignment changed. On rejection nothing
  was stored or the entry is cancelled and a later step failed.
\<close>

theorem cancel_outcome:
  "case cancel_execute input (after en reqs) of
     (Inl _, w') \<Rightarrow> cancel_rejected input (db (after en reqs)) (db w')
   | (Inr out, w') \<Rightarrow> entry_cancelled input out (db (after en reqs)) (db w')"
proof -
  have "wp (cancel_execute input) (\<lambda>out w'. entry_cancelled input out (db (after en reqs)) (db w'))
      (\<lambda>_ w'. cancel_rejected input (db (after en reqs)) (db w')) (after en reqs)"
    by (rule wp_cancel [OF after_inv])
  then show ?thesis by (simp add: wp_def)
qed

text \<open>
  C20. Ringing is all or nothing: a rejection leaves the database as it was; a success counts one more
  ring for a waiting online guest, with its time in the answer, and changes nothing else: no other row, no
  assignment of a table, no audit history.
\<close>

theorem ring_atomic:
  "case ring_execute input (after en reqs) of
     (Inl _, w') \<Rightarrow> db w' = db (after en reqs)
   | (Inr out, w') \<Rightarrow> rung input out (db (after en reqs)) (db w')"
proof -
  have "wp (ring_execute input) (\<lambda>out w'. rung input out (db (after en reqs)) (db w'))
      (\<lambda>_ w'. db w' = db (after en reqs)) (after en reqs)"
    by (rule wp_ring [OF after_inv])
  then show ?thesis by (simp add: wp_def)
qed

text \<open>
  C21. In a healthy environment (the database answers, Socket.IO does not throw, the circuits are closed)
  staff are served: cancelling and skipping return exactly when the entry waits at the restaurant, and
  ringing exactly when it waits there and joined online. Redis, the job queue and the prediction service
  may fail.
\<close>

theorem staff_requests_served:
  assumes "healthy en"
  shows "returns (cancel_execute ci) (after en reqs) =
      waits (ci_restaurantId ci) (ci_queueEntryId ci) (db (after en reqs)) \<and>
    returns (skip_execute ki) (after en reqs) =
      waits (sk_restaurantId ki) (sk_queueEntryId ki) (db (after en reqs)) \<and>
    returns (ring_execute gi) (after en reqs) =
      list_ex (\<lambda>r. r_id r = rg_queueEntryId gi \<and> r_restaurantId r = rg_restaurantId gi \<and>
        r_status r = WAITING \<and> r_registrationType r = ONLINE) (entries (db (after en reqs)))"
  using assms by (intro conjI staff_returns_iff) (simp_all add: after_inv)

theorem staff_requests_served_witness:
  "\<exists>i. returns (cancel_execute \<lparr> ci_restaurantId = ''r'', ci_queueEntryId = i, ci_staffUserId = ''s'',
          ci_reason = ''OTHER'', ci_notes = None \<rparr>) (after demo_env [RegisterReq (demo_guest ''1'')]) \<and>
       returns (skip_execute \<lparr> sk_restaurantId = ''r'', sk_queueEntryId = i, sk_staffUserId = ''s'',
          sk_reason = ''late'', sk_skipPositions = Some 1 \<rparr>) (after demo_env [RegisterReq (demo_guest ''1'')])"
  using demo_guest_waits staff_requests_served [OF demo_env_good(1)] by fastforce

text \<open>
  C22. In a healthy environment where the restaurant service grants tables and random identifiers do not
  repeat, seating returns exactly when the entry waits at the restaurant, and assigning tables exactly
  when it waits there and the seats suffice for the party.
\<close>

theorem seating_served:
  assumes "healthy en" and "grants en" and "inj (random_uuid en)"
  shows "returns (seat_execute si) (after en reqs) =
      waits (sp_restaurantId si) (sp_queueEntryId si) (db (after en reqs)) \<and>
    returns (assign_execute ai) (after en reqs) =
      list_ex (\<lambda>r. r_id r = ai_queueEntryId ai \<and> r_restaurantId r = ai_restaurantId ai \<and> r_status r = WAITING \<and>
        r_partySize r \<le> sum_list (map at_count (ai_tables ai))) (entries (db (after en reqs)))"
  using assms by (intro conjI seating_returns_iff) (simp_all add: after_inv fresh_after)

theorem seating_served_witness:
  "\<exists>i. returns (seat_execute \<lparr> sp_restaurantId = ''r'', sp_queueEntryId = i, sp_staffUserId = ''s'',
          sp_tableIds = [''t1'', ''t2''] \<rparr>) (after demo_env [RegisterReq (demo_guest ''1'')])"
  using demo_guest_waits seating_served [OF demo_env_good(1,2,4)] by fastforce

text \<open>
  C23. In a healthy environment where the restaurant admits the party and random identifiers do not
  repeat, registration returns exactly when nobody waits already at the restaurant with the phone number,
  as given or trimmed, nor anywhere with the account of the guest.
\<close>

theorem registration_served:
  assumes "healthy en" and "admits en (ri_restaurantId input) (ri_partySize input)" and "inj (random_uuid en)"
  shows "returns (register_execute input) (after en reqs) = (\<not> waits_already input (db (after en reqs)))"
  using assms by (intro register_returns) (simp_all add: fresh_after)

theorem registration_served_witness: "returns (register_execute (demo_guest ''1'')) (after demo_env [])"
  using registration_served [OF demo_env_good(1) _ demo_env_good(4), of "demo_guest ''1''" "[]"]
    demo_env_good(3) demo_guest_admitted
  by (simp add: demo_guest_def)

section \<open>Properties of the components\<close>

text \<open>
  C24. Recalculating positions: if it returns, the waiting entries of the restaurant hold the positions
  1, 2, 3 and so on in the order they had, and no other row, assignment or history changed; if it
  rejects, the database is as it was.
\<close>

theorem recalculate_renumbers:
  "case recalculate predictEta rid (after en reqs) of
     (Inl _, w') \<Rightarrow> db w' = db (after en reqs)
   | (Inr _, w') \<Rightarrow> recalculated rid (db (after en reqs)) (db w')"
proof -
  have "wp (recalculate predictEta rid) (\<lambda>_ w'. recalculated rid (db (after en reqs)) (db w'))
      (\<lambda>_ w'. db w' = db (after en reqs)) (after en reqs)"
    by (rule ml_eta.recalculate_wp [OF after_inv])
  then show ?thesis by (simp add: wp_def)
qed

text \<open>
  C25. Sharing a party between tables gives every table at least one guest, shares that differ by at
  most one, in the order of the tables, and in total the party size, or one guest per table when there
  are more tables than guests.
\<close>

theorem share_party_fair:
  "map fst (share_party (1 + int k) (t # ts)) = t # ts \<and>
   sum_list (map snd (share_party (1 + int k) (t # ts))) = max (1 + int k) (1 + int (length ts)) \<and>
   list_all (\<lambda>x. 1 \<le> x \<and> list_all (\<lambda>y. x \<le> y + 1) (map snd (share_party (1 + int k) (t # ts))))
     (map snd (share_party (1 + int k) (t # ts)))"
proof -
  have p: "1 \<le> 1 + int k" "t # ts \<noteq> []" by simp_all
  show ?thesis
    using share_party_seats [OF p] by (auto simp: list_all_iff simp del: share.simps)
qed

text \<open>
  C26. A prediction never rejects and is never negative, whatever the circuit breaker and the prediction
  service do, and it leaves the database alone.
\<close>

theorem predictEta_total:
  "case predictEta r n p w of (Inl _, _) \<Rightarrow> False | (Inr eta, w') \<Rightarrow> 0 \<le> eta \<and> db w' = db w"
  using predictEta_wp [of r n p w] by (simp add: wp_def)

text \<open>
  C27. A call of the restaurant client never touches the database and rejects with one of two domain
  errors only: that the restaurant asked about is unknown, or that the service is unavailable, answered
  with 503 or with the client error of the restaurant service, which is not 404.
\<close>

theorem restaurant_client_errors:
  "rejects_safely r (getRestaurantStatus r) w \<and> rejects_safely r (checkAvailability r n) w \<and>
   rejects_safely r (assignTables r ts) w \<and> rejects_safely r (releaseTables r rs) w"
  by (intro conjI restaurants.call_rejects_safely restaurants.calls)

text \<open>
  C28. Classifying an error never changes whether it counts against the circuit: for every failure of an
  HTTP request, the error thrown to the breaker counts exactly when the failure itself would.
\<close>

theorem classification_preserves_breaker_verdict:
  "restaurant_checkIsFailure (classify_error r label (http_reject f)) = restaurant_checkIsFailure (http_reject f)"
proof (cases f)
  case (HttpError st body m)
  then show ?thesis
    by (cases st) (auto simp: http_reject_def classify_error_def restaurant_checkIsFailure_def upstream_code_def http_defs)
next
  case (Unexpected m)
  then show ?thesis by (simp add: http_reject_def classify_error_def restaurant_checkIsFailure_def)
qed

text \<open>
  C29. A created entity is what \<open>findById\<close> returns afterwards, unless the read itself
  fails.
\<close>

theorem created_is_found:
  "case create queue_repo e w of
     (Inl _, _) \<Rightarrow> True
   | (Inr e', w') \<Rightarrow> e' = e \<and>
       fst (findById queue_repo (e_id e) (w'\<lparr> ext := (ext w')\<lparr> db_fault := \<lambda>_. None \<rparr> \<rparr>)) = Inr (Some e)"
proof -
  have "e' = e \<and> fst (findById queue_repo (e_id e) (w'\<lparr> ext := (ext w')\<lparr> db_fault := \<lambda>_. None \<rparr> \<rparr>)) = Inr (Some e)"
    if run: "create queue_repo e w = (Inr e', w')" for e' w'
  proof -
    let ?u = "w\<lparr> ext := (ext w)\<lparr> db_fault := \<lambda>_. None \<rparr> \<rparr>"
    have "create queue_repo e ?u = (Inr e', w'\<lparr> ext := (ext w')\<lparr> db_fault := \<lambda>_. None \<rparr> \<rparr>)"
      using run by (auto simp: create_def bindE_Inr run_Inr db_run_Inr retE_def)
    from queue_repo.findById_created [OF this] show ?thesis by simp
  qed
  then show ?thesis by (auto split: prod.split sum.split)
qed

text \<open>
  C30. The staff view counts all waiting entries of the restaurant and lists the entries of the restaurant
  with the status asked for (waiting unless another is) and with one or two, three or four, or five guests
  and more, if a bucket is named: each once, with its number, guest, phone, size, status and times, in
  the order of joining. The position shown is the place in this listing, counted from one, when it lists
  waiting entries, and none otherwise; the positions stored are not used.
\<close>

theorem staff_view:
  "case staff_queue_execute input (after en reqs) of
     (Inl _, w') \<Rightarrow> db w' = db (after en reqs)
   | (Inr out, w') \<Rightarrow> db w' = db (after en reqs) \<and> sv_restaurantId out = sq_restaurantId input \<and>
       sv_totalWaiting out = int (length (filter (\<lambda>r. r_restaurantId r = sq_restaurantId input \<and> r_status r = WAITING)
         (entries (db (after en reqs))))) \<and>
       staff_listing input (db (after en reqs)) (sv_entries out)"
  using wp_staff_queue [of input "after en reqs"]
  by (simp add: wp_def count_waiting_def waiting_at_def [abs_def])

section \<open>Properties of the socket sessions and the push notifications\<close>

text \<open>
  C31. Whatever a client sends, a socket is only ever in rooms it may join: the restaurant rooms its
  handshake entitles it to, the room of its user, and ticket rooms it asked for; a handshake that fails
  opens no socket.
\<close>

theorem session_rooms_allowed:
  "case socketAuth hs of
     Inl _ \<Rightarrow> open_socket hs = None
   | Inr u \<Rightarrow> (case session bnd evs (handleSocketConnection (new_socket u)) (after en reqs) of
       (s, w) \<Rightarrow> open_socket hs = Some (handleSocketConnection (new_socket u)) \<and>
                 ss_rooms s \<subseteq> {room. may_join (db w) u room})"
proof (cases "socketAuth hs")
  case (Inr u)
  then have o: "open_socket hs = Some (handleSocketConnection (new_socket u))"
    by (simp add: open_socket_def)
  show ?thesis
    using session_ok [OF open_socket_ok [OF after_inv]] Inr o
    by (auto simp: socket_ok_def split: prod.split)
qed (simp add: open_socket_def)

text \<open>
  C32. A customer who names any ticket in the query of the handshake is in the room of that ticket, with
  no look at the database: the check of the ticket event is skipped.
\<close>

definition guest_handshake :: "string \<Rightarrow> uuid \<Rightarrow> handshake" where
  "guest_handshake u t =
     \<lparr> hs_headers = (\<lambda>_. JUndef)(''x-user-id'' := JStr u), hs_query = (\<lambda>_. JUndef)(''ticketId'' := JStr t) \<rparr>"

theorem ticket_query_skips_check:
  "open_socket (guest_handshake (c # u) t) =
     Some \<lparr> ss_user = Some \<lparr> su_userId = c # u, su_role = CUSTOMER_ROLE, su_restaurantId = None,
              su_ticketId = (if js_trim t = [] then None else Some (js_trim t)), su_email = None \<rparr>,
            ss_rooms = {room_user (c # u)} \<union> (if js_trim t = [] then {} else {room_ticket (js_trim t)}),
            ss_sent = [], ss_handlers = True, ss_connected = True \<rparr>"
  by (auto simp: open_socket_def guest_handshake_def socketAuth_def getHeaderValue_def getParamValue_def
      handleSocketConnection_def new_socket_def registerRoomHandlers_def join_def Let_def or_value_def
      role_defs js_upper_def upper_char_def)

text \<open>
  C33. No run sends anything to the room of a queue or of a user: a client in those rooms, which
  customers and public displays may join, is told nothing about the queue.
\<close>

theorem queue_rooms_silent:
  "list_all (\<lambda>m. list_all (\<lambda>room. room \<noteq> room_queue i \<and> room \<noteq> room_user u) (em_rooms m)) (outbox (after en reqs))"
  proof -
  have "room \<noteq> room_queue i \<and> room \<noteq> room_user u"
    if "m \<in> set (outbox (after en reqs))" "room \<in> set (em_rooms m)" for m room
    using after_room_pairs [OF that(1)] that(2) by (auto simp: room_pairs_def room_defs)
  then show ?thesis by (simp add: list_all_iff)
qed

text \<open>
  C34. The retry loop of a push is the reference reading of its contract: it asks for one attempt after
  the other until one settles or the attempts are used up, answers what the last one answered, and waits
  once, two times, three times the delay between them.
\<close>

theorem push_retries_reference:
  "push_send (en\<lparr> pe_enabled := True, pe_maxRetries := int n \<rparr>) (p\<lparr> pp_fid := c # f \<rparr>) (s\<lparr> ps_client := True \<rparr>) =
     (let m = push_message (p\<lparr> pp_fid := c # f \<rparr>);
          as = first_settled (map (\<lambda>k. pe_fcm en (length (ps_calls s) + k) m) [0..<Suc n])
      in (answer_result (last as),
          s\<lparr> ps_client := True, ps_calls := ps_calls s @ replicate (length as) m,
             ps_sleeps := ps_sleeps s @ map (\<lambda>k. pe_retryDelayMs en * (int k + 1)) [0..<length as - 1] \<rparr>))"
proof -
  let ?en = "en\<lparr> pe_enabled := True, pe_maxRetries := int n \<rparr>" and ?s = "s\<lparr> ps_client := True \<rparr>"
  have "getFirebaseMessaging ?en ?s = (True, ?s)" by (simp add: getFirebaseMessaging_def)
  from push_send_run [OF this, of "p\<lparr> pp_fid := c # f \<rparr>" n] show ?thesis
    by (simp add: fcm_answers_def Let_def del: upt_Suc)
qed

text \<open>
  C35. The worker takes an invalid device token as done, but throws for every other failed push, the
  permanent errors included, so the queue tries those again.
\<close>

theorem worker_outcome:
  "fst (process_job (en\<lparr> pe_enabled := True, pe_maxRetries := int n \<rparr>) (p\<lparr> pp_fid := c # f \<rparr>) (s\<lparr> ps_client := True \<rparr>)) =
     (case last (first_settled (map (\<lambda>k. pe_fcm en (length (ps_calls s) + k) (push_message (p\<lparr> pp_fid := c # f \<rparr>))) [0..<Suc n])) of
        Inr i \<Rightarrow> Inr (push_sent i)
      | Inl e \<Rightarrow>
          if fcm_code e \<in> set INVALID_TOKEN_ERROR_CODES then Inr (push_failed (fcm_text e) True)
          else Inl (or_else (Some (fcm_text e)) ''Push notification dispatch failed''))"
proof -
  let ?en = "en\<lparr> pe_enabled := True, pe_maxRetries := int n \<rparr>" and ?s = "s\<lparr> ps_client := True \<rparr>"
  have "getFirebaseMessaging ?en ?s = (True, ?s)" by (simp add: getFirebaseMessaging_def)
  from push_send_run [OF this, of "p\<lparr> pp_fid := c # f \<rparr>" n] show ?thesis
    by (simp add: process_job_def answer_result_def push_sent_def push_failed_def fcm_answers_def Let_def del: upt_Suc split: sum.split)
qed

section \<open>Properties of the HTTP interface and the process\<close>

text \<open>
  C36. Joining over HTTP is for the caller: the request is answered, and the database is as it was or
  holds one more row, waiting, online, and of the user in the gateway header, with the answer 201.
\<close>

theorem join_acts_for_caller:
  "case http_app fw (q\<lparr> hq_route := Some JoinRoute \<rparr>) (http_after en fw qs) of
     (Inl _, _) \<Rightarrow> False
   | (Inr reply, w') \<Rightarrow>
       db w' = db (http_after en fw qs) \<or>
       hr_status reply = 201 \<and>
       (\<exists>row. entries (db w') = entries (db (http_after en fw qs)) @ [row] \<and> r_status row = WAITING \<and>
          r_userId row = getHeaderValue (hq_headers q ''x-user-id'') \<and> r_registrationType row = ONLINE)"
proof -
  let ?w = "http_after en fw qs"
  have reg: "wp (register_execute i) (\<lambda>out w'. \<exists>row. entries (db w') = entries (db ?w) @ [row] \<and> r_status row = WAITING \<and>
      r_userId row = ri_userId i \<and> r_registrationType row = resolved_type i) (\<lambda>_ w'. db w' = db ?w) ?w" for i
    by (rule wp_register [OF http_after_inv]) (auto simp: registered_def)
  have "wp (http_app fw (q\<lparr> hq_route := Some JoinRoute \<rparr>)) (\<lambda>reply w'. db w' = db ?w \<or> hr_status reply = 201 \<and>
      (\<exists>row. entries (db w') = entries (db ?w) @ [row] \<and> r_status row = WAITING \<and>
         r_userId row = getHeaderValue (hq_headers q ''x-user-id'') \<and> r_registrationType row = ONLINE)) (\<lambda>_ _. False) ?w"
    unfolding http_app_def
    by (auto simp: wp_catchE wp_throwE wp_retE wp_bindE errorMiddleware_def Let_def pass_def join_chain_def joinQueue_handler_def succeed_def
      sendSuccessResponse_def HTTP_CREATED_def
      customerAuthMiddleware_def join_input_def user_id_of_def resolved_type_def truthy_def
      split: sum.split option.splits if_splits intro!: wp_mono [OF reg])
  then show ?thesis by (simp add: wp_def)
qed

text \<open>
  C37. A request to assign tables or to seat a party over HTTP is always answered, and when it succeeds
  the tables are distinct and are exactly the active tables of the entry.
\<close>

definition tables_reply :: "http_data http_response \<Rightarrow> database \<Rightarrow> bool" where
  "tables_reply reply d \<longleftrightarrow>
     (case seated_reply reply of
        None \<Rightarrow> True
      | Some out \<Rightarrow> distinct (so_tableIds out) \<and>
          map ta_tableId (active_assignments (so_queueEntryId out) d) = so_tableIds out)"

theorem http_tables_distinct:
  assumes "zod_contract fw" and "r = AssignRoute \<or> r = SeatRoute"
  shows "case http_app fw (q\<lparr> hq_route := Some r \<rparr>) (http_after en fw qs) of
      (Inl _, _) \<Rightarrow> False | (Inr reply, w') \<Rightarrow> tables_reply reply (db w')"
proof -
  let ?w = "http_after en fw qs"
  let ?ok = "\<lambda>out w'. distinct (so_tableIds out) \<and>
      map ta_tableId (active_assignments (so_queueEntryId out) (db w')) = so_tableIds out"
  have assign: "wp (assign_execute i) ?ok (\<lambda>_ _. True) ?w" if "distinct (map at_tableId (ai_tables i))" for i
    by (rule wp_assign [OF http_after_inv]) (use that in \<open>auto simp: tables_assigned_def seated_as_def dest: seatsD(1)\<close>)
  have seat: "wp (seat_execute i) ?ok (\<lambda>_ _. True) ?w" if "distinct (sp_tableIds i)" for i
    by (rule wp_seat [OF http_after_inv]) (use that in \<open>auto simp: party_seated_def seated_as_def dest: seatsD(1)\<close>)
  have "wp (http_app fw (q\<lparr> hq_route := Some r \<rparr>)) (\<lambda>reply w'. tables_reply reply (db w')) (\<lambda>_ _. False) ?w"
    using assms(2)
    by (intro wp_http_app)
      (auto simp: tables_reply_def assign_chain_def seat_chain_def Let_def assignTables_handler_def seatParty_handler_def require_user_def wp_throwE
        seated_reply_middleware distinct_tables [OF assms(1)] intro!: wp_pass wp_succeed wp_mono [OF assign] wp_mono [OF seat])
  then show ?thesis by (simp add: wp_def)
qed

theorem http_tables_distinct_witness:
  "case http_app demo_framework (demo_seat_request\<lparr> hq_route := Some SeatRoute \<rparr>)
      (http_after demo_env demo_framework []) of
     (Inl _, _) \<Rightarrow> False | (Inr reply, w') \<Rightarrow> tables_reply reply (db w')"
  by (rule http_tables_distinct [OF demo_framework_contract disjI2 [OF refl]])

text \<open>
  C38. What the error handler sends for each kind of error. A domain error is answered with its own code,
  message and details, and with the status of its class: 409, 404, 401, 403, 400, or what an upstream service
  answered, never 0. Issues of a schema are answered with 400, a persistence error with 500 and, in
  production, without its message. Any other error is answered with the error status set before, or 500,
  and in production with a fixed text. The status sent and the one in the body agree.
\<close>

definition error_reply :: "nat \<Rightarrow> string \<Rightarrow> string \<Rightarrow> details option \<Rightarrow> 'd http_response" where
  "error_reply st code text ds =
     \<lparr> hr_status = st, hr_body = ErrorBody \<lparr> eb_message = (if text = [] then code else text), eb_code = code,
         eb_error = code, eb_details = ds, eb_statusCode = st \<rparr> \<rparr>"

fun class_status :: "domain_error \<Rightarrow> nat" where
  "class_status (TableAvailableError _) = 409"
| "class_status RestaurantNotAcceptingQueueError = 409"
| "class_status (ActiveQueueEntryExistsError _) = 409"
| "class_status ActiveUserQueueEntryExistsError = 409"
| "class_status (QueueEntryNotWaitingError _ _) = 409"
| "class_status (QueueEntryNotFoundError _) = 404"
| "class_status (RestaurantNotFoundError _) = 404"
| "class_status (UnauthorizedError _) = 401"
| "class_status UnauthorizedStaffAccessError = 403"
| "class_status (RestaurantBlockedError _ _) = 403"
| "class_status (QueueProSubscriptionRequiredError _ _) = 403"
| "class_status InvalidPartySizeError = 400"
| "class_status (InsufficientTableCapacityError _ _) = 400"
| "class_status (CannotRingWalkInCustomerError _) = 400"
| "class_status (UpstreamServiceUnavailableError _ None) = 503"
| "class_status (UpstreamServiceUnavailableError _ (Some n)) = (if n = 0 then 503 else n)"

theorem error_answers:
  "case err of
     ZodError issues \<Rightarrow>
       error_answer production st err =
         error_reply 400 ''VALIDATION_ERROR'' ''Validation failed'' (Some (Issues (formatZodIssues issues)))
   | Thrown (DomainError d) \<Rightarrow>
       error_answer production st err =
         error_reply (class_status d) (error_code d) (error_message d) (map_option Details (error_details d))
   | Thrown (PersistenceError m _ _) \<Rightarrow>
       error_answer production st err =
         error_reply 500 ''DATABASE_ERROR'' (if production then ''Internal Server Error'' else m) None
   | Thrown _ \<Rightarrow>
       hr_status (error_answer production st err) = (if 400 \<le> st \<and> st < 600 then st else 500) \<and>
       (case hr_body (error_answer production st err) of
          ErrorBody b \<Rightarrow> eb_statusCode b = (if 400 \<le> st \<and> st < 600 then st else 500) \<and> eb_details b = None
        | _ \<Rightarrow> False) \<and>
       error_answer True st err =
         error_reply (if 400 \<le> st \<and> st < 600 then st else 500) ''Internal Server Error''
           ''An unexpected error occurred'' None"
proof (cases err)
  case (ZodError issues)
  then show ?thesis
    by (simp add: error_answer_def sendErrorResponse_def error_reply_def response_texts http_defs has_space_def)
next
  case (Thrown e)
  have status: "http_status_of d = class_status d" for d
    by (cases d rule: class_status.cases) (simp_all add: http_defs http_status_of_upstream)
  show ?thesis
  proof (cases e)
    case (DomainError d)
    then show ?thesis by (simp add: Thrown domain_error_answer error_reply_def status)
  next
    case (PersistenceError m cause c)
    then show ?thesis
      by (simp add: Thrown error_answer_def sendErrorResponse_def error_reply_def response_texts http_defs has_space_def)
  qed (auto simp: Thrown error_answer_def sendErrorResponse_def error_reply_def code_and_message_def Let_def
      response_texts has_space_def or_else_def truthy_def http_defs split: prod.split)
qed

text \<open>
  C39. However many signals arrive, the process exits once: with 0 after all steps of the shutdown plan,
  or with 1 after a beginning of it.
\<close>

theorem shutdown_once:
  "(\<lambda>q. p_shutting q \<and> \<not> p_timer q \<and>
      (p_exits q = p_exits p @ [0] \<and> p_calls q = p_calls p @ shutdown_plan p \<or>
       p_exits q = p_exits p @ [1] \<and> (\<exists>ys. prefix ys (shutdown_plan p) \<and> p_calls q = p_calls p @ ys)))
   (((\<lambda>q. snd (handleShutdown q)) ^^ Suc k) (p\<lparr> p_shutting := False \<rparr>))"
proof (induction k)
  case 0
  have "shutdown_plan (p\<lparr> p_shutting := False \<rparr>) = shutdown_plan p" by (simp add: shutdown_plan_def)
  then show ?case using wp_handleShutdown [of "p\<lparr> p_shutting := False \<rparr>"] by (simp add: wp_fst_snd split: sum.splits)
next
  case (Suc k)
  then show ?case by simp
qed

text \<open>
  C40. Whatever is asked of the container, in whatever order, nothing is refused; each class is
  constructed at most once, although the queue service has two identifiers; and every constructor and
  every caller gets objects of the types its parameters or the bindings declare. Of the container
  library only its documented contract is used.
\<close>

theorem container_typed:
  assumes "container_contract bindings resolve"
  shows "case resolve ts of
      Inl _ \<Rightarrow> False
    | Inr (xs, built) \<Rightarrow>
        distinct (map (\<lambda>(t, _). built_class t) built) \<and>
        list_all (\<lambda>(t, args). list_all2 (\<lambda>(_, ty) x. provides x ty)
          (case built_class t of None \<Rightarrow> [] | Some c \<Rightarrow> injected c) args) built \<and>
        list_all2 (\<lambda>t x. provides x (declared t)) ts xs"
proof (cases "resolve ts")
  case (Inl e)
  with assms show ?thesis
    by (auto simp: container_contract_def bound_once needs_acyclic dest!: spec [of _ ts])
next
  case (Inr r)
  obtain xs built where r: "r = (xs, built)" by fastforce
  from assms have "case resolve ts of Inl _ \<Rightarrow> True | Inr (xs, built) \<Rightarrow>
      list_all2 (stands_for bindings) ts xs \<and> distinct (map fst built) \<and>
      (\<forall>(t, args) \<in> set built. \<exists>d c. (t, d, ToClass c) \<in> set bindings \<and>
         list_all2 (stands_for bindings) (map fst (injected c)) args)"
    by (auto simp: container_contract_def split: sum.splits dest!: spec [of _ ts])
  then show ?thesis using built_typed [of built] answer_typed [of ts xs] by (simp add: Inr r)
qed

theorem container_typed_witness:
  "case reference_container bindings [T_HealthController, T_StaffQueueActionsController] of
     Inl _ \<Rightarrow> False
   | Inr (xs, built) \<Rightarrow>
       distinct (map (\<lambda>(t, _). built_class t) built) \<and>
       list_all (\<lambda>(t, args). list_all2 (\<lambda>(_, ty) x. provides x ty)
         (case built_class t of None \<Rightarrow> [] | Some c \<Rightarrow> injected c) args) built \<and>
       list_all2 (\<lambda>t x. provides x (declared t)) [T_HealthController, T_StaffQueueActionsController] xs"
  by (rule container_typed [OF reference_keeps_contract])

section \<open>Further facts\<close>

text \<open>
  A table assignment always belongs to a seated entry, and no assignment is ever marked as released:
  cancelling, the only use case that releases, is for waiting entries.
\<close>

lemma assignments_of_seated_only:
  "list_all (\<lambda>a. ta_releasedAt a = None \<and>
       list_ex (\<lambda>r. r_id r = ta_queueEntryId a \<and> r_status r = SEATED) (entries (db (after en reqs))))
     (assigns (db (after en reqs)))"
  using after_facts(3) [of en reqs] by (auto simp: assigns_ok_def list_all_iff list_ex_iff)

text \<open>
  The rows a page holds: the pages, one after the other, are the rows without gap or repetition, and no
  page has more than a hundred, whatever limit is asked for.
\<close>

lemma pages_cover_rows:
  "concat (map (\<lambda>p. page_rows (int (Suc p)) limit rows) [0..<k]) = take (k * nat (page_take limit)) rows \<and>
   length (page_rows page limit rows) \<le> 100"
  using pages_concat page_rows_length by blast

text \<open>
  A second recalculation with the same predictions finds nothing to write: after the updates of a
  round are made, no entry of the line differs from its new position and estimate.
\<close>

lemma recalculation_idempotent:
  "deltas_of (entry_inputs 0 0 (updated_entries t (filter (\<lambda>e. e_status e = WAITING) es) etas)) etas = []"
  by (rule no_deltas_after_update) simp

text \<open>
  A request whose body is not JSON is answered with 500, a server error, on every path and before
  any check of the caller: the error handler looks at the status of the response, which nothing has set.
\<close>

lemma malformed_json_is_server_error:
  "http_app fw (q\<lparr> hq_body := Inl message \<rparr>) w = (Inr (error_answer (fw_production fw) 200 (Thrown (PlainError message))), w) \<and>
   hr_status (error_answer (fw_production fw) 200 (Thrown (PlainError message))) = 500"
  by (simp add: http_app_def catchE_def throwE_def retE_def errorMiddleware_def error_answer_status http_defs)

text \<open>
  The prediction of each party is asked with the number of guests in the parties before it, and its new
  position is its index counted from one.
\<close>

lemma people_ahead_is_prefix_sum:
  "map in_peopleAhead (entry_inputs 0 0 es) = map (\<lambda>i. sum_list (map e_partySize (take i es))) [0..<length es] \<and>
   map in_newPosition (entry_inputs 0 0 es) = map (\<lambda>i. int i + 1) [0..<length es] \<and>
   map in_entry (entry_inputs 0 0 es) = es"
  by (intro conjI nth_equalityI) (simp_all add: entry_inputs_nth)

text \<open>
  The heuristic estimate, computed in rationals and rounded as JavaScript rounds, is two and a half
  minutes per person rounded up to a whole minute, and at least five.
\<close>

lemma fallback_minutes: "computeFallbackMinutes n = max 5 ((5 * n + 1) div 2)"
  by (rule computeFallbackMinutes_eq)

text \<open>
  The waiting time shown for an entry is never negative and never decreases as time passes, and for an
  entry that no longer waits it stands still.
\<close>

lemma wait_duration_monotone:
  "0 \<le> calculateWaitDurationMinutes e t \<and>
   calculateWaitDurationMinutes e t \<le> calculateWaitDurationMinutes e (t + int k) \<and>
   calculateWaitDurationMinutes (e\<lparr> e_status := SEATED \<rparr>) t =
     calculateWaitDurationMinutes (e\<lparr> e_status := SEATED \<rparr>) t'"
  using wait_duration_mono [of t "t + int k" e] wait_duration_terminal [of "e\<lparr> e_status := SEATED \<rparr>"]
  by (simp add: calculateWaitDurationMinutes_def Let_def)

text \<open>
  A queue number determines the kind of registration and the number of the day.
\<close>

lemma queue_number_injective:
  "(generateQueueNumber ty (int n) = generateQueueNumber ty' (int m)) = (ty = ty' \<and> n = m)"
proof
  assume eq: "generateQueueNumber ty (int n) = generateQueueNumber ty' (int m)"
  then have "ty = ty'" by (cases ty; cases ty') (simp_all add: generateQueueNumber_parts)
  moreover have "nat (int n) = nat (int m)"
    using generateQueueNumber_read [of "int n" ty] generateQueueNumber_read [of "int m" ty'] eq by simp
  ultimately show "ty = ty' \<and> n = m" by simp
qed simp

text \<open>
  With Redis available, a saved live entry is what a later read of its key returns, and the reads of
  other keys are unaffected.
\<close>

lemma live_entry_roundtrip:
  "fst (bindE (saveLiveEntry i r p eta) (\<lambda>_. getLiveEntry j) (w\<lparr> ext := (ext w)\<lparr> redis_fault := \<lambda>_. None \<rparr> \<rparr>)) =
     Inr (if j = i
          then Some \<lparr> l_queueEntryId = i, l_restaurantId = r, l_position = p, l_currentEta = eta,
                      l_updatedAt = clock (ext w) (tick w) \<rparr>
          else live_lookup w j)"
proof -
  have "live_lookup (u\<lparr> ext := x, tick := t \<rparr>) k = live_lookup u k" for u x t k
    by (simp add: live_lookup_def)
  then show ?thesis
    by (simp add: bindE_def saveLiveEntry_run getLiveEntry_run redis_store.lookup_store)
qed

text \<open>
  An estimate is only given, never stored; it is not negative and comes with the number of waiting
  entries.
\<close>

lemma eta_query_reads_only:
  "case eta_execute_query r p w of
     (Inl _, w') \<Rightarrow> db w' = db w
   | (Inr out, w') \<Rightarrow> db w' = db w \<and> eo_restaurantId out = r \<and> eo_partySize out = p \<and>
       0 \<le> eo_estimatedWaitMinutes out \<and> eo_queueDepth out = count_waiting r (db w)"
  using wp_eta_query [of r p w] by (simp add: wp_def)

text \<open>
  Another service asking for a user gets an entry exactly when the user is waiting somewhere, and then
  one that is waiting and belongs to the user.
\<close>

lemma customer_status_correct:
  "case customer_status_execute u w of
     (Inl _, w') \<Rightarrow> db w' = db w
   | (Inr out, w') \<Rightarrow> db w' = db w \<and> (case out of
        None \<Rightarrow> \<not> list_ex (\<lambda>r. r_userId r = Some u \<and> r_status r = WAITING) (entries (db w))
      | Some (rid, i) \<Rightarrow> list_ex (\<lambda>r. r_id r = i \<and> r_restaurantId r = rid \<and> r_userId r = Some u \<and>
          r_status r = WAITING) (entries (db w)))"
  using wp_customer_status [of u w] by (simp add: wp_def)

text \<open>
  Cancelling tells the restaurant rooms and the ticket rooms, in this order, with the event of a no-show
  or of a cancellation; a no-show is repeated to the ticket as a cancellation.
\<close>

lemma cancel_messages_sent:
  "map (\<lambda>m. (em_rooms m, em_event m)) (outbox (snd (cancel_messages input e
       (w\<lparr> outbox := [], ext := (ext w)\<lparr> socket_up := \<lambda>_. True, socket_fault := \<lambda>_. None \<rparr> \<rparr>)))) =
     (let staff = [room_restaurant (ci_restaurantId input), room_restaurantQueue (ci_restaurantId input)];
          guest = [room_ticket (ci_queueEntryId input), room_queueEntry (ci_queueEntryId input)]
      in if is_no_show (ci_reason input)
         then [(staff, EV_ENTRY_NO_SHOW), (guest, EV_ENTRY_NO_SHOW), (guest, EV_ENTRY_CANCELLED)]
         else [(staff, EV_ENTRY_CANCELLED), (guest, EV_ENTRY_CANCELLED)])"
  by (cases "e_cancelledAt e")
    (simp_all add: cancel_messages_def Let_def or_now_def new_date_def ask_def bindE_def retE_def
      broadcastToRestaurant_def sendToTicket_def emit_def attempt_def)

text \<open>
  Only authorised members of a restaurant are ever in its staff room: after any session the restaurant
  rooms of a socket are those of restaurants its user is a member of, or the user is an administrator.
\<close>

lemma restaurant_room_members_only:
  "case socketAuth hs of
     Inl _ \<Rightarrow> True
   | Inr u \<Rightarrow> {i. room_restaurant i \<in>
         ss_rooms (fst (session bnd evs (handleSocketConnection (new_socket u)) (after en reqs)))}
       \<subseteq> {i. isAuthorizedRestaurantMember (Some u) i}"
proof (cases "socketAuth hs")
  case (Inr u)
  obtain s w where run: "session bnd evs (handleSocketConnection (new_socket u)) (after en reqs) = (s, w)"
    by fastforce
  have "socket_ok u s w" by (rule session_ok [OF open_socket_ok [OF after_inv] run])
  then show ?thesis by (auto simp: Inr run socket_ok_def may_join_def)
qed simp

text \<open>
  However often the queue repeats a job, each run calls the push service at most as often as retries are
  configured, and once more.
\<close>

lemma push_budget:
  "length (ps_calls (((\<lambda>s. snd (process_job en p s)) ^^ k) s)) \<le> length (ps_calls s) + k * nat (pe_maxRetries en + 1)"
  by (rule process_jobs_calls)

text \<open>
  In development, an unexpected error whose message has no space is answered with that message as the
  code.
\<close>

lemma spaceless_message_becomes_code:
  "hr_body (error_answer False st (Thrown (PlainError m))) =
     ErrorBody (let code = (if m = [] \<or> has_space m then ''Internal Server Error'' else m);
                    text = (if has_space m then m else ''Internal Server Error'')
       in \<lparr> eb_message = text, eb_code = code, eb_error = code, eb_details = None,
            eb_statusCode = (if 400 \<le> st \<and> st < 600 then st else 500) \<rparr>)"
  by (auto simp: error_answer_def sendErrorResponse_def code_and_message_def Let_def response_texts has_space_def
      or_else_def truthy_def http_defs)

text \<open>
  The health check answers 200 exactly when the database, Redis and the job queue all answer as they
  should.
\<close>

lemma health_answer_sound:
  "(fst (health_answer (health_check d r b t)) = 200) = ((\<exists>x. d = Inr x) \<and> r = Inr ''PONG'' \<and> b = Inr ''PONG'')"
  by (auto simp: health_answer_def health_check_def Let_def database_isHealthy_def redis_isHealthy_def bullmq_isHealthy_def
      HTTP_OK_def http_defs split: sum.splits)

text \<open>
  When closing the HTTP server rejects, as it does for one that no longer runs, the workers, the
  job queue, the broker, Redis and the database are never closed, and the process exits with 1.
\<close>

lemma closed_server_ends_shutdown:
  "let failing = (\<lambda>name n. if name = ''server.close'' then Some (PlainError ''Server is not running.'') else None);
       q = snd (handleShutdown (p\<lparr> p_shutting := False, p_fails := failing \<rparr>))
   in p_exits q = p_exits p @ [1] \<and>
      p_calls q = p_calls p @ [''io.disconnectSockets'', ''io.close''] @
        (if p_adapter p then [''pub.quit'', ''sub.quit''] else []) @ [''server.close'']"
  by (simp add: handleShutdown_def shutdown_steps_def closeSocketServer_def adapter_close_def both_def call_def
      bindE_def catchE_def look_def change_def retE_def clear_timer_def exit_process_def Let_def)

text \<open>
  The deep link of a ticket does not depend on slashes at the end of the configured address.
\<close>

lemma deep_link_ignores_trailing_slashes:
  "deep_link (Some (base @ replicate n (CHR ''/''))) i = deep_link (Some base) i"
  by (simp add: deep_link_def strip_replicate_slashes)

text \<open>
  Ringing enqueues one push job, for the device of the rung entry, with three attempts, exactly
  when the answer says a notification was dispatched; a rejected ring enqueues none.
\<close>

lemma ring_notifies_once:
  "case ring_execute input w of
     (Inl _, w') \<Rightarrow> jobs w' = jobs w
   | (Inr out, w') \<Rightarrow> notified input out (jobs w) (jobs w')"
  using wp_ring_jobs [of input w] by (simp add: wp_def)

text \<open>
  The repository lets out only domain errors, persistence errors and programming errors: no error
  of the database driver passes through \<open>run\<close>.
\<close>

lemma repository_hides_driver_errors:
  "case qrun m w of (Inl e, _) \<Rightarrow> safe_error e | (Inr _, _) \<Rightarrow> True"
proof -
  have "wp (qrun m) (\<lambda>_ _. True) (\<lambda>e _. safe_error e) w"
    unfolding wp_run by (rule wp_mono [OF wp_true]) simp_all
  then show ?thesis by (simp add: wp_def)
qed

text \<open>
  A user asking for the active queue at a restaurant gets the entry joined last among the waiting
  ones there, with the stored data, and none exactly when there is none.
\<close>

lemma active_queue_correct:
  "case active_queue_execute rid u w of
     (Inl _, w') \<Rightarrow> db w' = db w
   | (Inr out, w') \<Rightarrow> db w' = db w \<and> (case ao_queueEntry out of
        None \<Rightarrow> \<not> ao_hasActiveQueue out \<and>
          \<not> list_ex (\<lambda>r. waiting_at rid r \<and> r_userId r = Some u) (entries (db w))
      | Some a \<Rightarrow> ao_hasActiveQueue out \<and>
          list_ex (\<lambda>r. waiting_at rid r \<and> r_userId r = Some u \<and> a = active_details (toDomain r)) (entries (db w)) \<and>
          list_all (\<lambda>r. \<not> (waiting_at rid r \<and> r_userId r = Some u \<and> aq_joinedAt a < r_joinedAt r)) (entries (db w)))"
  using wp_active_queue [of rid u w] by (simp add: wp_def)

end
